theory Spec2Isabelle
  imports Complex_Main "HOL-Library.Sublist"
begin

section \<open>JavaScript strings\<close>

text \<open>
  A JavaScript string is a sequence of 16-bit code units. The model covers the strings
  whose code units are all below 256: such a string is a \<^typ>\<open>string\<close> with one
  character for each code unit, so that \<open>CHR 0xE9\<close> is the code unit U+00E9. On these
  strings the functions of this section return what the methods of
  \<^verbatim>\<open>String.prototype\<close> return.
\<close>

definition upperLetters :: string where
  "upperLetters = ''ABCDEFGHIJKLMNOPQRSTUVWXYZ''"

definition lowerLetters :: string where
  "lowerLetters = ''abcdefghijklmnopqrstuvwxyz''"

text \<open>The cased letters above U+007F: U+00C0 to U+00DE without the sign U+00D7, and
  U+00E0 to U+00FE without the sign U+00F7.\<close>

definition upperLatin1 :: string where
  "upperLatin1 =
     [CHR 0xC0, CHR 0xC1, CHR 0xC2, CHR 0xC3, CHR 0xC4, CHR 0xC5, CHR 0xC6, CHR 0xC7,
      CHR 0xC8, CHR 0xC9, CHR 0xCA, CHR 0xCB, CHR 0xCC, CHR 0xCD, CHR 0xCE, CHR 0xCF,
      CHR 0xD0, CHR 0xD1, CHR 0xD2, CHR 0xD3, CHR 0xD4, CHR 0xD5, CHR 0xD6,
      CHR 0xD8, CHR 0xD9, CHR 0xDA, CHR 0xDB, CHR 0xDC, CHR 0xDD, CHR 0xDE]"

definition lowerLatin1 :: string where
  "lowerLatin1 =
     [CHR 0xE0, CHR 0xE1, CHR 0xE2, CHR 0xE3, CHR 0xE4, CHR 0xE5, CHR 0xE6, CHR 0xE7,
      CHR 0xE8, CHR 0xE9, CHR 0xEA, CHR 0xEB, CHR 0xEC, CHR 0xED, CHR 0xEE, CHR 0xEF,
      CHR 0xF0, CHR 0xF1, CHR 0xF2, CHR 0xF3, CHR 0xF4, CHR 0xF5, CHR 0xF6,
      CHR 0xF8, CHR 0xF9, CHR 0xFA, CHR 0xFB, CHR 0xFC, CHR 0xFD, CHR 0xFE]"

text \<open>
  \<^verbatim>\<open>s.toLowerCase()\<close>: every upper-case letter becomes its lower-case letter, every
  other code unit below 256 stays as it is.
\<close>

definition toLowerChar :: "char \<Rightarrow> char" where
  "toLowerChar c =
     (case map_of (zip (upperLetters @ upperLatin1) (lowerLetters @ lowerLatin1)) c of
        Some d \<Rightarrow> d
      | None \<Rightarrow> c)"

definition toLowerCase :: "string \<Rightarrow> string" where
  "toLowerCase s = map toLowerChar s"

text \<open>
  \<^verbatim>\<open>s.toUpperCase()\<close>: every lower-case letter becomes its upper-case letter and
  U+00DF becomes \<^verbatim>\<open>SS\<close>. The upper-case forms of U+00B5 and U+00FF are U+039C and
  U+0178, which are not below 256: the result is \<open>None\<close> when the upper-case string has
  such a code unit.
\<close>

definition toUpperChar :: "char \<Rightarrow> string option" where
  "toUpperChar c =
     (if c = CHR 0xB5 \<or> c = CHR 0xFF then None
      else if c = CHR 0xDF then Some ''SS''
      else (case map_of (zip (lowerLetters @ lowerLatin1) (upperLetters @ upperLatin1)) c of
              Some d \<Rightarrow> Some [d]
            | None \<Rightarrow> Some [c]))"

definition toUpperCase :: "string \<Rightarrow> string option" where
  "toUpperCase s = map_option concat (those (map toUpperChar s))"

text \<open>
  \<^verbatim>\<open>s.trim()\<close>: white space and line terminators are removed at both ends. Below
  256 these are the code units U+0009 to U+000D, the space and the no-break space U+00A0.
\<close>

definition isWhiteSpace :: "char \<Rightarrow> bool" where
  "isWhiteSpace c =
     (c \<in> set [CHR 0x09, CHR 0x0A, CHR 0x0B, CHR 0x0C, CHR 0x0D, CHR '' '', CHR 0xA0])"

definition trimStart :: "string \<Rightarrow> string" where
  "trimStart s = dropWhile isWhiteSpace s"

definition trim :: "string \<Rightarrow> string" where
  "trim s = rev (dropWhile isWhiteSpace (rev (trimStart s)))"

text \<open>\<^verbatim>\<open>s.startsWith(p)\<close>, \<^verbatim>\<open>s.includes(p)\<close> and \<^verbatim>\<open>s.indexOf(p)\<close>
  (\<open>None\<close> stands for the result \<open>-1\<close>).\<close>

definition startsWith :: "string \<Rightarrow> string \<Rightarrow> bool" where
  "startsWith s p = (take (length p) s = p)"

fun includesStr :: "string \<Rightarrow> string \<Rightarrow> bool" where
  "includesStr [] p = (p = [])"
| "includesStr (c # cs) p = (startsWith (c # cs) p \<or> includesStr cs p)"

fun indexOfFrom :: "nat \<Rightarrow> string \<Rightarrow> string \<Rightarrow> nat option" where
  "indexOfFrom i [] p = (if p = [] then Some i else None)"
| "indexOfFrom i (c # cs) p =
     (if startsWith (c # cs) p then Some i else indexOfFrom (Suc i) cs p)"

definition indexOf :: "string \<Rightarrow> string \<Rightarrow> nat option" where
  "indexOf s p = indexOfFrom 0 s p"

text \<open>\<^verbatim>\<open>s.split(sep)\<close> for a one-character separator (the empty string splits into one
  empty piece) and \<^verbatim>\<open>xs.join(sep)\<close>.\<close>

fun split :: "char \<Rightarrow> string \<Rightarrow> string list" where
  "split sep [] = [[]]"
| "split sep (c # cs) =
     (if c = sep then [] # split sep cs
      else (case split sep cs of [] \<Rightarrow> [[c]] | w # ws \<Rightarrow> (c # w) # ws))"

fun join :: "string \<Rightarrow> string list \<Rightarrow> string" where
  "join sep [] = []"
| "join sep [x] = x"
| "join sep (x # y # ys) = x @ sep @ join sep (y # ys)"

text \<open>\<^verbatim>\<open>s.charAt(0)\<close> is the first character as a string (empty for the empty string),
  \<^verbatim>\<open>s.slice(1)\<close> is the rest.\<close>

definition charAt0 :: "string \<Rightarrow> string" where
  "charAt0 s = take 1 s"

definition slice1 :: "string \<Rightarrow> string" where
  "slice1 s = drop 1 s"

section \<open>Title casing\<close>

definition smallWords :: "string list" where
  "smallWords = [''a'', ''an'', ''the'', ''and'', ''or'', ''but'', ''in'', ''on'', ''at'',
     ''to'', ''for'', ''of'', ''with'', ''by'']"

text \<open>
  \<^verbatim>\<open>word.charAt(0).toUpperCase() + word.slice(1).toLowerCase()\<close>. This and the
  functions built on it are \<open>None\<close> when \<^const>\<open>toUpperCase\<close> is.
\<close>

definition capitalizeWord :: "string \<Rightarrow> string option" where
  "capitalizeWord word =
     map_option (\<lambda>u. u @ toLowerCase (slice1 word)) (toUpperCase (charAt0 word))"

text \<open>\<^verbatim>\<open>if (s.length > 0) s = s.charAt(0).toUpperCase() + s.slice(1)\<close>\<close>

definition capitalizeFirst :: "string \<Rightarrow> string option" where
  "capitalizeFirst s =
     (if length s > 0 then map_option (\<lambda>u. u @ slice1 s) (toUpperCase (charAt0 s))
      else Some s)"

text \<open>
  The single-field generator (\<^verbatim>\<open>generateContentWithOpenAI\<close>, field \<^verbatim>\<open>title\<close>):
  a word is kept lower-case when it is a small word and
  \<^verbatim>\<open>content.indexOf(word) > 0\<close>, where \<^verbatim>\<open>content\<close> is still the whole
  string before the mapping.
\<close>

definition titleWord_field :: "string \<Rightarrow> string \<Rightarrow> string option" where
  "titleWord_field content word =
     (if toLowerCase word \<in> set smallWords
         \<and> (case indexOf content word of Some i \<Rightarrow> 0 < i | None \<Rightarrow> False)
      then Some (toLowerCase word)
      else capitalizeWord word)"

definition titleCase_field :: "string \<Rightarrow> string option" where
  "titleCase_field content =
     (case those (map (titleWord_field content) (split CHR '' '' content)) of
        None \<Rightarrow> None
      | Some ws \<Rightarrow> capitalizeFirst (join '' '' ws))"

text \<open>
  The picture-batch generator: the same mapping, but the test is on the position of the
  word in the split list (\<^verbatim>\<open>index > 0\<close>).
\<close>

definition titleWord_pictures :: "nat \<times> string \<Rightarrow> string option" where
  "titleWord_pictures p =
     (case p of (index, word) \<Rightarrow>
        if toLowerCase word \<in> set smallWords \<and> 0 < index
        then Some (toLowerCase word)
        else capitalizeWord word)"

definition titleCase_pictures :: "string \<Rightarrow> string option" where
  "titleCase_pictures line =
     (case those (map titleWord_pictures (enumerate 0 (split CHR '' '' line))) of
        None \<Rightarrow> None
      | Some ws \<Rightarrow> capitalizeFirst (join '' '' ws))"

section \<open>Document classifier\<close>

text \<open>
  The paragraph styles of the Docs API (\<^verbatim>\<open>paragraphStyle.namedStyleType\<close>) with
  their names. A style is a heading when its name contains \<^verbatim>\<open>HEADING\<close>; the level
  is the number after \<^verbatim>\<open>HEADING_\<close>.
\<close>

datatype namedStyleType =
  NAMED_STYLE_TYPE_UNSPECIFIED | NORMAL_TEXT | TITLE | SUBTITLE
  | HEADING_1 | HEADING_2 | HEADING_3 | HEADING_4 | HEADING_5 | HEADING_6

fun styleName :: "namedStyleType \<Rightarrow> string" where
  "styleName NAMED_STYLE_TYPE_UNSPECIFIED = ''NAMED_STYLE_TYPE_UNSPECIFIED''"
| "styleName NORMAL_TEXT = ''NORMAL_TEXT''"
| "styleName TITLE = ''TITLE''"
| "styleName SUBTITLE = ''SUBTITLE''"
| "styleName HEADING_1 = ''HEADING_1''"
| "styleName HEADING_2 = ''HEADING_2''"
| "styleName HEADING_3 = ''HEADING_3''"
| "styleName HEADING_4 = ''HEADING_4''"
| "styleName HEADING_5 = ''HEADING_5''"
| "styleName HEADING_6 = ''HEADING_6''"

text \<open>\<^verbatim>\<open>parseInt(styleType.replace('HEADING_', '')) || 1\<close> on the names above.\<close>

fun styleLevel :: "namedStyleType \<Rightarrow> nat" where
  "styleLevel HEADING_2 = 2"
| "styleLevel HEADING_3 = 3"
| "styleLevel HEADING_4 = 4"
| "styleLevel HEADING_5 = 5"
| "styleLevel HEADING_6 = 6"
| "styleLevel _ = 1"

text \<open>A paragraph: its named style, when it has one, and the content of the text run of
  each of its elements (\<open>None\<close> for an element without text run or content).\<close>

record Paragraph =
  namedStyleType :: "namedStyleType option"
  elements :: "string option list"

text \<open>A structural element of the document body: a paragraph, or a table given by its
  rows, their cells and the content of each cell.\<close>

datatype structuralElement =
  StructuralElement (paragraphOf: "Paragraph option")
                    (tableOf: "structuralElement list list list option")

record textElement =
  elText :: string
  isHeading :: bool
  level :: nat

datatype category = WithSubtopics | NoSubtopics

record ClassificationResult =
  category :: "category option"
  reason :: string
  matchedLine :: "string option"
  lineNumber :: "nat option"
  subtopics :: "string list option"

text \<open>The paragraph part of \<^verbatim>\<open>extractContentFromElement\<close>: the text runs are
  concatenated and trimmed; a paragraph whose trimmed text is empty is dropped.\<close>

definition paragraphElements :: "Paragraph \<Rightarrow> textElement list" where
  "paragraphElements p =
     (let heading = (case namedStyleType p of
                       None \<Rightarrow> False
                     | Some st \<Rightarrow> includesStr (styleName st) ''HEADING'');
          headingLevel = (case namedStyleType p of
                            None \<Rightarrow> 0
                          | Some st \<Rightarrow> if includesStr (styleName st) ''HEADING''
                                       then styleLevel st else 0);
          txt = trim (concat (map (\<lambda>e. case e of None \<Rightarrow> [] | Some c \<Rightarrow> c) (elements p)))
      in if txt \<noteq> []
         then [\<lparr>elText = txt, isHeading = heading, level = headingLevel\<rparr>]
         else [])"

fun extractContentFromElement :: "structuralElement \<Rightarrow> textElement list" where
  "extractContentFromElement (StructuralElement p t) =
     (case p of None \<Rightarrow> [] | Some para \<Rightarrow> paragraphElements para)
     @ (case t of
          None \<Rightarrow> []
        | Some tableRows \<Rightarrow>
            concat (map (\<lambda>row.
              concat (map (\<lambda>cell.
                concat (map extractContentFromElement cell)) row)) tableRows))"

text \<open>\<^verbatim>\<open>document.body.content.forEach(extractContentFromElement)\<close>\<close>

definition extractTextElements :: "structuralElement list \<Rightarrow> textElement list" where
  "extractTextElements content = concat (map extractContentFromElement content)"

text \<open>Decimal rendering of a number in a template literal.\<close>

definition digitChar :: "nat \<Rightarrow> char" where
  "digitChar d = ''0123456789'' ! (d mod 10)"

function showNat :: "nat \<Rightarrow> string" where
  "showNat n = (if n < 10 then [digitChar n] else showNat (n div 10) @ [digitChar (n mod 10)])"
  by pat_completeness auto
termination
  by (relation "measure id") auto

declare showNat.simps [simp del]

text \<open>\<^verbatim>\<open>textElements.find(...)\<close> together with the index of the element found.\<close>

fun findFrom :: "nat \<Rightarrow> ('a \<Rightarrow> bool) \<Rightarrow> 'a list \<Rightarrow> (nat \<times> 'a) option" where
  "findFrom i P [] = None"
| "findFrom i P (x # xs) = (if P x then Some (i, x) else findFrom (Suc i) P xs)"

definition containsKeyword :: "string \<Rightarrow> textElement \<Rightarrow> bool" where
  "containsKeyword keywordLower element =
     includesStr (trim (toLowerCase (elText element))) keywordLower"

text \<open>The loop that collects the subtopics, started at the element after the match.\<close>

fun collectSubtopics :: "string \<Rightarrow> textElement list \<Rightarrow> string list" where
  "collectSubtopics keywordLower [] = []"
| "collectSubtopics keywordLower (element # rest) =
     (if isHeading element then []
      else (let trimmedText = trim (elText element)
            in if \<not> isHeading element \<and> trimmedText \<noteq> []
               then (if toLowerCase trimmedText \<noteq> keywordLower
                     then trimmedText # collectSubtopics keywordLower rest
                     else collectSubtopics keywordLower rest)
               else collectSubtopics keywordLower rest))"

text \<open>The backward walk to the nearest heading before the match (empty when none).\<close>

definition parentHeadingOf :: "nat \<Rightarrow> textElement list \<Rightarrow> string" where
  "parentHeadingOf elementIndex textElements =
     (case find isHeading (rev (take elementIndex textElements)) of
        None \<Rightarrow> []
      | Some h \<Rightarrow> elText h)"

text \<open>The classification of the flattened document (from the search for the keyword to the
  result).\<close>

definition classifyElements :: "string \<Rightarrow> textElement list \<Rightarrow> ClassificationResult" where
  "classifyElements keyword textElements =
     (let keywordLower = trim (toLowerCase keyword)
      in case findFrom 0 (containsKeyword keywordLower) textElements of
           None \<Rightarrow>
             \<lparr>category = None,
              reason = ''Keyword \"'' @ keyword @ ''\" not found in document'',
              matchedLine = None, lineNumber = None, subtopics = None\<rparr>
         | Some (elementIndex, foundElement) \<Rightarrow>
             if isHeading foundElement
             then (let subs = collectSubtopics keywordLower
                                (drop (elementIndex + 1) textElements)
                   in \<lparr>category = Some WithSubtopics,
                       reason = ''\"'' @ keyword @ ''\" found as heading level ''
                                @ showNat (level foundElement) @ '' (with subtopics)'',
                       matchedLine = Some (elText foundElement),
                       lineNumber = Some (elementIndex + 1),
                       subtopics = (if length subs > 0 then Some subs else None)\<rparr>)
             else (let parentHeading = parentHeadingOf elementIndex textElements
                   in \<lparr>category = Some NoSubtopics,
                       reason = (if parentHeading \<noteq> []
                                 then ''\"'' @ keyword @ ''\" found under heading \"''
                                      @ parentHeading @ ''\" (no subtopics)''
                                 else ''\"'' @ keyword
                                      @ ''\" found as regular content (no subtopics)''),
                       matchedLine = Some (elText foundElement),
                       lineNumber = Some (elementIndex + 1),
                       subtopics = None\<rparr>))"

subsection \<open>Fetching the document\<close>

text \<open>
  An optional string of the environment or of a request is \<open>None\<close> when it is not
  set. \<^verbatim>\<open>v?.trim()\<close> trims a value that is set; a value is truthy when it is set and
  not empty; \<^verbatim>\<open>a || b\<close> takes the first truthy value.
\<close>

definition optTrim :: "string option \<Rightarrow> string option" where
  "optTrim v = map_option trim v"

definition truthy :: "string option \<Rightarrow> bool" where
  "truthy v = (case v of None \<Rightarrow> False | Some s \<Rightarrow> s \<noteq> [])"


text \<open>What a call to a remote service can throw: an \<^verbatim>\<open>Error\<close> with its message, or
  some other value.\<close>

datatype thrown = ErrorWithMessage string | OtherValue

definition thrownMessage :: "thrown \<Rightarrow> string" where
  "thrownMessage e = (case e of ErrorWithMessage m \<Rightarrow> m | OtherValue \<Rightarrow> ''Unknown error'')"

text \<open>The environment variables the library functions read.\<close>

record processEnv =
  GOOGLE_DOC_ID :: "string option"
  GOOGLE_DOC_ID_dashed :: "string option"
  GOOGLE_CLIENT_ID :: "string option"
  GOOGLE_CLIENT_SECRET :: "string option"
  GOOGLE_SHEET_ID :: "string option"
  OPENAI_API_KEY :: "string option"







definition failedClassification :: "string \<Rightarrow> ClassificationResult" where
  "failedClassification r =
     \<lparr>category = None, reason = r, matchedLine = None, lineNumber = None, subtopics = None\<rparr>"


section \<open>Spreadsheet rows and object literals\<close>

text \<open>
  The values of a sheet range are rows of cells; the API leaves out the empty cells at
  the end of a row, so \<^verbatim>\<open>row[k] || ''\<close> is the cell or the empty string.
\<close>

definition cell :: "string list \<Rightarrow> nat \<Rightarrow> string" where
  "cell row k = (if k < length row then row ! k else [])"

text \<open>
  A look-up \<^verbatim>\<open>table[key]\<close> in an object literal yields the string stored under the
  key, or, for the name of a property every object inherits, a value that is not a string,
  or \<^verbatim>\<open>undefined\<close>.
\<close>

datatype jsValue = Str string | Inherited string | Undefined

definition objectPrototypeKeys :: "string list" where
  "objectPrototypeKeys = [''constructor'', ''__proto__'', ''hasOwnProperty'',
     ''isPrototypeOf'', ''propertyIsEnumerable'', ''toLocaleString'', ''toString'',
     ''valueOf'', ''__defineGetter__'', ''__defineSetter__'', ''__lookupGetter__'',
     ''__lookupSetter__'']"

definition lookupKey :: "(string \<times> string) list \<Rightarrow> string \<Rightarrow> jsValue" where
  "lookupKey table key =
     (case map_of table key of
        Some v \<Rightarrow> Str v
      | None \<Rightarrow> if key \<in> set objectPrototypeKeys then Inherited key else Undefined)"

definition truthyValue :: "jsValue \<Rightarrow> bool" where
  "truthyValue v = (case v of Str s \<Rightarrow> s \<noteq> [] | Inherited k \<Rightarrow> True | Undefined \<Rightarrow> False)"

text \<open>How a value reads inside a template literal.\<close>

definition renderValue :: "jsValue \<Rightarrow> string" where
  "renderValue v =
     (case v of
        Str s \<Rightarrow> s
      | Inherited k \<Rightarrow>
          if k = ''__proto__'' then ''[object Object]''
          else if k = ''constructor'' then ''function Object() { [native code] }''
          else ''function '' @ k @ ''() { [native code] }''
      | Undefined \<Rightarrow> ''undefined'')"

section \<open>Prompt resolver\<close>

record PromptResult =
  prompt :: "string option"
  example :: "string option"
  found :: bool
  error :: "string option"

definition fieldNameMappings :: "(string \<times> string) list" where
  "fieldNameMappings =
     [(''title'', ''Title''), (''intro'', ''Intro''), (''pic1'', ''Pic1''),
      (''pic2'', ''Pic2''), (''pic3'', ''Pic3''), (''pic4'', ''Pic4''),
      (''pictures'', ''Pictures''), (''subtopics'', ''Subtopics''), (''cost'', ''Cost''),
      (''why'', ''Why''), (''faq'', ''FAQ'')]"

text \<open>\<^verbatim>\<open>mappings[fieldId] || fieldId\<close>\<close>

definition mapFieldId :: "string \<Rightarrow> jsValue" where
  "mapFieldId fieldId =
     (if truthyValue (lookupKey fieldNameMappings fieldId)
      then lookupKey fieldNameMappings fieldId
      else Str fieldId)"

definition promptFailure :: "string \<Rightarrow> PromptResult" where
  "promptFailure msg = \<lparr>prompt = None, example = None, found = False, error = Some msg\<rparr>"

text \<open>
  The search loop over the rows after the header row. A row with fewer than two cells is
  skipped. Comparing the key cell with a mapped name that is not a string throws a
  \<^verbatim>\<open>TypeError\<close>, which the handler of the function turns into a failure.
\<close>

fun searchPromptRows :: "string \<Rightarrow> jsValue \<Rightarrow> string list list \<Rightarrow> PromptResult" where
  "searchPromptRows fieldId mappedFieldId [] =
     promptFailure (''Field \"'' @ fieldId @ ''\" (mapped to \"'' @ renderValue mappedFieldId
                    @ ''\") not found in Prompts tab'')"
| "searchPromptRows fieldId mappedFieldId (row # rows) =
     (if length row < 2 then searchPromptRows fieldId mappedFieldId rows
      else (case mappedFieldId of
              Str mapped \<Rightarrow>
                if trim (toLowerCase (cell row 0)) = toLowerCase mapped
                then (if cell row 1 = []
                      then promptFailure
                             (''Field \"'' @ fieldId @ ''\" found but prompt is empty'')
                      else \<lparr>prompt = Some (cell row 1),
                            example = (if cell row 2 = [] then None else Some (cell row 2)),
                            found = True, error = None\<rparr>)
                else searchPromptRows fieldId mappedFieldId rows
            | _ \<Rightarrow> promptFailure ''mappedFieldId.toLowerCase is not a function''))"

text \<open>The message of a failed call, as the handler of the function rewrites it.\<close>

definition sheetsErrorMessage :: "thrown \<Rightarrow> string" where
  "sheetsErrorMessage e =
     (case e of
        OtherValue \<Rightarrow> ''Unknown error''
      | ErrorWithMessage m \<Rightarrow>
          if includesStr m ''invalid_grant'' \<or> includesStr m ''Token has been expired''
          then ''Authentication expired. Please re-authenticate.''
          else if includesStr m ''Permission denied'' \<or> includesStr m ''Forbidden''
          then ''Permission denied. Ensure the sheet is shared with your account.''
          else m)"

text \<open>
  \<^verbatim>\<open>getPromptFromSheets\<close>. The argument \<open>valuesGet\<close> stands for
  \<^verbatim>\<open>sheets.spreadsheets.values.get\<close>: for a sheet id and a range it throws, or
  returns the values of the range (\<open>None\<close> when the response has none).
\<close>

definition getPromptFromSheets ::
  "processEnv \<Rightarrow> (string \<Rightarrow> string \<Rightarrow> thrown + string list list option) \<Rightarrow>
   string \<Rightarrow> string option \<Rightarrow> PromptResult" where
  "getPromptFromSheets env valuesGet fieldId accessToken =
     (if \<not> truthy (optTrim (GOOGLE_CLIENT_ID env))
         \<or> \<not> truthy (optTrim (GOOGLE_CLIENT_SECRET env))
      then promptFailure ''Google OAuth credentials not configured''
      else if \<not> truthy (optTrim (GOOGLE_SHEET_ID env))
      then promptFailure ''GOOGLE_SHEET_ID not configured''
      else if \<not> truthy accessToken
      then promptFailure ''No access token provided''
      else
        (case valuesGet (the (optTrim (GOOGLE_SHEET_ID env))) ''Prompts!B:D'' of
           Inl e \<Rightarrow> promptFailure (sheetsErrorMessage e)
         | Inr values \<Rightarrow>
             (let rows = (case values of None \<Rightarrow> [] | Some rs \<Rightarrow> rs)
              in if length rows = 0
                 then promptFailure ''No data found in Prompts tab''
                 else searchPromptRows fieldId (mapFieldId fieldId) (drop 1 rows))))"

section \<open>The whole prompt tab\<close>

text \<open>The field id of an entry is whatever the title table yields, a string in all
  cases but the ones of \<^const>\<open>Inherited\<close>.\<close>

record PromptData =
  fieldId :: jsValue
  fieldTitle :: string
  promptText :: string
  exampleText :: string
  isSubtitlesOnly :: bool

definition titleMappings :: "(string \<times> string) list" where
  "titleMappings =
     [(''title'', ''title''), (''wtitle'', ''title''), (''introduction'', ''intro''),
      (''intro'', ''intro''), (''entro'', ''intro''), (''wentro'', ''intro''),
      (''picture 1'', ''pic1''), (''picture 2'', ''pic2''), (''picture 3'', ''pic3''),
      (''picture 4'', ''pic4''), (''pic1'', ''pic1''), (''pic2'', ''pic2''),
      (''pic3'', ''pic3''), (''pic4'', ''pic4''), (''wpic1'', ''pic1''),
      (''wpic2'', ''pic2''), (''wpic3'', ''pic3''), (''wpic4'', ''pic4''),
      (''cost'', ''cost''), (''cost information'', ''cost''), (''wcost'', ''cost''),
      (''why'', ''why''), (''why choose us'', ''why''), (''wwhy'', ''why''),
      (''faq'', ''faq''), (''faqs'', ''faq''), (''wfaq'', ''faq''),
      (''subtopics'', ''subtopics''), (''sub'', ''subtopics'')]"

text \<open>What one entry of the table gives for row 17 and for the other rows.\<close>

definition restrictToSubtopics :: "bool \<Rightarrow> jsValue \<Rightarrow> jsValue option" where
  "restrictToSubtopics subtitlesOnly v =
     (if subtitlesOnly
      then (if v = Str ''subtopics'' then Some (Str ''subtopics'') else None)
      else Some v)"

text \<open>The partial matches, over the entries of the table in the order they are written.\<close>

fun partialMatch :: "string \<Rightarrow> bool \<Rightarrow> (string \<times> string) list \<Rightarrow> jsValue option" where
  "partialMatch title subtitlesOnly [] = None"
| "partialMatch title subtitlesOnly ((key, v) # entries) =
     (if includesStr title key \<or> includesStr key title
      then restrictToSubtopics subtitlesOnly (Str v)
      else partialMatch title subtitlesOnly entries)"

definition mapFieldTitleToId :: "string \<Rightarrow> bool \<Rightarrow> jsValue option" where
  "mapFieldTitleToId fieldTitle0 subtitlesOnly =
     (let title = trim (toLowerCase fieldTitle0);
          direct = lookupKey titleMappings title
      in if truthyValue direct
         then restrictToSubtopics subtitlesOnly direct
         else partialMatch title subtitlesOnly titleMappings)"

definition pictureFields :: "string list" where
  "pictureFields = [''pic1'', ''pic2'', ''pic3'', ''pic4'']"

text \<open>What the row with index \<open>i\<close> (row \<open>i + 1\<close> of the sheet) adds to the list
  of prompts.\<close>

definition promptsOfRow :: "nat \<Rightarrow> string list \<Rightarrow> PromptData list" where
  "promptsOfRow i row =
     (let title0 = cell row 0; prompt0 = cell row 1; example0 = cell row 2
      in if trim title0 = [] \<or> trim prompt0 = [] then []
         else if i + 1 = 13
         then map (\<lambda>picField.
                \<lparr>fieldId = Str picField, fieldTitle = picField, promptText = trim prompt0,
                 exampleText = trim example0, isSubtitlesOnly = False\<rparr>) pictureFields
         else (case mapFieldTitleToId title0 (i + 1 = 17) of
                 None \<Rightarrow> []
               | Some fieldMapping \<Rightarrow>
                   if fieldMapping \<in> set (map Str pictureFields) then []
                   else [\<lparr>fieldId = fieldMapping, fieldTitle = trim title0,
                          promptText = trim prompt0, exampleText = trim example0,
                          isSubtitlesOnly = (i + 1 = 17)\<rparr>]))"

text \<open>The loop over all rows, from index \<open>i\<close> on.\<close>

fun processRows :: "nat \<Rightarrow> string list list \<Rightarrow> PromptData list" where
  "processRows i [] = []"
| "processRows i (row # rows) = promptsOfRow i row @ processRows (Suc i) rows"

record PromptsResult =
  prompts :: "PromptData list"
  promptsError :: "string option"
  accessMethod :: string

text \<open>
  \<^verbatim>\<open>getPromptsFromSheet\<close>. Here the environment variables are not trimmed. The token
  passed to the service is the one \<^verbatim>\<open>getValidAccessToken\<close> returns, which plays no
  part in what follows.
\<close>

definition getPromptsFromSheet ::
  "processEnv \<Rightarrow> (string \<Rightarrow> string \<Rightarrow> thrown + string list list option) \<Rightarrow>
   string option \<Rightarrow> PromptsResult" where
  "getPromptsFromSheet env valuesGet accessToken =
     (if \<not> truthy (GOOGLE_CLIENT_ID env) \<or> \<not> truthy (GOOGLE_CLIENT_SECRET env)
      then \<lparr>prompts = [],
            promptsError = Some (''Google OAuth credentials not configured. Need ''
              @ ''GOOGLE_CLIENT_ID and GOOGLE_CLIENT_SECRET in environment variables.''),
            accessMethod = ''Google Sheets API v4 (OAuth credentials not configured)''\<rparr>
      else if \<not> truthy (GOOGLE_SHEET_ID env)
      then \<lparr>prompts = [],
            promptsError = Some ''GOOGLE_SHEET_ID not configured in environment variables.'',
            accessMethod = ''Google Sheets API v4 (sheet ID not configured)''\<rparr>
      else if \<not> truthy accessToken
      then \<lparr>prompts = [],
            promptsError =
              Some ''No access token provided. User needs to authenticate with Google.'',
            accessMethod = ''Google Sheets API v4 (no access token)''\<rparr>
      else
        (case valuesGet (the (GOOGLE_SHEET_ID env)) ''Prompts!B:D'' of
           Inl e \<Rightarrow>
             \<lparr>prompts = [], promptsError = Some (''API Error: '' @ thrownMessage e),
              accessMethod = ''Google Sheets API v4 OAuth (failed)''\<rparr>
         | Inr values \<Rightarrow>
             (let rows = (case values of None \<Rightarrow> [] | Some rs \<Rightarrow> rs)
              in if length rows = 0
                 then \<lparr>prompts = [],
                       promptsError = Some ''No data found in the Prompts sheet'',
                       accessMethod = ''Google Sheets API v4 OAuth''\<rparr>
                 else \<lparr>prompts = processRows 0 rows, promptsError = None,
                       accessMethod = ''Google Sheets API v4 OAuth''\<rparr>)))"

text \<open>How many entries of a list of prompts carry a given field id.\<close>

definition entriesFor :: "jsValue \<Rightarrow> PromptData list \<Rightarrow> nat" where
  "entriesFor f ps = length (filter (\<lambda>p. fieldId p = f) ps)"

section \<open>Competitor lookup\<close>

record GoogleSheetsResult =
  foundRow :: bool
  rowNumber :: "nat option"
  keywordCell :: "string option"
  competitorUrls :: "string list"
  lookupError :: "string option"
  totalRows :: nat
  lookupMethod :: string

text \<open>\<^verbatim>\<open>s.split(/[\n\r,;]+/)\<close>: the string is cut at every run of separators.\<close>

definition isUrlSeparator :: "char \<Rightarrow> bool" where
  "isUrlSeparator c = (c \<in> set [CHR 0x0A, CHR 0x0D, CHR '','', CHR '';''])"

function splitOnRuns :: "(char \<Rightarrow> bool) \<Rightarrow> string \<Rightarrow> string list" where
  "splitOnRuns P [] = [[]]"
| "splitOnRuns P (c # cs) =
     (if P c then [] # splitOnRuns P (dropWhile P cs)
      else (case splitOnRuns P cs of [] \<Rightarrow> [[c]] | w # ws \<Rightarrow> (c # w) # ws))"
  by pat_completeness auto
termination
  by (relation "measure (\<lambda>(P, s). length s)") (auto simp: length_dropWhile_le le_imp_less_Suc)

definition urlsOfCell :: "string \<Rightarrow> string list" where
  "urlsOfCell cellH =
     filter (\<lambda>url. length url > 0 \<and> (startsWith url ''http'' \<or> includesStr url ''.''))
       (map trim (splitOnRuns isUrlSeparator cellH))"

text \<open>The search loop over the rows of the range \<^verbatim>\<open>D:H\<close>, from index \<open>i\<close> on: the
  row number, the keyword cell and the URLs of the first row taken, if any.\<close>

fun searchKeywordRows ::
  "string \<Rightarrow> nat \<Rightarrow> string list list \<Rightarrow> (nat \<times> string \<times> string list) option" where
  "searchKeywordRows keyword i [] = None"
| "searchKeywordRows keyword i (row # rows) =
     (let cellD = cell row 0
      in if includesStr (toLowerCase cellD) (toLowerCase keyword)
         then (let cellH = cell row 4
               in Some (i + 1, cellD, if trim cellH \<noteq> [] then urlsOfCell cellH else []))
         else searchKeywordRows keyword (Suc i) rows)"

definition lookupFailure :: "nat \<Rightarrow> string \<Rightarrow> string \<Rightarrow> GoogleSheetsResult" where
  "lookupFailure n method msg =
     \<lparr>foundRow = False, rowNumber = None, keywordCell = None, competitorUrls = [],
      lookupError = Some msg, totalRows = n, lookupMethod = method\<rparr>"

text \<open>\<^verbatim>\<open>getCompetitorUrlsFromSheets\<close>; the environment variables are trimmed.\<close>

definition getCompetitorUrlsFromSheets ::
  "processEnv \<Rightarrow> (string \<Rightarrow> string \<Rightarrow> thrown + string list list option) \<Rightarrow>
   string \<Rightarrow> string option \<Rightarrow> GoogleSheetsResult" where
  "getCompetitorUrlsFromSheets env valuesGet keyword accessToken =
     (if \<not> truthy (optTrim (GOOGLE_CLIENT_ID env))
         \<or> \<not> truthy (optTrim (GOOGLE_CLIENT_SECRET env))
      then lookupFailure 0 ''Google Sheets API v4 (OAuth credentials not configured)''
             (''Google OAuth credentials not configured. Need GOOGLE_CLIENT_ID and ''
              @ ''GOOGLE_CLIENT_SECRET in environment variables.'')
      else if \<not> truthy (optTrim (GOOGLE_SHEET_ID env))
      then lookupFailure 0 ''Google Sheets API v4 (sheet ID not configured)''
             ''GOOGLE_SHEET_ID not configured in environment variables.''
      else if \<not> truthy accessToken
      then lookupFailure 0 ''Google Sheets API v4 (no access token)''
             ''No access token provided. User needs to authenticate with Google.''
      else
        (case valuesGet (the (optTrim (GOOGLE_SHEET_ID env))) ''D:H'' of
           Inl e \<Rightarrow>
             lookupFailure 0 ''Google Sheets API v4 OAuth (failed)''
               (''API Error: '' @ thrownMessage e)
         | Inr values \<Rightarrow>
             (let rows = (case values of None \<Rightarrow> [] | Some rs \<Rightarrow> rs)
              in if length rows = 0
                 then lookupFailure 0 ''Google Sheets API v4 OAuth''
                        ''No data found in the spreadsheet''
                 else
                   (case searchKeywordRows keyword 0 rows of
                      None \<Rightarrow>
                        lookupFailure (length rows) ''Google Sheets API v4 OAuth''
                          (''Keyword \"'' @ keyword @ ''\" not found in column D'')
                    | Some (n, cellD, urls) \<Rightarrow>
                        \<lparr>foundRow = True, rowNumber = Some n, keywordCell = Some cellD,
                         competitorUrls = urls, lookupError = None,
                         totalRows = length rows,
                         lookupMethod = ''Google Sheets API v4 OAuth''\<rparr>))))"

section \<open>Keyword placeholders\<close>

text \<open>
  \<^verbatim>\<open>s.replace(regex, keyword)\<close> with a string as replacement: in the replacement,
  \<^verbatim>\<open>$$\<close> stands for a dollar sign, \<^verbatim>\<open>$&\<close> for the matched text,
  \<^verbatim>\<open>$`\<close> for the part of the string before the match and \<^verbatim>\<open>$'\<close> for the part
  after it; the patterns here have no groups, so every other use of the dollar sign is
  literal.
\<close>

fun getSubstitution :: "string \<Rightarrow> string \<Rightarrow> string \<Rightarrow> string \<Rightarrow> string" where
  "getSubstitution [] matched before after = []"
| "getSubstitution [c] matched before after = [c]"
| "getSubstitution (c # d # r) matched before after =
     (if c = CHR ''$'' \<and> d = CHR ''$'' then CHR ''$'' # getSubstitution r matched before after
      else if c = CHR ''$'' \<and> d = CHR ''&'' then matched @ getSubstitution r matched before after
      else if c = CHR ''$'' \<and> d = CHR 0x60 then before @ getSubstitution r matched before after
      else if c = CHR ''$'' \<and> d = CHR 0x27 then after @ getSubstitution r matched before after
      else c # getSubstitution (d # r) matched before after)"

text \<open>
  A pattern that is a fixed text, with or without the flag \<^verbatim>\<open>i\<close>, matches at the
  start of \<open>s\<close>. With the flag, code units are compared in their canonical form;
  for a code unit below 256 and a character of the patterns used here (braces and ASCII
  letters) the canonical forms agree exactly when the lower-case forms do.
\<close>

definition matchesFixed :: "bool \<Rightarrow> string \<Rightarrow> string \<Rightarrow> bool" where
  "matchesFixed ignoreCase pat s =
     (pat \<noteq> [] \<and> length pat \<le> length s
      \<and> (if ignoreCase then toLowerCase (take (length pat) s) = toLowerCase pat
          else take (length pat) s = pat))"

text \<open>The replacement of all matches (flag \<^verbatim>\<open>g\<close>), from left to right; \<open>before\<close> is
  the part of the string already passed.\<close>

function replaceAllFixed :: "bool \<Rightarrow> string \<Rightarrow> string \<Rightarrow> string \<Rightarrow> string \<Rightarrow> string" where
  "replaceAllFixed ignoreCase pat repl before [] = []"
| "replaceAllFixed ignoreCase pat repl before (c # cs) =
     (if matchesFixed ignoreCase pat (c # cs)
      then getSubstitution repl (take (length pat) (c # cs)) before
             (drop (length pat) (c # cs))
           @ replaceAllFixed ignoreCase pat repl (before @ take (length pat) (c # cs))
               (drop (length pat) (c # cs))
      else c # replaceAllFixed ignoreCase pat repl (before @ [c]) cs)"
  by pat_completeness auto
termination
  by (relation "measure (\<lambda>(i, pat, repl, before, s). length s)")
     (auto simp: matchesFixed_def)

text \<open>\<^verbatim>\<open>/\bKEYWORD\b/g\<close>: the word must not touch a letter, a digit or an underscore on
  either side.\<close>

definition isWordChar :: "char \<Rightarrow> bool" where
  "isWordChar c = (c \<in> set (lowerLetters @ upperLetters @ ''0123456789_''))"

definition matchesWord :: "string \<Rightarrow> string \<Rightarrow> bool" where
  "matchesWord before s =
     ((case rev before of [] \<Rightarrow> True | p # ps \<Rightarrow> \<not> isWordChar p)
      \<and> startsWith s ''KEYWORD''
      \<and> (case drop 7 s of [] \<Rightarrow> True | n # ns \<Rightarrow> \<not> isWordChar n))"

function replaceAllWord :: "string \<Rightarrow> string \<Rightarrow> string \<Rightarrow> string" where
  "replaceAllWord repl before [] = []"
| "replaceAllWord repl before (c # cs) =
     (if matchesWord before (c # cs)
      then getSubstitution repl (take 7 (c # cs)) before (drop 7 (c # cs))
           @ replaceAllWord repl (before @ take 7 (c # cs)) (drop 7 (c # cs))
      else c # replaceAllWord repl (before @ [c]) cs)"
  by pat_completeness auto
termination
  by (relation "measure (\<lambda>(repl, before, s). length s)") auto

text \<open>
  The three replacements applied to the prompt, to the example and to the generated
  content:
  \<^verbatim>\<open>.replace(/{{keyword}}/gi, keyword).replace(/{{KEYWORD}}/g, keyword).replace(/\bKEYWORD\b/g, keyword)\<close>
\<close>

definition substituteKeyword :: "string \<Rightarrow> string \<Rightarrow> string" where
  "substituteKeyword keyword s =
     replaceAllWord keyword []
       (replaceAllFixed False ''{{KEYWORD}}'' keyword []
          (replaceAllFixed True ''{{keyword}}'' keyword [] s))"

section \<open>Generation endpoints\<close>

text \<open>The body of a generation request. A field is \<open>None\<close> when it is absent; the
  keyword and the flow are also \<open>None\<close> when they are not strings.\<close>

record generateRequest =
  reqKeyword :: "string option"
  reqFlow :: "string option"
  reqCompetitorUrls :: "string list option"
  reqAccessToken :: "string option"
  reqPreviousPictures :: "(string \<times> string) list option"
  reqSubtopics :: "string list option"

datatype boxBody = BoxError string | BoxOutput string string string

definition validKeyword :: "string option \<Rightarrow> bool" where
  "validKeyword k = (case k of None \<Rightarrow> False | Some s \<Rightarrow> s \<noteq> [] \<and> length (trim s) \<noteq> 0)"

definition validFlow :: "string option \<Rightarrow> bool" where
  "validFlow f =
     (case f of None \<Rightarrow> False
      | Some s \<Rightarrow> s \<noteq> [] \<and> (s = ''with subtopics'' \<or> s = ''no subtopics''))"

definition validFields :: "string list" where
  "validFields = [''title'', ''intro'', ''pic1'', ''pic2'', ''pic3'', ''pic4'',
     ''subtopics'', ''cost'', ''why'', ''faq'']"

text \<open>
  \<^verbatim>\<open>POST /api/generate/[box]\<close>, as status and body. The argument \<open>generate\<close>
  stands for \<^verbatim>\<open>generateContentWithOpenAI\<close> on the request and the prompt found:
  \<open>None\<close> when it throws, the content otherwise.
\<close>

definition POST_box ::
  "processEnv \<Rightarrow> (string \<Rightarrow> string \<Rightarrow> thrown + string list list option) \<Rightarrow>
   (string \<Rightarrow> generateRequest \<Rightarrow> PromptResult \<Rightarrow> string option) \<Rightarrow>
   string \<Rightarrow> generateRequest \<Rightarrow> nat \<times> boxBody" where
  "POST_box env valuesGet generate box req =
     (if \<not> validKeyword (reqKeyword req)
      then (400, BoxError ''Keyword is required and must be a non-empty string'')
      else if \<not> validFlow (reqFlow req)
      then (400, BoxError ''Invalid flow. Must be \"with subtopics\" or \"no subtopics\"'')
      else if box \<notin> set validFields
      then (400, BoxError (''Invalid field \"'' @ box @ ''\"''))
      else if box = ''subtopics'' \<and> reqFlow req \<noteq> Some ''with subtopics''
      then (400, BoxError
              ''Subtopics field is only available for \"with subtopics\" classification'')
      else if \<not> truthy (OPENAI_API_KEY env)
      then (500, BoxError ''OpenAI API key not configured'')
      else if \<not> truthy (reqAccessToken req)
      then (401, BoxError
              ''Authentication required. Please authenticate with Google to access prompts.'')
      else
        (let promptResult = getPromptFromSheets env valuesGet box (reqAccessToken req)
         in if \<not> found promptResult \<or> \<not> truthy (prompt promptResult)
            then (404, BoxError
                    (if truthy (error promptResult) then the (error promptResult)
                     else ''No prompt found for field \"'' @ box
                          @ ''\". Please ensure this field has a prompt in the Prompts tab.''))
            else (case generate box req promptResult of
                    None \<Rightarrow> (500, BoxError ''Internal server error during content generation'')
                  | Some generatedContent \<Rightarrow>
                      (200, BoxOutput generatedContent box (the (reqFlow req))))))"

text \<open>\<^verbatim>\<open>obj[key] = value\<close> on an object kept as the list of its entries.\<close>

fun assign :: "string \<Rightarrow> 'v \<Rightarrow> (string \<times> 'v) list \<Rightarrow> (string \<times> 'v) list" where
  "assign k v [] = [(k, v)]"
| "assign k v ((k', v') # kvs) =
     (if k = k' then (k, v) # kvs else (k', v') # assign k v kvs)"

record AllResponse =
  results :: "(string \<times> string option) list"
  errors :: "(string \<times> string) list option"
  allFlow :: string
  fieldCount :: nat
  successCount :: nat

datatype allBody = AllError string | AllOk AllResponse

definition withSubtopicsFieldIds :: "string list" where
  "withSubtopicsFieldIds = [''wtitle'', ''wentro'', ''wpic1'', ''wpic2'', ''wpic3'',
     ''wpic4'', ''sub'', ''wcost'', ''wwhy'', ''wfaq'']"

definition noSubtopicsFieldIds :: "string list" where
  "noSubtopicsFieldIds = [''title'', ''entro'', ''pic1'', ''pic2'', ''pic3'', ''pic4'',
     ''cost'', ''why'', ''faq'']"

text \<open>
  One round of the loop of \<^verbatim>\<open>POST /api/generate/all\<close>: the call of the per-field
  endpoint either throws (\<open>Inl\<close>) or returns the response of the endpoint.
\<close>

definition recordFieldResult ::
  "string \<Rightarrow> thrown + nat \<times> boxBody \<Rightarrow>
   (string \<times> string option) list \<times> (string \<times> string) list \<Rightarrow>
   (string \<times> string option) list \<times> (string \<times> string) list" where
  "recordFieldResult fid outcome acc =
     (case acc of (res, errs) \<Rightarrow>
        (case outcome of
           Inl e \<Rightarrow> (res, assign fid (thrownMessage e) errs)
         | Inr (status, b) \<Rightarrow>
             if 200 \<le> status \<and> status \<le> 299
             then (assign fid (case b of BoxOutput out f fl \<Rightarrow> Some out
                                       | BoxError m \<Rightarrow> None) res, errs)
             else (res, assign fid (case b of BoxError m \<Rightarrow>
                                                if m \<noteq> [] then m else ''Generation failed''
                                            | BoxOutput out f fl \<Rightarrow> ''Generation failed'')
                          errs)))"

fun generateFields ::
  "(string \<Rightarrow> thrown + nat \<times> boxBody) \<Rightarrow> string list \<Rightarrow>
   (string \<times> string option) list \<times> (string \<times> string) list \<Rightarrow>
   (string \<times> string option) list \<times> (string \<times> string) list" where
  "generateFields callField [] acc = acc"
| "generateFields callField (fid # fids) acc =
     generateFields callField fids (recordFieldResult fid (callField fid) acc)"

text \<open>
  \<^verbatim>\<open>POST /api/generate/all\<close>. The argument \<open>fetchThrows\<close> says for which field ids
  the request to the per-field endpoint fails before any response arrives; every other
  request is answered by \<^const>\<open>POST_box\<close> on the forwarded body.
\<close>

definition POST_all ::
  "processEnv \<Rightarrow> (string \<Rightarrow> string \<Rightarrow> thrown + string list list option) \<Rightarrow>
   (string \<Rightarrow> generateRequest \<Rightarrow> PromptResult \<Rightarrow> string option) \<Rightarrow>
   (string \<Rightarrow> thrown option) \<Rightarrow> generateRequest \<Rightarrow> nat \<times> allBody" where
  "POST_all env valuesGet generate fetchThrows req =
     (if \<not> validKeyword (reqKeyword req)
      then (400, AllError ''Keyword is required and must be a non-empty string'')
      else if \<not> validFlow (reqFlow req)
      then (400, AllError ''Invalid flow. Must be \"with subtopics\" or \"no subtopics\"'')
      else
        (let fieldIds = (if reqFlow req = Some ''with subtopics''
                         then withSubtopicsFieldIds else noSubtopicsFieldIds);
             forwarded = \<lparr>reqKeyword = reqKeyword req, reqFlow = reqFlow req,
                          reqCompetitorUrls = reqCompetitorUrls req,
                          reqAccessToken = reqAccessToken req,
                          reqPreviousPictures = None, reqSubtopics = None\<rparr>;
             callField = (\<lambda>fid. case fetchThrows fid of
                                   Some e \<Rightarrow> Inl e
                                 | None \<Rightarrow> Inr (POST_box env valuesGet generate fid forwarded));
             acc = generateFields callField fieldIds ([], [])
         in (200, AllOk \<lparr>results = fst acc,
                          errors = (if length (snd acc) > 0 then Some (snd acc) else None),
                          allFlow = the (reqFlow req),
                          fieldCount = length fieldIds,
                          successCount = length (fst acc)\<rparr>)))"

section \<open>Picture batch\<close>

record combination =
  comboTitle :: string
  comboSummary :: string

text \<open>
  \<^verbatim>\<open>Math.random()\<close> returns a double \<open>r\<close> with \<open>0 \<le> r < 1\<close>. Every such
  double is a fraction \<open>m / 2 ^ e\<close> with a mantissa \<open>m < 2 ^ 53\<close> and an exponent
  \<open>e \<le> 1074\<close>, and every such fraction below 1 is a double; a draw is given as the
  pair \<open>(m, e)\<close>.
\<close>

definition isRandomValue :: "nat \<times> nat \<Rightarrow> bool" where
  "isRandomValue r = (case r of (m, e) \<Rightarrow> m < 2 ^ 53 \<and> e \<le> 1074 \<and> m < 2 ^ e)"

text \<open>The number of binary digits of a number.\<close>

function bitLength :: "nat \<Rightarrow> nat" where
  "bitLength n = (if n = 0 then 0 else Suc (bitLength (n div 2)))"
  by pat_completeness auto
termination
  by (relation "measure id") auto

declare bitLength.simps [simp del]

text \<open>
  The product \<^verbatim>\<open>r * k\<close> of a draw and a whole number is the double nearest to the
  exact product \<open>m * k / 2 ^ e\<close>, the one with the even mantissa when two doubles are
  equally near. A double has 53 binary digits: when \<open>m * k\<close> has \<open>s\<close> digits more,
  the last \<open>s\<close> digits are rounded away, and the product is
  \<open>roundHalfEven (m * k) s * 2 ^ s / 2 ^ e\<close>.
\<close>

definition roundHalfEven :: "nat \<Rightarrow> nat \<Rightarrow> nat" where
  "roundHalfEven p s =
     (let q = p div 2 ^ s; rest = p mod 2 ^ s
      in if 2 ^ s < 2 * rest \<or> (2 * rest = 2 ^ s \<and> odd q) then q + 1 else q)"

text \<open>\<^verbatim>\<open>Math.floor(r * k)\<close>\<close>

definition floorOfProduct :: "nat \<times> nat \<Rightarrow> nat \<Rightarrow> nat" where
  "floorOfProduct r k =
     (case r of (m, e) \<Rightarrow>
        (let p = m * k; s = bitLength p - 53
         in (roundHalfEven p s * 2 ^ s) div 2 ^ e))"

text \<open>
  The selection loop. Each round draws \<^verbatim>\<open>Math.random()\<close> and adds
  \<^verbatim>\<open>Math.floor(Math.random() * Math.min(n, 13))\<close> to the set of selected indices,
  kept in the order of insertion. The draws are given as a list; the result is \<open>None\<close>
  when the list is used up before the loop ends.
\<close>

definition randomIndex :: "nat \<Rightarrow> nat \<times> nat \<Rightarrow> nat" where
  "randomIndex n r = floorOfProduct r (min n 13)"

fun selectIndices :: "nat \<Rightarrow> (nat \<times> nat) list \<Rightarrow> nat list \<Rightarrow> nat list option" where
  "selectIndices n [] selected =
     (if length selected < 4 \<and> length selected < n then None else Some selected)"
| "selectIndices n (r # rs) selected =
     (if length selected < 4 \<and> length selected < n
      then selectIndices n rs
             (if randomIndex n r \<in> set selected then selected
              else selected @ [randomIndex n r])
      else Some selected)"

text \<open>
  The title and the summary on two lines, then the first line in title case. The text of
  an output is \<open>None\<close> when the title case of its first line is.
\<close>

definition pictureOutput :: "combination \<Rightarrow> string option" where
  "pictureOutput c =
     (case split CHR 0x0A (comboTitle c @ [CHR 0x0A] @ comboSummary c) of
        [] \<Rightarrow> Some []
      | l # ls \<Rightarrow> map_option (\<lambda>t. join [CHR 0x0A] (t # ls)) (titleCase_pictures l))"

record pictureOutputs =
  pic1 :: "string option"
  pic2 :: "string option"
  pic3 :: "string option"
  pic4 :: "string option"

datatype picturesBody =
  PicturesError string
| PicturesOk pictureOutputs nat "nat list"

text \<open>
  \<^verbatim>\<open>POST /api/generate/pictures\<close> from the parsed combinations on, as status and
  body; \<open>None\<close> when the draws are used up inside the selection loop.
\<close>

definition picturesFromCombinations ::
  "combination list \<Rightarrow> (nat \<times> nat) list \<Rightarrow> (nat \<times> picturesBody) option" where
  "picturesFromCombinations combinations draws =
     (if length combinations < 4
      then Some (500, PicturesError
                  (''Only found '' @ showNat (length combinations)
                   @ '' combinations. Need at least 4. Response may not be in expected format.''))
      else (case selectIndices (length combinations) draws [] of
              None \<Rightarrow> None
            | Some selectedIndices \<Rightarrow>
                if length selectedIndices < 4
                   \<or> \<not> list_all (\<lambda>i. i < length combinations) (take 4 selectedIndices)
                then Some (500, PicturesError
                             ''Internal server error during pictures generation'')
                else Some (200, PicturesOk
                       \<lparr>pic1 = pictureOutput (combinations ! (selectedIndices ! 0)),
                        pic2 = pictureOutput (combinations ! (selectedIndices ! 1)),
                        pic3 = pictureOutput (combinations ! (selectedIndices ! 2)),
                        pic4 = pictureOutput (combinations ! (selectedIndices ! 3))\<rparr>
                       (length combinations) selectedIndices)))"

section \<open>Notions of the specification\<close>

text \<open>
  The specification speaks of the first element whose lower-cased text contains the
  lower-cased trimmed keyword, and of the trimmed texts of the elements between the match
  and the next heading, without the ones that equal the keyword up to case.
\<close>

definition textContainsKeyword :: "string \<Rightarrow> textElement \<Rightarrow> bool" where
  "textContainsKeyword keyword element =
     includesStr (toLowerCase (elText element)) (toLowerCase (trim keyword))"

definition subtopicsBetween :: "string \<Rightarrow> textElement list \<Rightarrow> string list" where
  "subtopicsBetween keyword rest =
     filter (\<lambda>t. toLowerCase t \<noteq> toLowerCase (trim keyword))
       (map (\<lambda>e. trim (elText e)) (takeWhile (\<lambda>e. \<not> isHeading e) rest))"

text \<open>
  The same list when the texts are compared with the keyword as it is given, not trimmed.
\<close>

definition subtopicsAsStated :: "string \<Rightarrow> textElement list \<Rightarrow> string list" where
  "subtopicsAsStated keyword rest =
     filter (\<lambda>t. toLowerCase t \<noteq> toLowerCase keyword)
       (map (\<lambda>e. trim (elText e)) (takeWhile (\<lambda>e. \<not> isHeading e) rest))"

text \<open>An example document: a heading with items below it, two of them in a table.\<close>

definition exampleParagraph :: "namedStyleType \<Rightarrow> string \<Rightarrow> structuralElement" where
  "exampleParagraph st txt =
     StructuralElement (Some \<lparr>namedStyleType = Some st, elements = [Some txt]\<rparr>) None"

definition exampleContent :: "structuralElement list" where
  "exampleContent =
     [exampleParagraph NORMAL_TEXT ''Our services'',
      exampleParagraph HEADING_2 ''Mattress Removal'',
      exampleParagraph NORMAL_TEXT ''Same-day pickup'',
      StructuralElement None
        (Some [[[exampleParagraph NORMAL_TEXT '' Recycling  ''],
                [exampleParagraph NORMAL_TEXT ''mattress removal'']]]),
      exampleParagraph NORMAL_TEXT ''Pricing'',
      exampleParagraph HEADING_2 ''Other'',
      exampleParagraph NORMAL_TEXT ''Contact'']"




text \<open>An environment and a document service for the example document.\<close>

definition exampleEnv :: processEnv where
  "exampleEnv =
     \<lparr>GOOGLE_DOC_ID = Some '' doc-1 '', GOOGLE_DOC_ID_dashed = None,
      GOOGLE_CLIENT_ID = Some ''client'', GOOGLE_CLIENT_SECRET = Some ''secret'',
      GOOGLE_SHEET_ID = Some ''sheet-1'', OPENAI_API_KEY = Some ''key''\<rparr>"


text \<open>Example rows of the competitor sheet (columns D to H) and an example request.\<close>

definition exampleCompetitorRows :: "string list list" where
  "exampleCompetitorRows =
     [[''Keyword'', ''Volume'', ''Difficulty'', ''Notes'', ''Competitors''],
      [''King Mattress Removal Cost'', ''90'', ''12'', '''', ''c.com''],
      [''Mattress Removal'', ''880'', ''31'', '''', ''a.com, b.com'']]"

definition exampleRequest :: "string \<Rightarrow> generateRequest" where
  "exampleRequest flow =
     \<lparr>reqKeyword = Some ''mattress removal'', reqFlow = Some flow,
      reqCompetitorUrls = None, reqAccessToken = Some ''token'',
      reqPreviousPictures = None, reqSubtopics = None\<rparr>"

text \<open>The error stored for a field id that the per-field endpoint does not know.\<close>

definition rejectedFieldError :: "(string \<Rightarrow> thrown option) \<Rightarrow> string \<Rightarrow> string \<times> string" where
  "rejectedFieldError fetchThrows fid =
     (fid, case fetchThrows fid of
             Some e \<Rightarrow> thrownMessage e
           | None \<Rightarrow> ''Invalid field \"'' @ fid @ ''\"'')"

text \<open>Whether the call for a field id counts as a success in the loop, and what the loop
  stores for it.\<close>

definition fieldSucceeds :: "thrown + nat \<times> boxBody \<Rightarrow> bool" where
  "fieldSucceeds outcome =
     (case outcome of Inl e \<Rightarrow> False | Inr (status, b) \<Rightarrow> 200 \<le> status \<and> status \<le> 299)"

definition fieldOutput :: "thrown + nat \<times> boxBody \<Rightarrow> string option" where
  "fieldOutput outcome =
     (case outcome of Inr (status, BoxOutput out f fl) \<Rightarrow> Some out | _ \<Rightarrow> None)"

definition fieldError :: "thrown + nat \<times> boxBody \<Rightarrow> string" where
  "fieldError outcome =
     (case outcome of
        Inl e \<Rightarrow> thrownMessage e
      | Inr (status, BoxError m) \<Rightarrow> if m \<noteq> [] then m else ''Generation failed''
      | Inr (status, BoxOutput out f fl) \<Rightarrow> ''Generation failed'')"

text \<open>Example combinations, as the parser of the picture batch returns them.\<close>

definition exampleCombinations :: "combination list" where
  "exampleCombinations =
     [\<lparr>comboTitle = ''same-day pickup for your mattress'', comboSummary = ''We come today.''\<rparr>,
      \<lparr>comboTitle = ''Licensed And Insured'', comboSummary = ''Fully covered crews.''\<rparr>,
      \<lparr>comboTitle = ''upfront pricing'', comboSummary = ''No hidden fees.''\<rparr>,
      \<lparr>comboTitle = ''Local Team'', comboSummary = ''Neighbors you know.''\<rparr>,
      \<lparr>comboTitle = ''care for the planet'', comboSummary = ''We recycle.''\<rparr>]"

text \<open>The four outputs for a list of selected indices.\<close>

definition outputsFor :: "combination list \<Rightarrow> nat list \<Rightarrow> pictureOutputs" where
  "outputsFor combinations sel =
     \<lparr>pic1 = pictureOutput (combinations ! (sel ! 0)),
      pic2 = pictureOutput (combinations ! (sel ! 1)),
      pic3 = pictureOutput (combinations ! (sel ! 2)),
      pic4 = pictureOutput (combinations ! (sel ! 3))\<rparr>"

text \<open>Example contents of the prompt tab: one with two rows for the title, one with the
  rows 13 and 17 in use.\<close>

definition exampleDuplicateRows :: "string list list" where
  "exampleDuplicateRows =
     [[''Field'', ''Prompt'', ''Example''],
      [''Title'', ''Write a title for {{keyword}}''],
      [''wtitle'', ''Write a title for {{keyword}} and its subtopics'']]"

definition examplePromptRows :: "string list list" where
  "examplePromptRows =
     [[''Field'', ''Prompt'', ''Example''],
      [''Title'', ''Write a title for {{keyword}}'', ''Fast KEYWORD Today''],
      [''Intro'', ''Introduce {{keyword}}''],
      [''Pic1'', ''Describe picture one''],
      [''Cost'', ''Explain the cost of {{keyword}}''],
      [''Why'', ''Why choose us''],
      [''FAQ'', ''Five questions''],
      [], [], [], [], [],
      [''Pictures'', ''Thirteen titles and summaries for {{keyword}}'', ''Title: summary''],
      [], [], [],
      [''Sub'', ''Write about the subtopics'']]"

text \<open>
  The notions of the prompt tab: the rows that \<^verbatim>\<open>getPromptsFromSheet\<close> goes
  through (none when the configuration is incomplete or the fetch fails), a row that has a
  title and a prompt, and a row that yields an entry for a field id through its title:
  a row other than row 13, with a title and a prompt, whose title maps to the id (row 17
  maps with the restriction to subtopics).
\<close>

definition promptTabRows ::
  "processEnv \<Rightarrow> (string \<Rightarrow> string \<Rightarrow> thrown + string list list option) \<Rightarrow>
   string option \<Rightarrow> string list list" where
  "promptTabRows env valuesGet accessToken =
     (if truthy (GOOGLE_CLIENT_ID env) \<and> truthy (GOOGLE_CLIENT_SECRET env)
         \<and> truthy (GOOGLE_SHEET_ID env) \<and> truthy accessToken
      then (case valuesGet (the (GOOGLE_SHEET_ID env)) ''Prompts!B:D'' of
              Inl e \<Rightarrow> []
            | Inr values \<Rightarrow> (case values of None \<Rightarrow> [] | Some rs \<Rightarrow> rs))
      else [])"

definition hasTitleAndPrompt :: "string list \<Rightarrow> bool" where
  "hasTitleAndPrompt row = (trim (cell row 0) \<noteq> [] \<and> trim (cell row 1) \<noteq> [])"

definition rowMapsTo :: "jsValue \<Rightarrow> nat \<times> string list \<Rightarrow> bool" where
  "rowMapsTo f ir =
     (case ir of (i, row) \<Rightarrow>
        i + 1 \<noteq> 13 \<and> hasTitleAndPrompt row
        \<and> mapFieldTitleToId (cell row 0) (i + 1 = 17) = Some f)"

definition row13Fills :: "string list list \<Rightarrow> bool" where
  "row13Fills rows = (12 < length rows \<and> hasTitleAndPrompt (rows ! 12))"

text \<open>
  The notions of the resolver: the configuration it needs, the rows of the prompt tab
  that are fetched, the rows that can match a mapped field name, and the row that decides
  the result, which is the first of them after the header row.
\<close>

definition resolverConfigured :: "processEnv \<Rightarrow> string option \<Rightarrow> bool" where
  "resolverConfigured env accessToken =
     (truthy (optTrim (GOOGLE_CLIENT_ID env)) \<and> truthy (optTrim (GOOGLE_CLIENT_SECRET env))
      \<and> truthy (optTrim (GOOGLE_SHEET_ID env)) \<and> truthy accessToken)"

definition fetchedPromptRows ::
  "processEnv \<Rightarrow> (string \<Rightarrow> string \<Rightarrow> thrown + string list list option) \<Rightarrow>
   string list list option" where
  "fetchedPromptRows env valuesGet =
     (case valuesGet (the (optTrim (GOOGLE_SHEET_ID env))) ''Prompts!B:D'' of
        Inl e \<Rightarrow> None
      | Inr values \<Rightarrow> Some (case values of None \<Rightarrow> [] | Some rs \<Rightarrow> rs))"

definition eligibleRow :: "string \<Rightarrow> string list \<Rightarrow> bool" where
  "eligibleRow mapped row =
     (2 \<le> length row \<and> trim (toLowerCase (cell row 0)) = toLowerCase mapped)"

definition decidingRow ::
  "processEnv \<Rightarrow> (string \<Rightarrow> string \<Rightarrow> thrown + string list list option) \<Rightarrow>
   string \<Rightarrow> string list option" where
  "decidingRow env valuesGet mapped =
     (case fetchedPromptRows env valuesGet of
        None \<Rightarrow> None
      | Some rows \<Rightarrow> find (eligibleRow mapped) (drop 1 rows))"

text \<open>Example contents of the prompt tab: a row with a prompt behind a row without one,
  and a row that has a key cell only.\<close>

definition exampleShadowedRows :: "string list list" where
  "exampleShadowedRows =
     [[''Field'', ''Prompt'', ''Example''],
      [''Cost'', '''', ''From $100''],
      [''cost'', ''Explain the cost of KEYWORD'']]"

definition exampleKeyOnlyRows :: "string list list" where
  "exampleKeyOnlyRows =
     [[''Field'', ''Prompt'', ''Example''],
      [''Title'', ''Write a title for {{keyword}}''],
      [''Cost'']]"

text \<open>A keyword that brings no placeholder material with it.\<close>

definition plainKeyword :: "string \<Rightarrow> bool" where
  "plainKeyword keyword =
     (CHR ''$'' \<notin> set keyword \<and> CHR ''{'' \<notin> set keyword \<and> CHR ''}'' \<notin> set keyword
      \<and> \<not> includesStr ''keyword'' (toLowerCase keyword)
      \<and> \<not> includesStr keyword ''KEYWORD'')"

section \<open>Evaluation lemmas\<close>

text \<open>The case conversions on each of the 256 code units.\<close>

lemma toLowerChar_table:
  "toLowerChar (CHR 0x00) = CHR 0x00" "toLowerChar (CHR 0x01) = CHR 0x01"
  "toLowerChar (CHR 0x02) = CHR 0x02" "toLowerChar (CHR 0x03) = CHR 0x03"
  "toLowerChar (CHR 0x04) = CHR 0x04" "toLowerChar (CHR 0x05) = CHR 0x05"
  "toLowerChar (CHR 0x06) = CHR 0x06" "toLowerChar (CHR 0x07) = CHR 0x07"
  "toLowerChar (CHR 0x08) = CHR 0x08" "toLowerChar (CHR 0x09) = CHR 0x09"
  "toLowerChar (CHR 0x0A) = CHR 0x0A" "toLowerChar (CHR 0x0B) = CHR 0x0B"
  "toLowerChar (CHR 0x0C) = CHR 0x0C" "toLowerChar (CHR 0x0D) = CHR 0x0D"
  "toLowerChar (CHR 0x0E) = CHR 0x0E" "toLowerChar (CHR 0x0F) = CHR 0x0F"
  "toLowerChar (CHR 0x10) = CHR 0x10" "toLowerChar (CHR 0x11) = CHR 0x11"
  "toLowerChar (CHR 0x12) = CHR 0x12" "toLowerChar (CHR 0x13) = CHR 0x13"
  "toLowerChar (CHR 0x14) = CHR 0x14" "toLowerChar (CHR 0x15) = CHR 0x15"
  "toLowerChar (CHR 0x16) = CHR 0x16" "toLowerChar (CHR 0x17) = CHR 0x17"
  "toLowerChar (CHR 0x18) = CHR 0x18" "toLowerChar (CHR 0x19) = CHR 0x19"
  "toLowerChar (CHR 0x1A) = CHR 0x1A" "toLowerChar (CHR 0x1B) = CHR 0x1B"
  "toLowerChar (CHR 0x1C) = CHR 0x1C" "toLowerChar (CHR 0x1D) = CHR 0x1D"
  "toLowerChar (CHR 0x1E) = CHR 0x1E" "toLowerChar (CHR 0x1F) = CHR 0x1F"
  "toLowerChar (CHR 0x20) = CHR 0x20" "toLowerChar (CHR 0x21) = CHR 0x21"
  "toLowerChar (CHR 0x22) = CHR 0x22" "toLowerChar (CHR 0x23) = CHR 0x23"
  "toLowerChar (CHR 0x24) = CHR 0x24" "toLowerChar (CHR 0x25) = CHR 0x25"
  "toLowerChar (CHR 0x26) = CHR 0x26" "toLowerChar (CHR 0x27) = CHR 0x27"
  "toLowerChar (CHR 0x28) = CHR 0x28" "toLowerChar (CHR 0x29) = CHR 0x29"
  "toLowerChar (CHR 0x2A) = CHR 0x2A" "toLowerChar (CHR 0x2B) = CHR 0x2B"
  "toLowerChar (CHR 0x2C) = CHR 0x2C" "toLowerChar (CHR 0x2D) = CHR 0x2D"
  "toLowerChar (CHR 0x2E) = CHR 0x2E" "toLowerChar (CHR 0x2F) = CHR 0x2F"
  "toLowerChar (CHR 0x30) = CHR 0x30" "toLowerChar (CHR 0x31) = CHR 0x31"
  "toLowerChar (CHR 0x32) = CHR 0x32" "toLowerChar (CHR 0x33) = CHR 0x33"
  "toLowerChar (CHR 0x34) = CHR 0x34" "toLowerChar (CHR 0x35) = CHR 0x35"
  "toLowerChar (CHR 0x36) = CHR 0x36" "toLowerChar (CHR 0x37) = CHR 0x37"
  "toLowerChar (CHR 0x38) = CHR 0x38" "toLowerChar (CHR 0x39) = CHR 0x39"
  "toLowerChar (CHR 0x3A) = CHR 0x3A" "toLowerChar (CHR 0x3B) = CHR 0x3B"
  "toLowerChar (CHR 0x3C) = CHR 0x3C" "toLowerChar (CHR 0x3D) = CHR 0x3D"
  "toLowerChar (CHR 0x3E) = CHR 0x3E" "toLowerChar (CHR 0x3F) = CHR 0x3F"
  "toLowerChar (CHR 0x40) = CHR 0x40" "toLowerChar (CHR 0x41) = CHR 0x61"
  "toLowerChar (CHR 0x42) = CHR 0x62" "toLowerChar (CHR 0x43) = CHR 0x63"
  "toLowerChar (CHR 0x44) = CHR 0x64" "toLowerChar (CHR 0x45) = CHR 0x65"
  "toLowerChar (CHR 0x46) = CHR 0x66" "toLowerChar (CHR 0x47) = CHR 0x67"
  "toLowerChar (CHR 0x48) = CHR 0x68" "toLowerChar (CHR 0x49) = CHR 0x69"
  "toLowerChar (CHR 0x4A) = CHR 0x6A" "toLowerChar (CHR 0x4B) = CHR 0x6B"
  "toLowerChar (CHR 0x4C) = CHR 0x6C" "toLowerChar (CHR 0x4D) = CHR 0x6D"
  "toLowerChar (CHR 0x4E) = CHR 0x6E" "toLowerChar (CHR 0x4F) = CHR 0x6F"
  "toLowerChar (CHR 0x50) = CHR 0x70" "toLowerChar (CHR 0x51) = CHR 0x71"
  "toLowerChar (CHR 0x52) = CHR 0x72" "toLowerChar (CHR 0x53) = CHR 0x73"
  "toLowerChar (CHR 0x54) = CHR 0x74" "toLowerChar (CHR 0x55) = CHR 0x75"
  "toLowerChar (CHR 0x56) = CHR 0x76" "toLowerChar (CHR 0x57) = CHR 0x77"
  "toLowerChar (CHR 0x58) = CHR 0x78" "toLowerChar (CHR 0x59) = CHR 0x79"
  "toLowerChar (CHR 0x5A) = CHR 0x7A" "toLowerChar (CHR 0x5B) = CHR 0x5B"
  "toLowerChar (CHR 0x5C) = CHR 0x5C" "toLowerChar (CHR 0x5D) = CHR 0x5D"
  "toLowerChar (CHR 0x5E) = CHR 0x5E" "toLowerChar (CHR 0x5F) = CHR 0x5F"
  "toLowerChar (CHR 0x60) = CHR 0x60" "toLowerChar (CHR 0x61) = CHR 0x61"
  "toLowerChar (CHR 0x62) = CHR 0x62" "toLowerChar (CHR 0x63) = CHR 0x63"
  "toLowerChar (CHR 0x64) = CHR 0x64" "toLowerChar (CHR 0x65) = CHR 0x65"
  "toLowerChar (CHR 0x66) = CHR 0x66" "toLowerChar (CHR 0x67) = CHR 0x67"
  "toLowerChar (CHR 0x68) = CHR 0x68" "toLowerChar (CHR 0x69) = CHR 0x69"
  "toLowerChar (CHR 0x6A) = CHR 0x6A" "toLowerChar (CHR 0x6B) = CHR 0x6B"
  "toLowerChar (CHR 0x6C) = CHR 0x6C" "toLowerChar (CHR 0x6D) = CHR 0x6D"
  "toLowerChar (CHR 0x6E) = CHR 0x6E" "toLowerChar (CHR 0x6F) = CHR 0x6F"
  "toLowerChar (CHR 0x70) = CHR 0x70" "toLowerChar (CHR 0x71) = CHR 0x71"
  "toLowerChar (CHR 0x72) = CHR 0x72" "toLowerChar (CHR 0x73) = CHR 0x73"
  "toLowerChar (CHR 0x74) = CHR 0x74" "toLowerChar (CHR 0x75) = CHR 0x75"
  "toLowerChar (CHR 0x76) = CHR 0x76" "toLowerChar (CHR 0x77) = CHR 0x77"
  "toLowerChar (CHR 0x78) = CHR 0x78" "toLowerChar (CHR 0x79) = CHR 0x79"
  "toLowerChar (CHR 0x7A) = CHR 0x7A" "toLowerChar (CHR 0x7B) = CHR 0x7B"
  "toLowerChar (CHR 0x7C) = CHR 0x7C" "toLowerChar (CHR 0x7D) = CHR 0x7D"
  "toLowerChar (CHR 0x7E) = CHR 0x7E" "toLowerChar (CHR 0x7F) = CHR 0x7F"
  "toLowerChar (CHR 0x80) = CHR 0x80" "toLowerChar (CHR 0x81) = CHR 0x81"
  "toLowerChar (CHR 0x82) = CHR 0x82" "toLowerChar (CHR 0x83) = CHR 0x83"
  "toLowerChar (CHR 0x84) = CHR 0x84" "toLowerChar (CHR 0x85) = CHR 0x85"
  "toLowerChar (CHR 0x86) = CHR 0x86" "toLowerChar (CHR 0x87) = CHR 0x87"
  "toLowerChar (CHR 0x88) = CHR 0x88" "toLowerChar (CHR 0x89) = CHR 0x89"
  "toLowerChar (CHR 0x8A) = CHR 0x8A" "toLowerChar (CHR 0x8B) = CHR 0x8B"
  "toLowerChar (CHR 0x8C) = CHR 0x8C" "toLowerChar (CHR 0x8D) = CHR 0x8D"
  "toLowerChar (CHR 0x8E) = CHR 0x8E" "toLowerChar (CHR 0x8F) = CHR 0x8F"
  "toLowerChar (CHR 0x90) = CHR 0x90" "toLowerChar (CHR 0x91) = CHR 0x91"
  "toLowerChar (CHR 0x92) = CHR 0x92" "toLowerChar (CHR 0x93) = CHR 0x93"
  "toLowerChar (CHR 0x94) = CHR 0x94" "toLowerChar (CHR 0x95) = CHR 0x95"
  "toLowerChar (CHR 0x96) = CHR 0x96" "toLowerChar (CHR 0x97) = CHR 0x97"
  "toLowerChar (CHR 0x98) = CHR 0x98" "toLowerChar (CHR 0x99) = CHR 0x99"
  "toLowerChar (CHR 0x9A) = CHR 0x9A" "toLowerChar (CHR 0x9B) = CHR 0x9B"
  "toLowerChar (CHR 0x9C) = CHR 0x9C" "toLowerChar (CHR 0x9D) = CHR 0x9D"
  "toLowerChar (CHR 0x9E) = CHR 0x9E" "toLowerChar (CHR 0x9F) = CHR 0x9F"
  "toLowerChar (CHR 0xA0) = CHR 0xA0" "toLowerChar (CHR 0xA1) = CHR 0xA1"
  "toLowerChar (CHR 0xA2) = CHR 0xA2" "toLowerChar (CHR 0xA3) = CHR 0xA3"
  "toLowerChar (CHR 0xA4) = CHR 0xA4" "toLowerChar (CHR 0xA5) = CHR 0xA5"
  "toLowerChar (CHR 0xA6) = CHR 0xA6" "toLowerChar (CHR 0xA7) = CHR 0xA7"
  "toLowerChar (CHR 0xA8) = CHR 0xA8" "toLowerChar (CHR 0xA9) = CHR 0xA9"
  "toLowerChar (CHR 0xAA) = CHR 0xAA" "toLowerChar (CHR 0xAB) = CHR 0xAB"
  "toLowerChar (CHR 0xAC) = CHR 0xAC" "toLowerChar (CHR 0xAD) = CHR 0xAD"
  "toLowerChar (CHR 0xAE) = CHR 0xAE" "toLowerChar (CHR 0xAF) = CHR 0xAF"
  "toLowerChar (CHR 0xB0) = CHR 0xB0" "toLowerChar (CHR 0xB1) = CHR 0xB1"
  "toLowerChar (CHR 0xB2) = CHR 0xB2" "toLowerChar (CHR 0xB3) = CHR 0xB3"
  "toLowerChar (CHR 0xB4) = CHR 0xB4" "toLowerChar (CHR 0xB5) = CHR 0xB5"
  "toLowerChar (CHR 0xB6) = CHR 0xB6" "toLowerChar (CHR 0xB7) = CHR 0xB7"
  "toLowerChar (CHR 0xB8) = CHR 0xB8" "toLowerChar (CHR 0xB9) = CHR 0xB9"
  "toLowerChar (CHR 0xBA) = CHR 0xBA" "toLowerChar (CHR 0xBB) = CHR 0xBB"
  "toLowerChar (CHR 0xBC) = CHR 0xBC" "toLowerChar (CHR 0xBD) = CHR 0xBD"
  "toLowerChar (CHR 0xBE) = CHR 0xBE" "toLowerChar (CHR 0xBF) = CHR 0xBF"
  "toLowerChar (CHR 0xC0) = CHR 0xE0" "toLowerChar (CHR 0xC1) = CHR 0xE1"
  "toLowerChar (CHR 0xC2) = CHR 0xE2" "toLowerChar (CHR 0xC3) = CHR 0xE3"
  "toLowerChar (CHR 0xC4) = CHR 0xE4" "toLowerChar (CHR 0xC5) = CHR 0xE5"
  "toLowerChar (CHR 0xC6) = CHR 0xE6" "toLowerChar (CHR 0xC7) = CHR 0xE7"
  "toLowerChar (CHR 0xC8) = CHR 0xE8" "toLowerChar (CHR 0xC9) = CHR 0xE9"
  "toLowerChar (CHR 0xCA) = CHR 0xEA" "toLowerChar (CHR 0xCB) = CHR 0xEB"
  "toLowerChar (CHR 0xCC) = CHR 0xEC" "toLowerChar (CHR 0xCD) = CHR 0xED"
  "toLowerChar (CHR 0xCE) = CHR 0xEE" "toLowerChar (CHR 0xCF) = CHR 0xEF"
  "toLowerChar (CHR 0xD0) = CHR 0xF0" "toLowerChar (CHR 0xD1) = CHR 0xF1"
  "toLowerChar (CHR 0xD2) = CHR 0xF2" "toLowerChar (CHR 0xD3) = CHR 0xF3"
  "toLowerChar (CHR 0xD4) = CHR 0xF4" "toLowerChar (CHR 0xD5) = CHR 0xF5"
  "toLowerChar (CHR 0xD6) = CHR 0xF6" "toLowerChar (CHR 0xD7) = CHR 0xD7"
  "toLowerChar (CHR 0xD8) = CHR 0xF8" "toLowerChar (CHR 0xD9) = CHR 0xF9"
  "toLowerChar (CHR 0xDA) = CHR 0xFA" "toLowerChar (CHR 0xDB) = CHR 0xFB"
  "toLowerChar (CHR 0xDC) = CHR 0xFC" "toLowerChar (CHR 0xDD) = CHR 0xFD"
  "toLowerChar (CHR 0xDE) = CHR 0xFE" "toLowerChar (CHR 0xDF) = CHR 0xDF"
  "toLowerChar (CHR 0xE0) = CHR 0xE0" "toLowerChar (CHR 0xE1) = CHR 0xE1"
  "toLowerChar (CHR 0xE2) = CHR 0xE2" "toLowerChar (CHR 0xE3) = CHR 0xE3"
  "toLowerChar (CHR 0xE4) = CHR 0xE4" "toLowerChar (CHR 0xE5) = CHR 0xE5"
  "toLowerChar (CHR 0xE6) = CHR 0xE6" "toLowerChar (CHR 0xE7) = CHR 0xE7"
  "toLowerChar (CHR 0xE8) = CHR 0xE8" "toLowerChar (CHR 0xE9) = CHR 0xE9"
  "toLowerChar (CHR 0xEA) = CHR 0xEA" "toLowerChar (CHR 0xEB) = CHR 0xEB"
  "toLowerChar (CHR 0xEC) = CHR 0xEC" "toLowerChar (CHR 0xED) = CHR 0xED"
  "toLowerChar (CHR 0xEE) = CHR 0xEE" "toLowerChar (CHR 0xEF) = CHR 0xEF"
  "toLowerChar (CHR 0xF0) = CHR 0xF0" "toLowerChar (CHR 0xF1) = CHR 0xF1"
  "toLowerChar (CHR 0xF2) = CHR 0xF2" "toLowerChar (CHR 0xF3) = CHR 0xF3"
  "toLowerChar (CHR 0xF4) = CHR 0xF4" "toLowerChar (CHR 0xF5) = CHR 0xF5"
  "toLowerChar (CHR 0xF6) = CHR 0xF6" "toLowerChar (CHR 0xF7) = CHR 0xF7"
  "toLowerChar (CHR 0xF8) = CHR 0xF8" "toLowerChar (CHR 0xF9) = CHR 0xF9"
  "toLowerChar (CHR 0xFA) = CHR 0xFA" "toLowerChar (CHR 0xFB) = CHR 0xFB"
  "toLowerChar (CHR 0xFC) = CHR 0xFC" "toLowerChar (CHR 0xFD) = CHR 0xFD"
  "toLowerChar (CHR 0xFE) = CHR 0xFE" "toLowerChar (CHR 0xFF) = CHR 0xFF"
  by (simp_all add: toLowerChar_def upperLetters_def lowerLetters_def upperLatin1_def
        lowerLatin1_def)

lemma toUpperChar_table:
  "toUpperChar (CHR 0x00) = Some [CHR 0x00]"
  "toUpperChar (CHR 0x01) = Some [CHR 0x01]"
  "toUpperChar (CHR 0x02) = Some [CHR 0x02]"
  "toUpperChar (CHR 0x03) = Some [CHR 0x03]"
  "toUpperChar (CHR 0x04) = Some [CHR 0x04]"
  "toUpperChar (CHR 0x05) = Some [CHR 0x05]"
  "toUpperChar (CHR 0x06) = Some [CHR 0x06]"
  "toUpperChar (CHR 0x07) = Some [CHR 0x07]"
  "toUpperChar (CHR 0x08) = Some [CHR 0x08]"
  "toUpperChar (CHR 0x09) = Some [CHR 0x09]"
  "toUpperChar (CHR 0x0A) = Some [CHR 0x0A]"
  "toUpperChar (CHR 0x0B) = Some [CHR 0x0B]"
  "toUpperChar (CHR 0x0C) = Some [CHR 0x0C]"
  "toUpperChar (CHR 0x0D) = Some [CHR 0x0D]"
  "toUpperChar (CHR 0x0E) = Some [CHR 0x0E]"
  "toUpperChar (CHR 0x0F) = Some [CHR 0x0F]"
  "toUpperChar (CHR 0x10) = Some [CHR 0x10]"
  "toUpperChar (CHR 0x11) = Some [CHR 0x11]"
  "toUpperChar (CHR 0x12) = Some [CHR 0x12]"
  "toUpperChar (CHR 0x13) = Some [CHR 0x13]"
  "toUpperChar (CHR 0x14) = Some [CHR 0x14]"
  "toUpperChar (CHR 0x15) = Some [CHR 0x15]"
  "toUpperChar (CHR 0x16) = Some [CHR 0x16]"
  "toUpperChar (CHR 0x17) = Some [CHR 0x17]"
  "toUpperChar (CHR 0x18) = Some [CHR 0x18]"
  "toUpperChar (CHR 0x19) = Some [CHR 0x19]"
  "toUpperChar (CHR 0x1A) = Some [CHR 0x1A]"
  "toUpperChar (CHR 0x1B) = Some [CHR 0x1B]"
  "toUpperChar (CHR 0x1C) = Some [CHR 0x1C]"
  "toUpperChar (CHR 0x1D) = Some [CHR 0x1D]"
  "toUpperChar (CHR 0x1E) = Some [CHR 0x1E]"
  "toUpperChar (CHR 0x1F) = Some [CHR 0x1F]"
  "toUpperChar (CHR 0x20) = Some [CHR 0x20]"
  "toUpperChar (CHR 0x21) = Some [CHR 0x21]"
  "toUpperChar (CHR 0x22) = Some [CHR 0x22]"
  "toUpperChar (CHR 0x23) = Some [CHR 0x23]"
  "toUpperChar (CHR 0x24) = Some [CHR 0x24]"
  "toUpperChar (CHR 0x25) = Some [CHR 0x25]"
  "toUpperChar (CHR 0x26) = Some [CHR 0x26]"
  "toUpperChar (CHR 0x27) = Some [CHR 0x27]"
  "toUpperChar (CHR 0x28) = Some [CHR 0x28]"
  "toUpperChar (CHR 0x29) = Some [CHR 0x29]"
  "toUpperChar (CHR 0x2A) = Some [CHR 0x2A]"
  "toUpperChar (CHR 0x2B) = Some [CHR 0x2B]"
  "toUpperChar (CHR 0x2C) = Some [CHR 0x2C]"
  "toUpperChar (CHR 0x2D) = Some [CHR 0x2D]"
  "toUpperChar (CHR 0x2E) = Some [CHR 0x2E]"
  "toUpperChar (CHR 0x2F) = Some [CHR 0x2F]"
  "toUpperChar (CHR 0x30) = Some [CHR 0x30]"
  "toUpperChar (CHR 0x31) = Some [CHR 0x31]"
  "toUpperChar (CHR 0x32) = Some [CHR 0x32]"
  "toUpperChar (CHR 0x33) = Some [CHR 0x33]"
  "toUpperChar (CHR 0x34) = Some [CHR 0x34]"
  "toUpperChar (CHR 0x35) = Some [CHR 0x35]"
  "toUpperChar (CHR 0x36) = Some [CHR 0x36]"
  "toUpperChar (CHR 0x37) = Some [CHR 0x37]"
  "toUpperChar (CHR 0x38) = Some [CHR 0x38]"
  "toUpperChar (CHR 0x39) = Some [CHR 0x39]"
  "toUpperChar (CHR 0x3A) = Some [CHR 0x3A]"
  "toUpperChar (CHR 0x3B) = Some [CHR 0x3B]"
  "toUpperChar (CHR 0x3C) = Some [CHR 0x3C]"
  "toUpperChar (CHR 0x3D) = Some [CHR 0x3D]"
  "toUpperChar (CHR 0x3E) = Some [CHR 0x3E]"
  "toUpperChar (CHR 0x3F) = Some [CHR 0x3F]"
  "toUpperChar (CHR 0x40) = Some [CHR 0x40]"
  "toUpperChar (CHR 0x41) = Some [CHR 0x41]"
  "toUpperChar (CHR 0x42) = Some [CHR 0x42]"
  "toUpperChar (CHR 0x43) = Some [CHR 0x43]"
  "toUpperChar (CHR 0x44) = Some [CHR 0x44]"
  "toUpperChar (CHR 0x45) = Some [CHR 0x45]"
  "toUpperChar (CHR 0x46) = Some [CHR 0x46]"
  "toUpperChar (CHR 0x47) = Some [CHR 0x47]"
  "toUpperChar (CHR 0x48) = Some [CHR 0x48]"
  "toUpperChar (CHR 0x49) = Some [CHR 0x49]"
  "toUpperChar (CHR 0x4A) = Some [CHR 0x4A]"
  "toUpperChar (CHR 0x4B) = Some [CHR 0x4B]"
  "toUpperChar (CHR 0x4C) = Some [CHR 0x4C]"
  "toUpperChar (CHR 0x4D) = Some [CHR 0x4D]"
  "toUpperChar (CHR 0x4E) = Some [CHR 0x4E]"
  "toUpperChar (CHR 0x4F) = Some [CHR 0x4F]"
  "toUpperChar (CHR 0x50) = Some [CHR 0x50]"
  "toUpperChar (CHR 0x51) = Some [CHR 0x51]"
  "toUpperChar (CHR 0x52) = Some [CHR 0x52]"
  "toUpperChar (CHR 0x53) = Some [CHR 0x53]"
  "toUpperChar (CHR 0x54) = Some [CHR 0x54]"
  "toUpperChar (CHR 0x55) = Some [CHR 0x55]"
  "toUpperChar (CHR 0x56) = Some [CHR 0x56]"
  "toUpperChar (CHR 0x57) = Some [CHR 0x57]"
  "toUpperChar (CHR 0x58) = Some [CHR 0x58]"
  "toUpperChar (CHR 0x59) = Some [CHR 0x59]"
  "toUpperChar (CHR 0x5A) = Some [CHR 0x5A]"
  "toUpperChar (CHR 0x5B) = Some [CHR 0x5B]"
  "toUpperChar (CHR 0x5C) = Some [CHR 0x5C]"
  "toUpperChar (CHR 0x5D) = Some [CHR 0x5D]"
  "toUpperChar (CHR 0x5E) = Some [CHR 0x5E]"
  "toUpperChar (CHR 0x5F) = Some [CHR 0x5F]"
  "toUpperChar (CHR 0x60) = Some [CHR 0x60]"
  "toUpperChar (CHR 0x61) = Some [CHR 0x41]"
  "toUpperChar (CHR 0x62) = Some [CHR 0x42]"
  "toUpperChar (CHR 0x63) = Some [CHR 0x43]"
  "toUpperChar (CHR 0x64) = Some [CHR 0x44]"
  "toUpperChar (CHR 0x65) = Some [CHR 0x45]"
  "toUpperChar (CHR 0x66) = Some [CHR 0x46]"
  "toUpperChar (CHR 0x67) = Some [CHR 0x47]"
  "toUpperChar (CHR 0x68) = Some [CHR 0x48]"
  "toUpperChar (CHR 0x69) = Some [CHR 0x49]"
  "toUpperChar (CHR 0x6A) = Some [CHR 0x4A]"
  "toUpperChar (CHR 0x6B) = Some [CHR 0x4B]"
  "toUpperChar (CHR 0x6C) = Some [CHR 0x4C]"
  "toUpperChar (CHR 0x6D) = Some [CHR 0x4D]"
  "toUpperChar (CHR 0x6E) = Some [CHR 0x4E]"
  "toUpperChar (CHR 0x6F) = Some [CHR 0x4F]"
  "toUpperChar (CHR 0x70) = Some [CHR 0x50]"
  "toUpperChar (CHR 0x71) = Some [CHR 0x51]"
  "toUpperChar (CHR 0x72) = Some [CHR 0x52]"
  "toUpperChar (CHR 0x73) = Some [CHR 0x53]"
  "toUpperChar (CHR 0x74) = Some [CHR 0x54]"
  "toUpperChar (CHR 0x75) = Some [CHR 0x55]"
  "toUpperChar (CHR 0x76) = Some [CHR 0x56]"
  "toUpperChar (CHR 0x77) = Some [CHR 0x57]"
  "toUpperChar (CHR 0x78) = Some [CHR 0x58]"
  "toUpperChar (CHR 0x79) = Some [CHR 0x59]"
  "toUpperChar (CHR 0x7A) = Some [CHR 0x5A]"
  "toUpperChar (CHR 0x7B) = Some [CHR 0x7B]"
  "toUpperChar (CHR 0x7C) = Some [CHR 0x7C]"
  "toUpperChar (CHR 0x7D) = Some [CHR 0x7D]"
  "toUpperChar (CHR 0x7E) = Some [CHR 0x7E]"
  "toUpperChar (CHR 0x7F) = Some [CHR 0x7F]"
  "toUpperChar (CHR 0x80) = Some [CHR 0x80]"
  "toUpperChar (CHR 0x81) = Some [CHR 0x81]"
  "toUpperChar (CHR 0x82) = Some [CHR 0x82]"
  "toUpperChar (CHR 0x83) = Some [CHR 0x83]"
  "toUpperChar (CHR 0x84) = Some [CHR 0x84]"
  "toUpperChar (CHR 0x85) = Some [CHR 0x85]"
  "toUpperChar (CHR 0x86) = Some [CHR 0x86]"
  "toUpperChar (CHR 0x87) = Some [CHR 0x87]"
  "toUpperChar (CHR 0x88) = Some [CHR 0x88]"
  "toUpperChar (CHR 0x89) = Some [CHR 0x89]"
  "toUpperChar (CHR 0x8A) = Some [CHR 0x8A]"
  "toUpperChar (CHR 0x8B) = Some [CHR 0x8B]"
  "toUpperChar (CHR 0x8C) = Some [CHR 0x8C]"
  "toUpperChar (CHR 0x8D) = Some [CHR 0x8D]"
  "toUpperChar (CHR 0x8E) = Some [CHR 0x8E]"
  "toUpperChar (CHR 0x8F) = Some [CHR 0x8F]"
  "toUpperChar (CHR 0x90) = Some [CHR 0x90]"
  "toUpperChar (CHR 0x91) = Some [CHR 0x91]"
  "toUpperChar (CHR 0x92) = Some [CHR 0x92]"
  "toUpperChar (CHR 0x93) = Some [CHR 0x93]"
  "toUpperChar (CHR 0x94) = Some [CHR 0x94]"
  "toUpperChar (CHR 0x95) = Some [CHR 0x95]"
  "toUpperChar (CHR 0x96) = Some [CHR 0x96]"
  "toUpperChar (CHR 0x97) = Some [CHR 0x97]"
  "toUpperChar (CHR 0x98) = Some [CHR 0x98]"
  "toUpperChar (CHR 0x99) = Some [CHR 0x99]"
  "toUpperChar (CHR 0x9A) = Some [CHR 0x9A]"
  "toUpperChar (CHR 0x9B) = Some [CHR 0x9B]"
  "toUpperChar (CHR 0x9C) = Some [CHR 0x9C]"
  "toUpperChar (CHR 0x9D) = Some [CHR 0x9D]"
  "toUpperChar (CHR 0x9E) = Some [CHR 0x9E]"
  "toUpperChar (CHR 0x9F) = Some [CHR 0x9F]"
  "toUpperChar (CHR 0xA0) = Some [CHR 0xA0]"
  "toUpperChar (CHR 0xA1) = Some [CHR 0xA1]"
  "toUpperChar (CHR 0xA2) = Some [CHR 0xA2]"
  "toUpperChar (CHR 0xA3) = Some [CHR 0xA3]"
  "toUpperChar (CHR 0xA4) = Some [CHR 0xA4]"
  "toUpperChar (CHR 0xA5) = Some [CHR 0xA5]"
  "toUpperChar (CHR 0xA6) = Some [CHR 0xA6]"
  "toUpperChar (CHR 0xA7) = Some [CHR 0xA7]"
  "toUpperChar (CHR 0xA8) = Some [CHR 0xA8]"
  "toUpperChar (CHR 0xA9) = Some [CHR 0xA9]"
  "toUpperChar (CHR 0xAA) = Some [CHR 0xAA]"
  "toUpperChar (CHR 0xAB) = Some [CHR 0xAB]"
  "toUpperChar (CHR 0xAC) = Some [CHR 0xAC]"
  "toUpperChar (CHR 0xAD) = Some [CHR 0xAD]"
  "toUpperChar (CHR 0xAE) = Some [CHR 0xAE]"
  "toUpperChar (CHR 0xAF) = Some [CHR 0xAF]"
  "toUpperChar (CHR 0xB0) = Some [CHR 0xB0]"
  "toUpperChar (CHR 0xB1) = Some [CHR 0xB1]"
  "toUpperChar (CHR 0xB2) = Some [CHR 0xB2]"
  "toUpperChar (CHR 0xB3) = Some [CHR 0xB3]"
  "toUpperChar (CHR 0xB4) = Some [CHR 0xB4]"
  "toUpperChar (CHR 0xB5) = None"
  "toUpperChar (CHR 0xB6) = Some [CHR 0xB6]"
  "toUpperChar (CHR 0xB7) = Some [CHR 0xB7]"
  "toUpperChar (CHR 0xB8) = Some [CHR 0xB8]"
  "toUpperChar (CHR 0xB9) = Some [CHR 0xB9]"
  "toUpperChar (CHR 0xBA) = Some [CHR 0xBA]"
  "toUpperChar (CHR 0xBB) = Some [CHR 0xBB]"
  "toUpperChar (CHR 0xBC) = Some [CHR 0xBC]"
  "toUpperChar (CHR 0xBD) = Some [CHR 0xBD]"
  "toUpperChar (CHR 0xBE) = Some [CHR 0xBE]"
  "toUpperChar (CHR 0xBF) = Some [CHR 0xBF]"
  "toUpperChar (CHR 0xC0) = Some [CHR 0xC0]"
  "toUpperChar (CHR 0xC1) = Some [CHR 0xC1]"
  "toUpperChar (CHR 0xC2) = Some [CHR 0xC2]"
  "toUpperChar (CHR 0xC3) = Some [CHR 0xC3]"
  "toUpperChar (CHR 0xC4) = Some [CHR 0xC4]"
  "toUpperChar (CHR 0xC5) = Some [CHR 0xC5]"
  "toUpperChar (CHR 0xC6) = Some [CHR 0xC6]"
  "toUpperChar (CHR 0xC7) = Some [CHR 0xC7]"
  "toUpperChar (CHR 0xC8) = Some [CHR 0xC8]"
  "toUpperChar (CHR 0xC9) = Some [CHR 0xC9]"
  "toUpperChar (CHR 0xCA) = Some [CHR 0xCA]"
  "toUpperChar (CHR 0xCB) = Some [CHR 0xCB]"
  "toUpperChar (CHR 0xCC) = Some [CHR 0xCC]"
  "toUpperChar (CHR 0xCD) = Some [CHR 0xCD]"
  "toUpperChar (CHR 0xCE) = Some [CHR 0xCE]"
  "toUpperChar (CHR 0xCF) = Some [CHR 0xCF]"
  "toUpperChar (CHR 0xD0) = Some [CHR 0xD0]"
  "toUpperChar (CHR 0xD1) = Some [CHR 0xD1]"
  "toUpperChar (CHR 0xD2) = Some [CHR 0xD2]"
  "toUpperChar (CHR 0xD3) = Some [CHR 0xD3]"
  "toUpperChar (CHR 0xD4) = Some [CHR 0xD4]"
  "toUpperChar (CHR 0xD5) = Some [CHR 0xD5]"
  "toUpperChar (CHR 0xD6) = Some [CHR 0xD6]"
  "toUpperChar (CHR 0xD7) = Some [CHR 0xD7]"
  "toUpperChar (CHR 0xD8) = Some [CHR 0xD8]"
  "toUpperChar (CHR 0xD9) = Some [CHR 0xD9]"
  "toUpperChar (CHR 0xDA) = Some [CHR 0xDA]"
  "toUpperChar (CHR 0xDB) = Some [CHR 0xDB]"
  "toUpperChar (CHR 0xDC) = Some [CHR 0xDC]"
  "toUpperChar (CHR 0xDD) = Some [CHR 0xDD]"
  "toUpperChar (CHR 0xDE) = Some [CHR 0xDE]"
  "toUpperChar (CHR 0xDF) = Some [CHR 0x53, CHR 0x53]"
  "toUpperChar (CHR 0xE0) = Some [CHR 0xC0]"
  "toUpperChar (CHR 0xE1) = Some [CHR 0xC1]"
  "toUpperChar (CHR 0xE2) = Some [CHR 0xC2]"
  "toUpperChar (CHR 0xE3) = Some [CHR 0xC3]"
  "toUpperChar (CHR 0xE4) = Some [CHR 0xC4]"
  "toUpperChar (CHR 0xE5) = Some [CHR 0xC5]"
  "toUpperChar (CHR 0xE6) = Some [CHR 0xC6]"
  "toUpperChar (CHR 0xE7) = Some [CHR 0xC7]"
  "toUpperChar (CHR 0xE8) = Some [CHR 0xC8]"
  "toUpperChar (CHR 0xE9) = Some [CHR 0xC9]"
  "toUpperChar (CHR 0xEA) = Some [CHR 0xCA]"
  "toUpperChar (CHR 0xEB) = Some [CHR 0xCB]"
  "toUpperChar (CHR 0xEC) = Some [CHR 0xCC]"
  "toUpperChar (CHR 0xED) = Some [CHR 0xCD]"
  "toUpperChar (CHR 0xEE) = Some [CHR 0xCE]"
  "toUpperChar (CHR 0xEF) = Some [CHR 0xCF]"
  "toUpperChar (CHR 0xF0) = Some [CHR 0xD0]"
  "toUpperChar (CHR 0xF1) = Some [CHR 0xD1]"
  "toUpperChar (CHR 0xF2) = Some [CHR 0xD2]"
  "toUpperChar (CHR 0xF3) = Some [CHR 0xD3]"
  "toUpperChar (CHR 0xF4) = Some [CHR 0xD4]"
  "toUpperChar (CHR 0xF5) = Some [CHR 0xD5]"
  "toUpperChar (CHR 0xF6) = Some [CHR 0xD6]"
  "toUpperChar (CHR 0xF7) = Some [CHR 0xF7]"
  "toUpperChar (CHR 0xF8) = Some [CHR 0xD8]"
  "toUpperChar (CHR 0xF9) = Some [CHR 0xD9]"
  "toUpperChar (CHR 0xFA) = Some [CHR 0xDA]"
  "toUpperChar (CHR 0xFB) = Some [CHR 0xDB]"
  "toUpperChar (CHR 0xFC) = Some [CHR 0xDC]"
  "toUpperChar (CHR 0xFD) = Some [CHR 0xDD]"
  "toUpperChar (CHR 0xFE) = Some [CHR 0xDE]"
  "toUpperChar (CHR 0xFF) = None"
  by (simp_all add: toUpperChar_def upperLetters_def lowerLetters_def upperLatin1_def
        lowerLatin1_def)

lemmas string_defs =
  upperLetters_def lowerLetters_def toLowerChar_table toUpperChar_table toLowerCase_def
  toUpperCase_def isWhiteSpace_def trimStart_def trim_def startsWith_def indexOf_def
  charAt0_def slice1_def

lemmas title_defs =
  smallWords_def capitalizeWord_def capitalizeFirst_def titleWord_field_def
  titleCase_field_def titleWord_pictures_def titleCase_pictures_def

section \<open>Flattening and classification\<close>

lemma isWhiteSpace_toLowerChar: "isWhiteSpace (toLowerChar c) = isWhiteSpace c"
  by (simp add: isWhiteSpace_def toLowerChar_def upperLetters_def lowerLetters_def
        upperLatin1_def lowerLatin1_def)

lemma dropWhile_ws_lower:
  "dropWhile isWhiteSpace (map toLowerChar s) = map toLowerChar (dropWhile isWhiteSpace s)"
  by (induction s) (simp_all add: isWhiteSpace_toLowerChar)

lemma trim_toLowerCase: "trim (toLowerCase s) = toLowerCase (trim s)"
  by (simp add: trim_def trimStart_def toLowerCase_def dropWhile_ws_lower rev_map)

lemma stripEnd_prefix: "xs = rev (dropWhile P (rev xs)) @ rev (takeWhile P (rev xs))"
  by (metis rev_append rev_rev_ident takeWhile_dropWhile_id)

lemma hd_stripEnd:
  assumes "rev (dropWhile P (rev xs)) \<noteq> []"
  shows "hd (rev (dropWhile P (rev xs))) = hd xs"
  by (metis assms hd_append2 stripEnd_prefix)

lemma dropWhile_stripEnd:
  assumes "xs = [] \<or> \<not> P (hd xs)"
  shows "dropWhile P (rev (dropWhile P (rev xs))) = rev (dropWhile P (rev xs))"
  by (metis assms dropWhile_eq_self_iff hd_stripEnd rev.simps(1))

lemma trim_idem: "trim (trim s) = trim s"
proof -
  let ?t = "dropWhile isWhiteSpace s"
  have "?t = [] \<or> \<not> isWhiteSpace (hd ?t)"
    by (metis hd_dropWhile)
  then have "dropWhile isWhiteSpace (rev (dropWhile isWhiteSpace (rev ?t)))
             = rev (dropWhile isWhiteSpace (rev ?t))"
    by (rule dropWhile_stripEnd)
  then show ?thesis
    by (simp add: trim_def trimStart_def dropWhile_idem)
qed

lemma paragraphElements_wf:
  "e \<in> set (paragraphElements p) \<Longrightarrow> elText e \<noteq> [] \<and> trim (elText e) = elText e"
  by (auto simp: paragraphElements_def Let_def trim_idem split: if_splits)

lemma extractContentFromElement_wf:
  "e \<in> set (extractContentFromElement x) \<Longrightarrow> elText e \<noteq> [] \<and> trim (elText e) = elText e"
proof (induction x arbitrary: e)
  case (StructuralElement p t)
  then show ?case
    by (auto split: option.splits dest: paragraphElements_wf)
qed

lemma extractTextElements_wf:
  "e \<in> set (extractTextElements content) \<Longrightarrow> elText e \<noteq> [] \<and> trim (elText e) = elText e"
  by (auto simp: extractTextElements_def dest: extractContentFromElement_wf)

lemma containsKeyword_wf:
  "trim (elText e) = elText e \<Longrightarrow>
   containsKeyword (trim (toLowerCase keyword)) e = textContainsKeyword keyword e"
  by (simp add: containsKeyword_def textContainsKeyword_def trim_toLowerCase)

lemma findFrom_split:
  "(\<forall>e\<in>set pre. \<not> P e) \<Longrightarrow> P m \<Longrightarrow> findFrom i P (pre @ m # rest) = Some (i + length pre, m)"
  by (induction pre arbitrary: i) simp_all


lemma findFrom_Some:
  "findFrom i P xs = Some (j, x) \<Longrightarrow>
     \<exists>pre rest. xs = pre @ x # rest \<and> j = i + length pre \<and> P x \<and> (\<forall>e\<in>set pre. \<not> P e)"
proof (induction xs arbitrary: i)
  case Nil
  then show ?case by simp
next
  case (Cons a xs)
  show ?case
  proof (cases "P a")
    case True
    with Cons.prems have "j = i" "x = a" by simp_all
    with True show ?thesis by (intro exI[of _ "[]"] exI[of _ xs]) simp
  next
    case False
    with Cons.prems have "findFrom (Suc i) P xs = Some (j, x)" by simp
    from Cons.IH[OF this] obtain pre rest where
      "xs = pre @ x # rest" "j = Suc i + length pre" "P x" "\<forall>e\<in>set pre. \<not> P e" by blast
    with False show ?thesis by (intro exI[of _ "a # pre"] exI[of _ rest]) simp
  qed
qed

lemma collectSubtopics_filter:
  "(\<forall>e\<in>set rest. trim (elText e) \<noteq> []) \<Longrightarrow>
   collectSubtopics kwl rest =
     filter (\<lambda>t. toLowerCase t \<noteq> kwl)
       (map (\<lambda>e. trim (elText e)) (takeWhile (\<lambda>e. \<not> isHeading e) rest))"
  by (induction rest) (simp_all add: Let_def)

lemma classifyElements_heading:
  assumes wf: "\<forall>e\<in>set (pre @ m # rest). elText e \<noteq> [] \<and> trim (elText e) = elText e"
    and nomatch: "\<forall>e\<in>set pre. \<not> textContainsKeyword keyword e"
    and match: "textContainsKeyword keyword m"
    and heading: "isHeading m"
  shows "category (classifyElements keyword (pre @ m # rest)) = Some WithSubtopics"
    and "subtopics (classifyElements keyword (pre @ m # rest)) =
           (if subtopicsBetween keyword rest = [] then None
            else Some (subtopicsBetween keyword rest))"
proof -
  let ?kwl = "trim (toLowerCase keyword)"
  have pre: "\<forall>e\<in>set pre. \<not> containsKeyword ?kwl e"
    using wf nomatch by (simp add: containsKeyword_wf)
  have m: "containsKeyword ?kwl m"
    using wf match by (simp add: containsKeyword_wf)
  have found: "findFrom 0 (containsKeyword ?kwl) (pre @ m # rest) = Some (length pre, m)"
    using findFrom_split[OF pre m, of 0 rest] by simp
  have rest: "\<forall>e\<in>set rest. trim (elText e) \<noteq> []"
    using wf by auto
  have subs: "collectSubtopics ?kwl rest = subtopicsBetween keyword rest"
    using collectSubtopics_filter[OF rest, of ?kwl]
    by (simp add: subtopicsBetween_def trim_toLowerCase)
  show "category (classifyElements keyword (pre @ m # rest)) = Some WithSubtopics"
    using found heading by (simp add: classifyElements_def Let_def)
  show "subtopics (classifyElements keyword (pre @ m # rest)) =
           (if subtopicsBetween keyword rest = [] then None
            else Some (subtopicsBetween keyword rest))"
    using found heading subs by (simp add: classifyElements_def Let_def)
qed

lemmas classifier_eval =
  exampleContent_def exampleParagraph_def extractTextElements_def paragraphElements_def
  textContainsKeyword_def subtopicsBetween_def

text \<open>The elements of the example document, split at the heading that matches.\<close>

lemma exampleContent_elements:
  "extractTextElements exampleContent =
     [\<lparr>elText = ''Our services'', isHeading = False, level = 0\<rparr>]
     @ \<lparr>elText = ''Mattress Removal'', isHeading = True, level = 2\<rparr>
     # [\<lparr>elText = ''Same-day pickup'', isHeading = False, level = 0\<rparr>,
        \<lparr>elText = ''Recycling'', isHeading = False, level = 0\<rparr>,
        \<lparr>elText = ''mattress removal'', isHeading = False, level = 0\<rparr>,
        \<lparr>elText = ''Pricing'', isHeading = False, level = 0\<rparr>,
        \<lparr>elText = ''Other'', isHeading = True, level = 2\<rparr>,
        \<lparr>elText = ''Contact'', isHeading = False, level = 0\<rparr>]"
  by (simp add: classifier_eval string_defs)

text \<open>
  Claim C1, as amended. For every document content and every keyword: if the first
  flattened element whose lower-cased text contains the lower-cased trimmed keyword is a
  heading, the classification has category \<^verbatim>\<open>with subtopics\<close>, and its subtopics
  are exactly the trimmed texts, in document order, of the elements between the match and
  the next heading (or the end), without the elements whose trimmed text equals the
  trimmed keyword up to case. The result carries the list when it is not empty and no list
  otherwise. The keyword need not be non-empty for this.
\<close>

theorem classify_heading_subtopics:
  assumes "extractTextElements content = pre @ m # rest"
    and "\<forall>e\<in>set pre. \<not> textContainsKeyword keyword e"
    and "textContainsKeyword keyword m"
    and "isHeading m"
  shows "category (classifyElements keyword (extractTextElements content)) = Some WithSubtopics
       \<and> subtopics (classifyElements keyword (extractTextElements content)) =
           (if subtopicsBetween keyword rest = [] then None
            else Some (subtopicsBetween keyword rest))"
proof -
  have wf: "\<forall>e\<in>set (pre @ m # rest). elText e \<noteq> [] \<and> trim (elText e) = elText e"
    using extractTextElements_wf[of _ content] assms(1) by metis
  show ?thesis
    unfolding assms(1)
    using classifyElements_heading[OF wf assms(2) assms(3) assms(4)] by simp
qed

theorem classify_heading_subtopics_witness:
  "category (classifyElements ''mattress removal'' (extractTextElements exampleContent))
     = Some WithSubtopics
   \<and> subtopics (classifyElements ''mattress removal'' (extractTextElements exampleContent))
     = Some [''Same-day pickup'', ''Recycling'', ''Pricing'']"
proof -
  have a: "\<forall>e\<in>set [\<lparr>elText = ''Our services'', isHeading = False, level = 0\<rparr>].
             \<not> textContainsKeyword ''mattress removal'' e"
    by (simp add: classifier_eval string_defs)
  have b: "textContainsKeyword ''mattress removal''
             \<lparr>elText = ''Mattress Removal'', isHeading = True, level = 2\<rparr>"
    by (simp add: classifier_eval string_defs)
  have c: "isHeading \<lparr>elText = ''Mattress Removal'', isHeading = True, level = 2\<rparr>"
    by simp
  show ?thesis
    using classify_heading_subtopics[OF exampleContent_elements a b c]
    by (simp add: classifier_eval string_defs)
qed

text \<open>
  Claim C1 as stated fails for a keyword with white space at its ends. The search and the
  comparison both take the keyword lower-cased and trimmed, so for the keyword
  \<^verbatim>\<open>mattress removal\<close> followed by a space the element
  \<^verbatim>\<open>mattress removal\<close> under the matching heading is left out, although its text
  does not equal the keyword as it is given.
\<close>

theorem classify_padded_keyword_counterexample:
  "\<not> textContainsKeyword ''mattress removal '' (extractTextElements exampleContent ! 0)
   \<and> textContainsKeyword ''mattress removal '' (extractTextElements exampleContent ! 1)
   \<and> isHeading (extractTextElements exampleContent ! 1)
   \<and> subtopics (classifyElements ''mattress removal '' (extractTextElements exampleContent))
       = Some [''Same-day pickup'', ''Recycling'', ''Pricing'']
   \<and> subtopicsAsStated ''mattress removal '' (drop 2 (extractTextElements exampleContent))
       = [''Same-day pickup'', ''Recycling'', ''mattress removal'', ''Pricing'']"
  by (simp add: exampleContent_elements textContainsKeyword_def subtopicsAsStated_def
        classifyElements_def containsKeyword_def string_defs)

text \<open>
  Text outside ASCII: the heading matches the keyword up to the case of the letter
  U+00C9, and the paragraph that holds only a no-break space is dropped by the
  flattening.
\<close>

lemma classify_latin1_example:
  "extractTextElements
     [exampleParagraph HEADING_2 (''CAF'' @ [CHR 0xC9] @ '' Removal''),
      exampleParagraph NORMAL_TEXT [CHR 0xA0],
      exampleParagraph NORMAL_TEXT ''Pickup'']
   = [\<lparr>elText = ''CAF'' @ [CHR 0xC9] @ '' Removal'', isHeading = True, level = 2\<rparr>,
      \<lparr>elText = ''Pickup'', isHeading = False, level = 0\<rparr>]
   \<and> subtopics (classifyElements (''caf'' @ [CHR 0xE9])
        [\<lparr>elText = ''CAF'' @ [CHR 0xC9] @ '' Removal'', isHeading = True, level = 2\<rparr>,
         \<lparr>elText = ''Pickup'', isHeading = False, level = 0\<rparr>])
     = Some [''Pickup'']"
  by (simp add: exampleParagraph_def extractTextElements_def paragraphElements_def
        classifyElements_def containsKeyword_def string_defs)

section \<open>Null category and presence of subtopics\<close>

lemma category_failedClassification [simp]: "category (failedClassification r) = None"
  by (simp add: failedClassification_def)

lemma subtopics_failedClassification [simp]: "subtopics (failedClassification r) = None"
  by (simp add: failedClassification_def)










section \<open>Competitor lookup: the row that is taken\<close>

lemma searchKeywordRows_found_iff:
  "(searchKeywordRows keyword i rows \<noteq> None)
     = (\<exists>row\<in>set rows. includesStr (toLowerCase (cell row 0)) (toLowerCase keyword))"
  by (induction rows arbitrary: i) (simp_all add: Let_def)

lemmas competitor_eval =
  exampleCompetitorRows_def cell_def urlsOfCell_def isUrlSeparator_def

text \<open>
  Claim C3. The competitor lookup is meant to take the first row whose keyword column
  equals the keyword up to case. On the example sheet, row 3 is that row for the keyword
  \<^verbatim>\<open>mattress removal\<close> and holds \<^verbatim>\<open>a.com, b.com\<close>; the search loop takes
  row 2 instead, whose keyword column only contains the keyword, and returns the URLs of
  that row.
\<close>

theorem competitor_lookup_takes_substring_row:
  "searchKeywordRows ''mattress removal'' 0 exampleCompetitorRows
     = Some (2, ''King Mattress Removal Cost'', [''c.com''])"
  by (simp add: competitor_eval string_defs)

lemma competitor_lookup_example:
  "getCompetitorUrlsFromSheets exampleEnv (\<lambda>sheet range. Inr (Some exampleCompetitorRows))
     ''mattress removal'' (Some ''token'')
   = \<lparr>foundRow = True, rowNumber = Some 2,
      keywordCell = Some ''King Mattress Removal Cost'', competitorUrls = [''c.com''],
      lookupError = None, totalRows = 3, lookupMethod = ''Google Sheets API v4 OAuth''\<rparr>"
  by (simp add: getCompetitorUrlsFromSheets_def exampleEnv_def optTrim_def truthy_def
        competitor_eval string_defs)

section \<open>Bulk generation\<close>

lemma assign_fresh: "k \<notin> fst ` set kvs \<Longrightarrow> assign k v kvs = kvs @ [(k, v)]"
  by (induction kvs) auto

lemma recordFieldResult_eq:
  "recordFieldResult fid outcome (res, errs) =
     (if fieldSucceeds outcome then (assign fid (fieldOutput outcome) res, errs)
      else (res, assign fid (fieldError outcome) errs))"
  by (auto simp: recordFieldResult_def fieldSucceeds_def fieldOutput_def fieldError_def
        split: sum.splits boxBody.splits prod.splits)

lemma generateFields_distinct:
  assumes "distinct fids" "set fids \<inter> fst ` set res = {}" "set fids \<inter> fst ` set errs = {}"
  shows "generateFields callField fids (res, errs) =
           (res @ map (\<lambda>f. (f, fieldOutput (callField f)))
                    (filter (\<lambda>f. fieldSucceeds (callField f)) fids),
            errs @ map (\<lambda>f. (f, fieldError (callField f)))
                    (filter (\<lambda>f. \<not> fieldSucceeds (callField f)) fids))"
  using assms
proof (induction fids arbitrary: res errs)
  case Nil
  then show ?case by simp
next
  case (Cons f fids)
  have fr: "f \<notin> fst ` set res" and fe: "f \<notin> fst ` set errs"
    using Cons.prems by auto
  show ?case
  proof (cases "fieldSucceeds (callField f)")
    case True
    have "generateFields callField (f # fids) (res, errs)
            = generateFields callField fids (res @ [(f, fieldOutput (callField f))], errs)"
      using True fr by (simp add: recordFieldResult_eq assign_fresh)
    also have "\<dots> = ((res @ [(f, fieldOutput (callField f))])
                       @ map (\<lambda>f. (f, fieldOutput (callField f)))
                           (filter (\<lambda>f. fieldSucceeds (callField f)) fids),
                     errs @ map (\<lambda>f. (f, fieldError (callField f)))
                           (filter (\<lambda>f. \<not> fieldSucceeds (callField f)) fids))"
      using Cons.prems by (intro Cons.IH) auto
    finally show ?thesis using True by simp
  next
    case False
    have "generateFields callField (f # fids) (res, errs)
            = generateFields callField fids (res, errs @ [(f, fieldError (callField f))])"
      using False fe by (simp add: recordFieldResult_eq assign_fresh)
    also have "\<dots> = (res @ map (\<lambda>f. (f, fieldOutput (callField f)))
                           (filter (\<lambda>f. fieldSucceeds (callField f)) fids),
                     (errs @ [(f, fieldError (callField f))])
                       @ map (\<lambda>f. (f, fieldError (callField f)))
                           (filter (\<lambda>f. \<not> fieldSucceeds (callField f)) fids))"
      using Cons.prems by (intro Cons.IH) auto
    finally show ?thesis using False by simp
  qed
qed

lemma POST_box_invalid_field:
  "box \<notin> set validFields \<Longrightarrow> fst (POST_box env valuesGet generate box req) = 400"
  by (simp add: POST_box_def)

lemma unknown_field_fails:
  assumes "fid \<notin> set validFields"
  shows "\<not> fieldSucceeds (case fetchThrows fid of
                             Some e \<Rightarrow> Inl e
                           | None \<Rightarrow> Inr (POST_box env valuesGet generate fid r))"
  using POST_box_invalid_field[OF assms, of env valuesGet generate r]
  by (cases "POST_box env valuesGet generate fid r")
     (simp add: fieldSucceeds_def split: option.splits)

lemma unknown_field_error:
  assumes "fid \<notin> set validFields" "validKeyword (reqKeyword r)" "validFlow (reqFlow r)"
  shows "(fid, fieldError (case fetchThrows fid of
                       Some e \<Rightarrow> Inl e
                     | None \<Rightarrow> Inr (POST_box env valuesGet generate fid r)))
           = rejectedFieldError fetchThrows fid"
  using assms
  by (simp add: POST_box_def fieldError_def rejectedFieldError_def split: option.splits)

lemma withSubtopicsFieldIds_unknown:
  "fid \<in> set (withSubtopicsFieldIds @ [''entro'']) \<Longrightarrow> fid \<notin> set validFields"
  by (auto simp: withSubtopicsFieldIds_def validFields_def)

lemma filter_none: "(\<And>x. x \<in> set xs \<Longrightarrow> \<not> P x) \<Longrightarrow> filter P xs = []"
  by (induction xs) auto

lemma filter_all: "(\<And>x. x \<in> set xs \<Longrightarrow> P x) \<Longrightarrow> filter P xs = xs"
  by (induction xs) auto

text \<open>
  Claim C2. None of the field ids that \<^verbatim>\<open>POST /api/generate/all\<close> uses for the flow
  \<^verbatim>\<open>with subtopics\<close>, nor the id \<^verbatim>\<open>entro\<close> of the other flow, is a valid field of
  the per-field endpoint, which answers each of them with status 400 whatever the request.
  For the flow \<^verbatim>\<open>with subtopics\<close> the aggregate response therefore has no result, a
  success count of 0 and an error entry for each of the 10 fields; for the flow
  \<^verbatim>\<open>no subtopics\<close> it has an error entry and no result for \<^verbatim>\<open>entro\<close>.
\<close>

theorem generate_all_unknown_field_ids:
  assumes "validKeyword (reqKeyword req)"
  shows "(\<forall>fid\<in>set (withSubtopicsFieldIds @ [''entro'']).
            \<forall>r. fst (POST_box env valuesGet generate fid r) = 400)
       \<and> (reqFlow req = Some ''with subtopics'' \<longrightarrow>
            POST_all env valuesGet generate fetchThrows req =
              (200, AllOk \<lparr>results = [],
                            errors = Some (map (rejectedFieldError fetchThrows)
                                             withSubtopicsFieldIds),
                            allFlow = ''with subtopics'', fieldCount = 10,
                            successCount = 0\<rparr>))
       \<and> (reqFlow req = Some ''no subtopics'' \<longrightarrow>
            (\<exists>res errs. POST_all env valuesGet generate fetchThrows req =
               (200, AllOk \<lparr>results = res, errors = Some errs,
                             allFlow = ''no subtopics'', fieldCount = 9,
                             successCount = length res\<rparr>)
               \<and> rejectedFieldError fetchThrows ''entro'' \<in> set errs
               \<and> ''entro'' \<notin> fst ` set res))"
proof (intro conjI impI)
  show "\<forall>fid\<in>set (withSubtopicsFieldIds @ [''entro'']).
            \<forall>r. fst (POST_box env valuesGet generate fid r) = 400"
    using withSubtopicsFieldIds_unknown POST_box_invalid_field by blast
next
  assume flow: "reqFlow req = Some ''with subtopics''"
  define forwarded where "forwarded = \<lparr>reqKeyword = reqKeyword req, reqFlow = reqFlow req,
                          reqCompetitorUrls = reqCompetitorUrls req,
                          reqAccessToken = reqAccessToken req,
                          reqPreviousPictures = None, reqSubtopics = None\<rparr>"
  define callField where "callField = (\<lambda>fid. case fetchThrows fid of
                                   Some e \<Rightarrow> Inl e
                                 | None \<Rightarrow> Inr (POST_box env valuesGet generate fid forwarded))"
  have vf: "validFlow (reqFlow req)" using flow by (simp add: validFlow_def)
  have fw: "validKeyword (reqKeyword forwarded)" "validFlow (reqFlow forwarded)"
    using assms vf by (simp_all add: forwarded_def)
  have fails: "\<not> fieldSucceeds (callField f)" if "f \<in> set withSubtopicsFieldIds" for f
    unfolding callField_def
    using that withSubtopicsFieldIds_unknown[of f] by (intro unknown_field_fails) simp
  have errs: "(f, fieldError (callField f)) = rejectedFieldError fetchThrows f"
    if "f \<in> set withSubtopicsFieldIds" for f
    unfolding callField_def
    using that withSubtopicsFieldIds_unknown[of f] fw by (intro unknown_field_error) simp_all
  have "generateFields callField withSubtopicsFieldIds ([], [])
          = ([] @ map (\<lambda>f. (f, fieldOutput (callField f)))
                    (filter (\<lambda>f. fieldSucceeds (callField f)) withSubtopicsFieldIds),
             [] @ map (\<lambda>f. (f, fieldError (callField f)))
                    (filter (\<lambda>f. \<not> fieldSucceeds (callField f)) withSubtopicsFieldIds))"
    by (intro generateFields_distinct) (simp_all add: withSubtopicsFieldIds_def)
  also have "filter (\<lambda>f. fieldSucceeds (callField f)) withSubtopicsFieldIds = []"
    using fails by (intro filter_none) blast
  also have "filter (\<lambda>f. \<not> fieldSucceeds (callField f)) withSubtopicsFieldIds
               = withSubtopicsFieldIds"
    using fails by (intro filter_all) blast
  also have "map (\<lambda>f. (f, fieldError (callField f))) withSubtopicsFieldIds
               = map (rejectedFieldError fetchThrows) withSubtopicsFieldIds"
    using errs by (intro map_cong) simp_all
  finally have gen: "generateFields callField withSubtopicsFieldIds ([], [])
                       = ([], map (rejectedFieldError fetchThrows) withSubtopicsFieldIds)"
    by simp
  have len: "length withSubtopicsFieldIds = 10" by (simp add: withSubtopicsFieldIds_def)
  show "POST_all env valuesGet generate fetchThrows req =
              (200, AllOk \<lparr>results = [],
                            errors = Some (map (rejectedFieldError fetchThrows)
                                             withSubtopicsFieldIds),
                            allFlow = ''with subtopics'', fieldCount = 10,
                            successCount = 0\<rparr>)"
    using assms vf flow gen len
    unfolding POST_all_def Let_def forwarded_def[symmetric] callField_def[symmetric]
    by simp
next
  assume flow: "reqFlow req = Some ''no subtopics''"
  define forwarded where "forwarded = \<lparr>reqKeyword = reqKeyword req, reqFlow = reqFlow req,
                          reqCompetitorUrls = reqCompetitorUrls req,
                          reqAccessToken = reqAccessToken req,
                          reqPreviousPictures = None, reqSubtopics = None\<rparr>"
  define callField where "callField = (\<lambda>fid. case fetchThrows fid of
                                   Some e \<Rightarrow> Inl e
                                 | None \<Rightarrow> Inr (POST_box env valuesGet generate fid forwarded))"
  define res where "res = map (\<lambda>f. (f, fieldOutput (callField f)))
                    (filter (\<lambda>f. fieldSucceeds (callField f)) noSubtopicsFieldIds)"
  define errs where "errs = map (\<lambda>f. (f, fieldError (callField f)))
                    (filter (\<lambda>f. \<not> fieldSucceeds (callField f)) noSubtopicsFieldIds)"
  have vf: "validFlow (reqFlow req)" using flow by (simp add: validFlow_def)
  have fw: "validKeyword (reqKeyword forwarded)" "validFlow (reqFlow forwarded)"
    using assms vf by (simp_all add: forwarded_def)
  have unknown: "''entro'' \<notin> set validFields" by (simp add: validFields_def)
  have fails: "\<not> fieldSucceeds (callField ''entro'')"
    unfolding callField_def using unknown by (rule unknown_field_fails)
  have err: "(''entro'', fieldError (callField ''entro'')) = rejectedFieldError fetchThrows ''entro''"
    unfolding callField_def using unknown fw by (rule unknown_field_error)
  have gen: "generateFields callField noSubtopicsFieldIds ([], []) = (res, errs)"
    unfolding res_def errs_def
    using generateFields_distinct[of noSubtopicsFieldIds "[]" "[]" callField]
    by (simp add: noSubtopicsFieldIds_def)
  have mem: "''entro'' \<in> set noSubtopicsFieldIds" by (simp add: noSubtopicsFieldIds_def)
  have in_errs: "rejectedFieldError fetchThrows ''entro'' \<in> set errs"
    unfolding errs_def using fails mem err by (force simp: image_iff)
  have not_res: "''entro'' \<notin> fst ` set res"
    unfolding res_def using fails by (auto simp: image_iff)
  have nonempty: "length errs > 0" using in_errs by (cases errs) auto
  have len: "length noSubtopicsFieldIds = 9" by (simp add: noSubtopicsFieldIds_def)
  have "POST_all env valuesGet generate fetchThrows req =
               (200, AllOk \<lparr>results = res, errors = Some errs,
                             allFlow = ''no subtopics'', fieldCount = 9,
                             successCount = length res\<rparr>)"
    using assms vf flow gen len nonempty
    unfolding POST_all_def Let_def forwarded_def[symmetric] callField_def[symmetric]
    by simp
  then show "\<exists>res errs. POST_all env valuesGet generate fetchThrows req =
               (200, AllOk \<lparr>results = res, errors = Some errs,
                             allFlow = ''no subtopics'', fieldCount = 9,
                             successCount = length res\<rparr>)
               \<and> rejectedFieldError fetchThrows ''entro'' \<in> set errs
               \<and> ''entro'' \<notin> fst ` set res"
    using in_errs not_res by blast
qed

theorem generate_all_unknown_field_ids_witness:
  "validKeyword (reqKeyword (exampleRequest ''with subtopics''))
   \<and> POST_all exampleEnv (\<lambda>sheet range. Inr None) (\<lambda>box r p. Some ''generated text'')
         (\<lambda>fid. if fid = ''wpic2'' then Some (ErrorWithMessage ''fetch failed'') else None)
         (exampleRequest ''with subtopics'')
       = (200, AllOk \<lparr>results = [],
            errors = Some [(''wtitle'', ''Invalid field \"wtitle\"''),
                           (''wentro'', ''Invalid field \"wentro\"''),
                           (''wpic1'', ''Invalid field \"wpic1\"''),
                           (''wpic2'', ''fetch failed''),
                           (''wpic3'', ''Invalid field \"wpic3\"''),
                           (''wpic4'', ''Invalid field \"wpic4\"''),
                           (''sub'', ''Invalid field \"sub\"''),
                           (''wcost'', ''Invalid field \"wcost\"''),
                           (''wwhy'', ''Invalid field \"wwhy\"''),
                           (''wfaq'', ''Invalid field \"wfaq\"'')],
            allFlow = ''with subtopics'', fieldCount = 10, successCount = 0\<rparr>)
   \<and> fst (POST_box exampleEnv (\<lambda>sheet range. Inr None) (\<lambda>box r p. Some ''generated text'')
           ''entro'' (exampleRequest ''no subtopics'')) = 400"
  using generate_all_unknown_field_ids[of "exampleRequest ''with subtopics''" exampleEnv
          "\<lambda>sheet range. Inr None" "\<lambda>box r p. Some ''generated text''"
          "\<lambda>fid. if fid = ''wpic2'' then Some (ErrorWithMessage ''fetch failed'') else None"]
  by (simp add: exampleRequest_def validKeyword_def withSubtopicsFieldIds_def
        rejectedFieldError_def thrownMessage_def string_defs)

section \<open>Picture batch: selection of four combinations\<close>

lemma bitLength_lower: "0 < p \<Longrightarrow> 2 ^ (bitLength p - 1) \<le> p"
proof (induction p rule: bitLength.induct)
  case (1 n)
  show ?case
  proof (cases "n div 2 = 0")
    case True
    then have "bitLength (n div 2) = 0" by (simp add: bitLength.simps)
    then have "bitLength n = 1" using "1.prems" by (simp add: bitLength.simps[of n])
    then show ?thesis using "1.prems" by simp
  next
    case False
    then have ih: "2 ^ (bitLength (n div 2) - 1) \<le> n div 2"
      using "1.IH" "1.prems" by simp
    have pos: "0 < bitLength (n div 2)"
      using False by (simp add: bitLength.simps[of "n div 2"])
    have "bitLength n = Suc (bitLength (n div 2))"
      using "1.prems" by (simp add: bitLength.simps[of n])
    then have "(2::nat) ^ (bitLength n - 1) = 2 * 2 ^ (bitLength (n div 2) - 1)"
      using pos by (cases "bitLength (n div 2)") simp_all
    also have "\<dots> \<le> 2 * (n div 2)" using ih by simp
    also have "\<dots> \<le> n" by simp
    finally show ?thesis .
  qed
qed

lemma roundHalfEven_upper: "2 * (roundHalfEven p s * 2 ^ s) \<le> 2 * p + 2 ^ s"
proof -
  define q where "q = p div 2 ^ s"
  define r where "r = p mod 2 ^ s"
  have p: "p = q * 2 ^ s + r" by (simp only: q_def r_def div_mult_mod_eq)
  show ?thesis
  proof (cases "2 ^ s < 2 * r \<or> (2 * r = 2 ^ s \<and> odd q)")
    case True
    then have le: "(2::nat) ^ s \<le> 2 * r" by auto
    have "roundHalfEven p s = q + 1"
      using True by (simp add: roundHalfEven_def Let_def q_def r_def)
    then have "2 * (roundHalfEven p s * 2 ^ s) = 2 * (q * 2 ^ s) + 2 ^ s + 2 ^ s"
      by (simp add: algebra_simps)
    also have "\<dots> \<le> 2 * (q * 2 ^ s) + 2 * r + 2 ^ s" using le by simp
    also have "\<dots> = 2 * p + 2 ^ s" by (simp add: p)
    finally show ?thesis .
  next
    case False
    then have "roundHalfEven p s = q"
      by (simp add: roundHalfEven_def Let_def q_def r_def)
    then show ?thesis by (simp add: p)
  qed
qed

lemma roundHalfEven_lower: "2 * p \<le> 2 * (roundHalfEven p s * 2 ^ s) + 2 ^ s"
proof -
  define q where "q = p div 2 ^ s"
  define r where "r = p mod 2 ^ s"
  have p: "p = q * 2 ^ s + r" by (simp only: q_def r_def div_mult_mod_eq)
  have r: "r < 2 ^ s" by (simp add: r_def)
  show ?thesis
  proof (cases "2 ^ s < 2 * r \<or> (2 * r = 2 ^ s \<and> odd q)")
    case True
    then have "roundHalfEven p s = q + 1"
      by (simp add: roundHalfEven_def Let_def q_def r_def)
    then show ?thesis using r by (simp add: p algebra_simps)
  next
    case False
    then have le: "2 * r \<le> 2 ^ s" by auto
    have "roundHalfEven p s = q"
      using False by (simp add: roundHalfEven_def Let_def q_def r_def)
    then show ?thesis using le by (simp add: p)
  qed
qed

text \<open>When the exact product has at most 53 binary digits, nothing is rounded.\<close>

lemma floorOfProduct_exact:
  assumes "m * k < 2 ^ 53"
  shows "floorOfProduct (m, e) k = (m * k) div 2 ^ e"
proof -
  have "bitLength (m * k) \<le> 53"
  proof (cases "m * k = 0")
    case True
    have "bitLength 0 = 0" by (simp add: bitLength.simps[of 0])
    then show ?thesis unfolding True by simp
  next
    case False
    then have "(2::nat) ^ (bitLength (m * k) - 1) \<le> m * k"
      using bitLength_lower[of "m * k"] by simp
    then have lt: "(2::nat) ^ (bitLength (m * k) - 1) < 2 ^ 53"
      using assms by simp
    have "bitLength (m * k) - 1 < 53"
      by (rule power_less_imp_less_exp[OF _ lt]) simp
    then show ?thesis by simp
  qed
  then have "bitLength (m * k) - 53 = 0" by simp
  then show ?thesis
    by (simp add: floorOfProduct_def Let_def roundHalfEven_def)
qed

lemma floorOfProduct_less:
  assumes "isRandomValue (m, e)" "0 < k"
  shows "floorOfProduct (m, e) k < k"
proof -
  define p where "p = m * k"
  define s where "s = bitLength p - 53"
  from assms(1) have m53: "m < 2 ^ 53" and me: "m < 2 ^ e"
    by (simp_all add: isRandomValue_def)
  have small: "(2::nat) ^ s < 2 * k"
  proof (cases "s = 0")
    case True
    then show ?thesis using assms(2) by simp
  next
    case False
    then have bl: "bitLength p - 1 = 52 + s" by (simp add: s_def)
    have "0 < bitLength p" using False by (simp add: s_def)
    then have "0 < p" by (cases "p = 0") (simp_all add: bitLength.simps[of 0])
    then have "(2::nat) ^ (52 + s) \<le> p" using bitLength_lower[of p] bl by simp
    also have "p < 2 ^ 53 * k" using m53 assms(2) by (simp add: p_def)
    finally have "(2::nat) ^ 52 * 2 ^ s < 2 ^ 52 * (2 * k)" by (simp add: power_add)
    then show ?thesis by simp
  qed
  have "Suc m \<le> 2 ^ e" using me by simp
  then have "Suc m * k \<le> 2 ^ e * k" by (rule mult_le_mono1)
  then have "2 * p + 2 * k \<le> 2 * (k * 2 ^ e)" by (simp add: p_def algebra_simps)
  then have "2 * p + 2 ^ s < 2 * (k * 2 ^ e)" using small by simp
  then have "2 * (roundHalfEven p s * 2 ^ s) < 2 * (k * 2 ^ e)"
    using roundHalfEven_upper[of p s] by simp
  then have "roundHalfEven p s * 2 ^ s < k * 2 ^ e" by simp
  then have "(roundHalfEven p s * 2 ^ s) div 2 ^ e < k"
    by (rule less_mult_imp_div_less)
  then show ?thesis
    by (simp add: floorOfProduct_def Let_def p_def s_def)
qed

lemma randomIndex_less:
  assumes "isRandomValue r" "0 < n"
  shows "randomIndex n r < min n 13"
proof -
  obtain m e where r: "r = (m, e)" by (cases r)
  have "0 < min n 13" using assms(2) by simp
  then show ?thesis
    unfolding randomIndex_def r using assms(1) r by (intro floorOfProduct_less) simp_all
qed

lemma selectIndices_invariant:
  assumes "selectIndices n draws sel = Some out"
    and "distinct sel" "length sel \<le> 4"
    and "\<forall>i\<in>set sel. i < min n 13"
    and "\<forall>r\<in>set draws. isRandomValue r"
    and "0 < n"
  shows "distinct out \<and> length out \<le> 4 \<and> (\<forall>i\<in>set out. i < min n 13)
         \<and> \<not> (length out < 4 \<and> length out < n)"
  using assms
proof (induction draws arbitrary: sel)
  case Nil
  then show ?case by (auto split: if_splits)
next
  case (Cons r rs)
  show ?case
  proof (cases "length sel < 4 \<and> length sel < n")
    case False
    with Cons.prems show ?thesis by auto
  next
    case True
    let ?sel' = "if randomIndex n r \<in> set sel then sel else sel @ [randomIndex n r]"
    have rec: "selectIndices n rs ?sel' = Some out"
      using Cons.prems(1) True by simp
    have idx: "randomIndex n r < min n 13"
      using Cons.prems(5,6) by (intro randomIndex_less) simp_all
    have "distinct ?sel'" "length ?sel' \<le> 4" "\<forall>i\<in>set ?sel'. i < min n 13"
      using Cons.prems(2,3,4) True idx by auto
    moreover have "\<forall>r\<in>set rs. isRandomValue r" using Cons.prems(5) by simp
    ultimately show ?thesis
      using Cons.IH[OF rec] Cons.prems(6) by blast
  qed
qed

lemma selectIndices_returns:
  assumes "distinct sel"
    and "4 \<le> card (set sel \<union> randomIndex n ` set draws)"
  shows "selectIndices n draws sel \<noteq> None"
  using assms
proof (induction draws arbitrary: sel)
  case Nil
  then have "4 \<le> length sel" by (simp add: distinct_card)
  then show ?case by auto
next
  case (Cons r rs)
  show ?case
  proof (cases "length sel < 4 \<and> length sel < n")
    case False
    then show ?thesis by auto
  next
    case True
    let ?sel' = "if randomIndex n r \<in> set sel then sel else sel @ [randomIndex n r]"
    have d: "distinct ?sel'" using Cons.prems(1) by simp
    have "set ?sel' \<union> randomIndex n ` set rs = set sel \<union> randomIndex n ` set (r # rs)"
      by auto
    then have c: "4 \<le> card (set ?sel' \<union> randomIndex n ` set rs)"
      using Cons.prems(2) by simp
    show ?thesis using Cons.IH[OF d c] True by simp
  qed
qed

lemma selectIndices_four:
  assumes "selectIndices n draws [] = Some out" "4 \<le> n"
    and "\<forall>r\<in>set draws. isRandomValue r"
  shows "length out = 4 \<and> distinct out \<and> (\<forall>i\<in>set out. i < min n 13)"
proof -
  have "distinct out \<and> length out \<le> 4 \<and> (\<forall>i\<in>set out. i < min n 13)
         \<and> \<not> (length out < 4 \<and> length out < n)"
    using assms by (intro selectIndices_invariant[of n draws "[]"]) simp_all
  then show ?thesis using assms(2) by auto
qed

lemma picturesFromCombinations_ok:
  assumes "selectIndices (length combinations) draws [] = Some sel" "4 \<le> length combinations"
    and "\<forall>r\<in>set draws. isRandomValue r"
  shows "picturesFromCombinations combinations draws
           = Some (200, PicturesOk (outputsFor combinations sel) (length combinations) sel)"
proof -
  have four: "length sel = 4" and bound: "\<forall>i\<in>set sel. i < min (length combinations) 13"
    using selectIndices_four[OF assms] by simp_all
  then have "list_all (\<lambda>i. i < length combinations) (take 4 sel)"
    by (simp add: list_all_iff)
  then show ?thesis
    using assms(1,2) four
    by (simp add: picturesFromCombinations_def outputsFor_def)
qed

text \<open>
  Claim C6. The draws of the random source are doubles \<open>r\<close> with \<open>0 \<le> r < 1\<close>.
  With at least 4 combinations: as soon as the draws hit four different indices, the
  endpoint returns, and whenever it returns it answers with status 200, exactly 4 pairwise
  distinct selected indices, each below the minimum of the number of combinations and 13,
  and the outputs \<^verbatim>\<open>pic1\<close> to \<^verbatim>\<open>pic4\<close> built from the combinations at these
  indices in the order of selection. With fewer than 4 combinations the endpoint answers
  with status 500 and an error message that gives the number found.
\<close>

theorem picture_batch_selection:
  assumes "\<forall>r\<in>set draws. isRandomValue r"
  shows "(4 \<le> length combinations
          \<and> 4 \<le> card (randomIndex (length combinations) ` set draws)
          \<longrightarrow> (\<exists>sel. picturesFromCombinations combinations draws
                      = Some (200, PicturesOk (outputsFor combinations sel)
                                     (length combinations) sel)
                    \<and> length sel = 4 \<and> distinct sel
                    \<and> (\<forall>i\<in>set sel. i < min (length combinations) 13)))
       \<and> (4 \<le> length combinations
          \<longrightarrow> (\<forall>res. picturesFromCombinations combinations draws = Some res
                \<longrightarrow> (\<exists>sel. res = (200, PicturesOk (outputsFor combinations sel)
                                           (length combinations) sel)
                      \<and> length sel = 4 \<and> distinct sel
                      \<and> (\<forall>i\<in>set sel. i < min (length combinations) 13))))
       \<and> (length combinations < 4
          \<longrightarrow> picturesFromCombinations combinations draws
                = Some (500, PicturesError
                     (''Only found '' @ showNat (length combinations)
                      @ '' combinations. Need at least 4. Response may not be in expected format.'')))"
proof (intro conjI impI allI)
  assume a: "4 \<le> length combinations
          \<and> 4 \<le> card (randomIndex (length combinations) ` set draws)"
  then have "selectIndices (length combinations) draws [] \<noteq> None"
    by (intro selectIndices_returns) simp_all
  then obtain sel where sel: "selectIndices (length combinations) draws [] = Some sel"
    by blast
  show "\<exists>sel. picturesFromCombinations combinations draws
                      = Some (200, PicturesOk (outputsFor combinations sel)
                                     (length combinations) sel)
                    \<and> length sel = 4 \<and> distinct sel
                    \<and> (\<forall>i\<in>set sel. i < min (length combinations) 13)"
    using picturesFromCombinations_ok[OF sel _ assms] selectIndices_four[OF sel _ assms] a
    by blast
next
  fix res
  assume n: "4 \<le> length combinations"
    and r: "picturesFromCombinations combinations draws = Some res"
  then obtain sel where sel: "selectIndices (length combinations) draws [] = Some sel"
    by (auto simp: picturesFromCombinations_def split: option.splits if_splits)
  show "\<exists>sel. res = (200, PicturesOk (outputsFor combinations sel)
                                           (length combinations) sel)
                      \<and> length sel = 4 \<and> distinct sel
                      \<and> (\<forall>i\<in>set sel. i < min (length combinations) 13)"
    using picturesFromCombinations_ok[OF sel n assms] selectIndices_four[OF sel n assms] r
    by auto
next
  assume "length combinations < 4"
  then show "picturesFromCombinations combinations draws
                = Some (500, PicturesError
                     (''Only found '' @ showNat (length combinations)
                      @ '' combinations. Need at least 4. Response may not be in expected format.''))"
    by (simp add: picturesFromCombinations_def)
qed

lemma showNat_digit: "n < 10 \<Longrightarrow> showNat n = [digitChar n]"
  by (simp add: showNat.simps)

text \<open>
  The draws of the example are the doubles 0.6, 0, 0.5, 0.9 and 0.25. The double 0.6 is
  below three fifths, and its product with 5 is rounded to the double 3.
\<close>

lemma bitLength_examples:
  "bitLength 27021597764222975 = 55" "bitLength 0 = 0" "bitLength 22517998136852480 = 55"
  "bitLength 40532396646334465 = 56"
  by (simp_all add: bitLength.simps)

lemma randomIndex_examples:
  "randomIndex 5 (5404319552844595, 53) = 3" "randomIndex 5 (0, 0) = 0"
  "randomIndex 5 (4503599627370496, 53) = 2" "randomIndex 5 (8106479329266893, 53) = 4"
  by (simp_all add: randomIndex_def floorOfProduct_def roundHalfEven_def Let_def
        bitLength_examples)

theorem picture_batch_selection_witness:
  "picturesFromCombinations exampleCombinations
     [(5404319552844595, 53), (0, 0), (4503599627370496, 53), (8106479329266893, 53),
      (4503599627370496, 54)]
     = Some (200, PicturesOk
         \<lparr>pic1 = Some (''Local Team'' @ [CHR 0x0A] @ ''Neighbors you know.''),
          pic2 = Some (''Same-day Pickup for Your Mattress'' @ [CHR 0x0A] @ ''We come today.''),
          pic3 = Some (''Upfront Pricing'' @ [CHR 0x0A] @ ''No hidden fees.''),
          pic4 = Some (''Care for the Planet'' @ [CHR 0x0A] @ ''We recycle.'')\<rparr>
         5 [3, 0, 2, 4])
   \<and> picturesFromCombinations (take 3 exampleCombinations)
     [(5404319552844595, 53), (0, 0), (4503599627370496, 53), (8106479329266893, 53),
      (4503599627370496, 54)]
     = Some (500, PicturesError
         ''Only found 3 combinations. Need at least 4. Response may not be in expected format.'')"
proof -
  define draws :: "(nat \<times> nat) list"
    where "draws = [(5404319552844595, 53), (0, 0), (4503599627370496, 53),
                    (8106479329266893, 53), (4503599627370496, 54)]"
  have range: "\<forall>r\<in>set draws. isRandomValue r"
    by (simp add: draws_def isRandomValue_def)
  have sel: "selectIndices 5 draws [] = Some [3, 0, 2, 4]"
    by (simp add: draws_def randomIndex_examples)
  have len: "length exampleCombinations = 5" "length (take 3 exampleCombinations) = 3"
    by (simp_all add: exampleCombinations_def)
  have short: "picturesFromCombinations (take 3 exampleCombinations) draws
     = Some (500, PicturesError
         ''Only found 3 combinations. Need at least 4. Response may not be in expected format.'')"
    using picture_batch_selection[OF range, of "take 3 exampleCombinations"]
    by (simp add: len showNat_digit digitChar_def)
  have out: "outputsFor exampleCombinations [3, 0, 2, 4] =
         \<lparr>pic1 = Some (''Local Team'' @ [CHR 0x0A] @ ''Neighbors you know.''),
          pic2 = Some (''Same-day Pickup for Your Mattress'' @ [CHR 0x0A] @ ''We come today.''),
          pic3 = Some (''Upfront Pricing'' @ [CHR 0x0A] @ ''No hidden fees.''),
          pic4 = Some (''Care for the Planet'' @ [CHR 0x0A] @ ''We recycle.'')\<rparr>"
    by (simp add: outputsFor_def exampleCombinations_def pictureOutput_def title_defs
          string_defs)
  have "picturesFromCombinations exampleCombinations draws
          = Some (200, PicturesOk (outputsFor exampleCombinations [3, 0, 2, 4]) 5 [3, 0, 2, 4])"
    using sel by (simp add: picturesFromCombinations_def len outputsFor_def)
  then show ?thesis using short out unfolding draws_def by simp
qed

section \<open>The prompt tab: entries per field id\<close>

lemma entriesFor_append: "entriesFor f (a @ b) = entriesFor f a + entriesFor f b"
  by (simp add: entriesFor_def)

lemma promptsOfRow_picture:
  assumes "pic \<in> set pictureFields"
  shows "entriesFor (Str pic) (promptsOfRow i row)
           = (if i = 12 \<and> hasTitleAndPrompt row then 1 else 0)"
proof (cases "i = 12")
  case True
  then show ?thesis
    using assms
    by (auto simp: promptsOfRow_def entriesFor_def Let_def pictureFields_def
          hasTitleAndPrompt_def)
next
  case False
  then show ?thesis
    using assms
    by (auto simp: promptsOfRow_def entriesFor_def Let_def split: option.splits)
qed

lemma promptsOfRow_other:
  assumes "f \<notin> set (map Str pictureFields)"
  shows "entriesFor f (promptsOfRow i row) = (if rowMapsTo f (i, row) then 1 else 0)"
proof (cases "hasTitleAndPrompt row")
  case False
  then show ?thesis
    by (auto simp: promptsOfRow_def entriesFor_def Let_def rowMapsTo_def
          hasTitleAndPrompt_def)
next
  case usable: True
  show ?thesis
  proof (cases "i = 12")
    case True
    have "\<forall>p\<in>set (promptsOfRow i row). fieldId p \<in> set (map Str pictureFields)"
      using True by (auto simp: promptsOfRow_def Let_def)
    then have "filter (\<lambda>p. fieldId p = f) (promptsOfRow i row) = []"
      using assms by (auto simp: filter_empty_conv)
    then show ?thesis using True by (simp add: entriesFor_def rowMapsTo_def)
  next
    case False
    show ?thesis
    proof (cases "mapFieldTitleToId (cell row 0) (i + 1 = 17)")
      case None
      then show ?thesis
        using False usable
        by (simp add: promptsOfRow_def entriesFor_def Let_def rowMapsTo_def
              hasTitleAndPrompt_def)
    next
      case (Some fieldMapping)
      show ?thesis
      proof (cases "fieldMapping \<in> set (map Str pictureFields)")
        case True
        then have "fieldMapping \<noteq> f" using assms by auto
        then show ?thesis
          using False usable Some True
          by (simp add: promptsOfRow_def entriesFor_def Let_def rowMapsTo_def
                hasTitleAndPrompt_def)
      next
        case notpic: False
        then show ?thesis
          using False usable Some
          by (simp add: promptsOfRow_def entriesFor_def Let_def rowMapsTo_def
                hasTitleAndPrompt_def)
      qed
    qed
  qed
qed

lemma processRows_picture:
  assumes "pic \<in> set pictureFields"
  shows "entriesFor (Str pic) (processRows i rows)
           = (if i \<le> 12 \<and> 12 - i < length rows \<and> hasTitleAndPrompt (rows ! (12 - i))
              then 1 else 0)"
proof (induction rows arbitrary: i)
  case Nil
  then show ?case by (simp add: entriesFor_def)
next
  case (Cons row rows)
  show ?case
  proof (cases "i < 12")
    case True
    then have "12 - i = Suc (12 - Suc i)" by simp
    then show ?thesis
      using True Cons.IH[of "Suc i"] promptsOfRow_picture[OF assms, of i row]
      by (simp add: entriesFor_append)
  next
    case False
    then show ?thesis
      using Cons.IH[of "Suc i"] promptsOfRow_picture[OF assms, of i row]
      by (simp add: entriesFor_append)
  qed
qed

lemma processRows_other:
  assumes "f \<notin> set (map Str pictureFields)"
  shows "entriesFor f (processRows i rows) = length (filter (rowMapsTo f) (enumerate i rows))"
proof (induction rows arbitrary: i)
  case Nil
  then show ?case by (simp add: entriesFor_def)
next
  case (Cons row rows)
  then show ?case
    using promptsOfRow_other[OF assms, of i row] by (simp add: entriesFor_append)
qed

lemma restrictToSubtopics_True:
  "restrictToSubtopics True v = Some w \<Longrightarrow> w = Str ''subtopics''"
  by (simp add: restrictToSubtopics_def split: if_splits)

lemma partialMatch_True:
  "partialMatch title True entries = Some w \<Longrightarrow> w = Str ''subtopics''"
  by (induction entries) (auto split: if_splits dest: restrictToSubtopics_True)

lemma mapFieldTitleToId_True:
  "mapFieldTitleToId t True = Some w \<Longrightarrow> w = Str ''subtopics''"
  by (auto simp: mapFieldTitleToId_def Let_def split: if_splits
        dest: restrictToSubtopics_True partialMatch_True)

lemma promptsOfRow_restricted_other:
  "i \<noteq> 16 \<Longrightarrow> filter isSubtitlesOnly (promptsOfRow i row) = []"
  by (auto simp: promptsOfRow_def Let_def split: option.splits)

lemma promptsOfRow_restricted_17:
  "length (filter isSubtitlesOnly (promptsOfRow 16 row)) \<le> 1
   \<and> (\<forall>p\<in>set (promptsOfRow 16 row). fieldId p = Str ''subtopics'')"
  by (auto simp: promptsOfRow_def Let_def split: option.splits dest: mapFieldTitleToId_True)

lemma processRows_restricted:
  "length (filter isSubtitlesOnly (processRows i rows)) \<le> (if i \<le> 16 then 1 else 0)
   \<and> (\<forall>p\<in>set (processRows i rows). isSubtitlesOnly p \<longrightarrow> fieldId p = Str ''subtopics'')"
proof (induction rows arbitrary: i)
  case Nil
  then show ?case by simp
next
  case (Cons row rows)
  show ?case
  proof (cases "i = 16")
    case True
    have "length (filter isSubtitlesOnly (processRows 17 rows)) \<le> 0"
      using Cons.IH[of 17] by simp
    then show ?thesis
      using True promptsOfRow_restricted_17[of row] Cons.IH[of 17] by auto
  next
    case False
    have "filter isSubtitlesOnly (promptsOfRow i row) = []"
      using False by (rule promptsOfRow_restricted_other)
    then have "\<forall>p\<in>set (promptsOfRow i row). \<not> isSubtitlesOnly p"
      by (simp add: filter_empty_conv)
    then show ?thesis
      using False Cons.IH[of "Suc i"] \<open>filter isSubtitlesOnly (promptsOfRow i row) = []\<close>
      by (auto split: if_splits)
  qed
qed

lemma prompts_processRows:
  "prompts (getPromptsFromSheet env valuesGet accessToken)
     = processRows 0 (promptTabRows env valuesGet accessToken)"
  by (auto simp: getPromptsFromSheet_def promptTabRows_def Let_def
        split: sum.splits option.splits)

text \<open>
  Claim C7, as amended. For every content of the prompt sheet, the list that
  \<^verbatim>\<open>getPromptsFromSheet\<close> returns has, for each of the picture field ids
  \<^verbatim>\<open>pic1\<close> to \<^verbatim>\<open>pic4\<close>, exactly one entry when row 13 of the sheet has a title
  and a prompt, and no entry otherwise: row 13 fills the four picture fields whatever its
  title is, and a row whose title maps to a picture field adds nothing. For every other
  field id the list has exactly one entry for each row other than row 13 that has a title
  and a prompt and whose title maps to the id, where the title of row 17 maps to
  \<^verbatim>\<open>subtopics\<close> only; such a field id occurs several times when several rows map to
  it. At most one entry is restricted to the flow with subtopics, and its field id is
  \<^verbatim>\<open>subtopics\<close>.
\<close>

theorem prompts_entries_per_field_id:
  "(\<forall>pic\<in>set pictureFields.
      entriesFor (Str pic) (prompts (getPromptsFromSheet env valuesGet accessToken))
        = (if row13Fills (promptTabRows env valuesGet accessToken) then 1 else 0))
   \<and> (\<forall>f. f \<notin> set (map Str pictureFields) \<longrightarrow>
        entriesFor f (prompts (getPromptsFromSheet env valuesGet accessToken))
          = length (filter (rowMapsTo f)
                      (enumerate 0 (promptTabRows env valuesGet accessToken))))
   \<and> length (filter isSubtitlesOnly (prompts (getPromptsFromSheet env valuesGet accessToken)))
        \<le> 1
   \<and> (\<forall>p\<in>set (prompts (getPromptsFromSheet env valuesGet accessToken)).
        isSubtitlesOnly p \<longrightarrow> fieldId p = Str ''subtopics'')"
proof -
  define rows where "rows = promptTabRows env valuesGet accessToken"
  have ps: "prompts (getPromptsFromSheet env valuesGet accessToken) = processRows 0 rows"
    unfolding rows_def by (rule prompts_processRows)
  have a: "\<forall>pic\<in>set pictureFields.
             entriesFor (Str pic) (processRows 0 rows) = (if row13Fills rows then 1 else 0)"
    using processRows_picture[of _ 0 rows] by (simp add: row13Fills_def)
  have b: "\<forall>f. f \<notin> set (map Str pictureFields) \<longrightarrow>
             entriesFor f (processRows 0 rows)
               = length (filter (rowMapsTo f) (enumerate 0 rows))"
    using processRows_other[of _ 0 rows] by blast
  have c: "length (filter isSubtitlesOnly (processRows 0 rows)) \<le> 1"
    using processRows_restricted[of 0 rows] by simp
  have d: "\<forall>p\<in>set (processRows 0 rows). isSubtitlesOnly p \<longrightarrow> fieldId p = Str ''subtopics''"
    using processRows_restricted[of 0 rows] by simp
  show ?thesis
    unfolding ps rows_def[symmetric] using a b c d by blast
qed

lemmas prompts_eval =
  getPromptsFromSheet_def exampleEnv_def truthy_def promptsOfRow_def mapFieldTitleToId_def
  lookupKey_def titleMappings_def objectPrototypeKeys_def truthyValue_def
  restrictToSubtopics_def pictureFields_def cell_def entriesFor_def

lemma exampleDuplicateRows_prompts:
  "prompts (getPromptsFromSheet exampleEnv (\<lambda>sheet range. Inr (Some exampleDuplicateRows))
      (Some ''token''))
   = [\<lparr>fieldId = Str ''title'', fieldTitle = ''Title'',
       promptText = ''Write a title for {{keyword}}'', exampleText = [],
       isSubtitlesOnly = False\<rparr>,
      \<lparr>fieldId = Str ''title'', fieldTitle = ''wtitle'',
       promptText = ''Write a title for {{keyword}} and its subtopics'', exampleText = [],
       isSubtitlesOnly = False\<rparr>]"
  by (simp add: exampleDuplicateRows_def prompts_eval string_defs numeral_eq_Suc)

text \<open>
  Claim C7 as stated fails: two rows of the sheet that map to the field id
  \<^verbatim>\<open>title\<close> give two entries for it, neither of them from row 13 or row 17.
\<close>

theorem prompts_duplicate_title_counterexample:
  "entriesFor (Str ''title'')
     (prompts (getPromptsFromSheet exampleEnv (\<lambda>sheet range. Inr (Some exampleDuplicateRows))
        (Some ''token''))) = 2
   \<and> map isSubtitlesOnly
     (prompts (getPromptsFromSheet exampleEnv (\<lambda>sheet range. Inr (Some exampleDuplicateRows))
        (Some ''token''))) = [False, False]"
  by (simp add: exampleDuplicateRows_prompts entriesFor_def)

text \<open>
  On the example sheet, row 13 is titled \<^verbatim>\<open>Pictures\<close> and fills the four picture
  fields, the row titled \<^verbatim>\<open>Pic1\<close> adds nothing, and row 17 gives the one entry
  that is restricted to the flow with subtopics.
\<close>

lemma examplePromptRows_entries:
  "map (\<lambda>p. (fieldId p, isSubtitlesOnly p))
     (prompts (getPromptsFromSheet exampleEnv (\<lambda>sheet range. Inr (Some examplePromptRows))
        (Some ''token'')))
   = [(Str ''title'', False), (Str ''intro'', False), (Str ''cost'', False),
      (Str ''why'', False), (Str ''faq'', False), (Str ''pic1'', False),
      (Str ''pic2'', False), (Str ''pic3'', False), (Str ''pic4'', False),
      (Str ''subtopics'', True)]"
  by (simp add: examplePromptRows_def prompts_eval string_defs numeral_eq_Suc Let_def)

lemma examplePromptRows_rows:
  "promptTabRows exampleEnv (\<lambda>sheet range. Inr (Some examplePromptRows)) (Some ''token'')
     = examplePromptRows"
  by (simp add: promptTabRows_def exampleEnv_def truthy_def)

lemma examplePromptRows_row13: "row13Fills examplePromptRows"
  by (simp add: row13Fills_def hasTitleAndPrompt_def examplePromptRows_def cell_def
        string_defs)

lemma entriesFor_pairs:
  "entriesFor f ps
     = length (filter (\<lambda>x. fst x = f) (map (\<lambda>p. (fieldId p, isSubtitlesOnly p)) ps))"
  by (simp add: entriesFor_def filter_map comp_def)

theorem prompts_entries_per_field_id_witness:
  "entriesFor (Str ''pic1'')
     (prompts (getPromptsFromSheet exampleEnv
                 (\<lambda>sheet range. Inr (Some examplePromptRows)) (Some ''token''))) = 1
   \<and> entriesFor (Str ''pic4'')
     (prompts (getPromptsFromSheet exampleEnv
                 (\<lambda>sheet range. Inr (Some examplePromptRows)) (Some ''token''))) = 1
   \<and> length (filter (rowMapsTo (Str ''subtopics'')) (enumerate 0 examplePromptRows)) = 1
   \<and> length (filter (rowMapsTo (Str ''cost'')) (enumerate 0 examplePromptRows)) = 1
   \<and> map (\<lambda>p. (fieldId p, isSubtitlesOnly p))
       (prompts (getPromptsFromSheet exampleEnv
                   (\<lambda>sheet range. Inr (Some examplePromptRows)) (Some ''token'')))
     = [(Str ''title'', False), (Str ''intro'', False), (Str ''cost'', False),
        (Str ''why'', False), (Str ''faq'', False), (Str ''pic1'', False),
        (Str ''pic2'', False), (Str ''pic3'', False), (Str ''pic4'', False),
        (Str ''subtopics'', True)]"
proof -
  define ps where "ps = prompts (getPromptsFromSheet exampleEnv
                 (\<lambda>sheet range. Inr (Some examplePromptRows)) (Some ''token''))"
  have notpic: "Str ''subtopics'' \<notin> set (map Str pictureFields)"
    "Str ''cost'' \<notin> set (map Str pictureFields)"
    by (simp_all add: pictureFields_def)
  have pic: "''pic1'' \<in> set pictureFields" "''pic4'' \<in> set pictureFields"
    by (simp_all add: pictureFields_def)
  have counted: "entriesFor (Str ''subtopics'') ps = 1" "entriesFor (Str ''cost'') ps = 1"
    unfolding ps_def by (simp_all add: entriesFor_pairs examplePromptRows_entries)
  have inst: "(\<forall>pic\<in>set pictureFields. entriesFor (Str pic) ps = 1)
     \<and> (\<forall>f. f \<notin> set (map Str pictureFields) \<longrightarrow>
          entriesFor f ps = length (filter (rowMapsTo f) (enumerate 0 examplePromptRows)))"
    unfolding ps_def
    using prompts_entries_per_field_id[of exampleEnv
            "\<lambda>sheet range. Inr (Some examplePromptRows)" "Some ''token''"]
      examplePromptRows_row13
    by (simp add: examplePromptRows_rows)
  have "entriesFor (Str ''pic1'') ps = 1" "entriesFor (Str ''pic4'') ps = 1"
    using inst pic by blast+
  moreover have "length (filter (rowMapsTo (Str ''subtopics'')) (enumerate 0 examplePromptRows)) = 1"
    "length (filter (rowMapsTo (Str ''cost'')) (enumerate 0 examplePromptRows)) = 1"
    using inst notpic counted by metis+
  ultimately show ?thesis
    unfolding ps_def by (simp add: examplePromptRows_entries)
qed

section \<open>Prompt resolver: the row that decides\<close>

lemma includesStr_append: "includesStr (a @ p @ b) p"
proof (induction a)
  case Nil
  have sw: "startsWith (p @ b) p" by (simp add: startsWith_def)
  show ?case
  proof (cases "p @ b")
    case Nil
    then show ?thesis by simp
  next
    case (Cons c cs)
    then show ?thesis using sw by simp
  qed
next
  case (Cons c a)
  then show ?case by simp
qed

lemma searchPromptRows_find:
  "searchPromptRows fid (Str mapped) rows =
     (case find (eligibleRow mapped) rows of
        None \<Rightarrow> promptFailure (''Field \"'' @ fid @ ''\" (mapped to \"'' @ mapped
                                @ ''\") not found in Prompts tab'')
      | Some row \<Rightarrow>
          if cell row 1 = []
          then promptFailure (''Field \"'' @ fid @ ''\" found but prompt is empty'')
          else \<lparr>prompt = Some (cell row 1),
                example = (if cell row 2 = [] then None else Some (cell row 2)),
                found = True, error = None\<rparr>)"
  by (induction rows) (auto simp: eligibleRow_def renderValue_def)

lemma getPromptFromSheets_not_configured:
  "\<not> resolverConfigured env accessToken \<Longrightarrow>
     \<exists>msg. getPromptFromSheets env valuesGet fid accessToken = promptFailure msg"
  by (auto simp: resolverConfigured_def getPromptFromSheets_def)

lemma getPromptFromSheets_fetch_failed:
  "resolverConfigured env accessToken \<Longrightarrow> fetchedPromptRows env valuesGet = None \<Longrightarrow>
     \<exists>msg. getPromptFromSheets env valuesGet fid accessToken = promptFailure msg"
  by (auto simp: resolverConfigured_def getPromptFromSheets_def fetchedPromptRows_def
        split: sum.splits)

lemma getPromptFromSheets_no_rows:
  "resolverConfigured env accessToken \<Longrightarrow> fetchedPromptRows env valuesGet = Some [] \<Longrightarrow>
     getPromptFromSheets env valuesGet fid accessToken
       = promptFailure ''No data found in Prompts tab''"
  by (auto simp: resolverConfigured_def getPromptFromSheets_def fetchedPromptRows_def
        split: sum.splits)

lemma getPromptFromSheets_rows:
  "resolverConfigured env accessToken \<Longrightarrow> fetchedPromptRows env valuesGet = Some rows \<Longrightarrow>
   rows \<noteq> [] \<Longrightarrow>
     getPromptFromSheets env valuesGet fid accessToken
       = searchPromptRows fid (mapFieldId fid) (drop 1 rows)"
  by (auto simp: resolverConfigured_def getPromptFromSheets_def fetchedPromptRows_def
        split: sum.splits)

lemma found_promptFailure [simp]: "found (promptFailure msg) = False"
  and error_promptFailure [simp]: "error (promptFailure msg) = Some msg"
  and prompt_promptFailure [simp]: "prompt (promptFailure msg) = None"
  and example_promptFailure [simp]: "example (promptFailure msg) = None"
  by (simp_all add: promptFailure_def)

text \<open>
  Claim C8, as amended. Take a field id whose mapped name is a string (every id but the
  names of the properties all objects inherit). The resolver returns \<^verbatim>\<open>found=false\<close>,
  with an error message and neither prompt nor example, in exactly these cases: the
  credentials, the sheet id or the token are not set; the fetch of the prompt tab fails;
  the tab has no rows; no row after the header has at least two cells and a key cell that,
  trimmed and lower-cased, equals the lower-cased mapped name (the message then names the
  field id); or the first such row has an empty prompt cell (the message then says that
  the field was found but the prompt is empty). When the first such row has a prompt, the
  resolver returns \<^verbatim>\<open>found=true\<close> with the prompt of that row and its example, both
  as they are in the sheet (no example when the cell is empty).
\<close>

theorem resolver_first_eligible_row_decides:
  assumes "mapFieldId fid = Str mapped"
  shows "((found (getPromptFromSheets env valuesGet fid accessToken) = False)
            = (\<not> resolverConfigured env accessToken
               \<or> fetchedPromptRows env valuesGet = None
               \<or> fetchedPromptRows env valuesGet = Some []
               \<or> decidingRow env valuesGet mapped = None
               \<or> (\<exists>row. decidingRow env valuesGet mapped = Some row \<and> cell row 1 = [])))
       \<and> (\<not> found (getPromptFromSheets env valuesGet fid accessToken) \<longrightarrow>
             error (getPromptFromSheets env valuesGet fid accessToken) \<noteq> None
             \<and> prompt (getPromptFromSheets env valuesGet fid accessToken) = None
             \<and> example (getPromptFromSheets env valuesGet fid accessToken) = None)
       \<and> (resolverConfigured env accessToken
             \<and> fetchedPromptRows env valuesGet \<noteq> None
             \<and> fetchedPromptRows env valuesGet \<noteq> Some []
             \<and> decidingRow env valuesGet mapped = None \<longrightarrow>
             error (getPromptFromSheets env valuesGet fid accessToken)
               = Some (''Field \"'' @ fid @ ''\" (mapped to \"'' @ mapped
                       @ ''\") not found in Prompts tab'')
             \<and> includesStr (the (error (getPromptFromSheets env valuesGet fid accessToken)))
                   fid)
       \<and> (\<forall>row. resolverConfigured env accessToken
             \<and> decidingRow env valuesGet mapped = Some row \<and> cell row 1 = [] \<longrightarrow>
             error (getPromptFromSheets env valuesGet fid accessToken)
               = Some (''Field \"'' @ fid @ ''\" found but prompt is empty''))
       \<and> (\<forall>row. resolverConfigured env accessToken
             \<and> decidingRow env valuesGet mapped = Some row \<and> cell row 1 \<noteq> [] \<longrightarrow>
             getPromptFromSheets env valuesGet fid accessToken
               = \<lparr>prompt = Some (cell row 1),
                  example = (if cell row 2 = [] then None else Some (cell row 2)),
                  found = True, error = None\<rparr>)"
proof (cases "resolverConfigured env accessToken")
  case False
  then obtain msg where "getPromptFromSheets env valuesGet fid accessToken = promptFailure msg"
    using getPromptFromSheets_not_configured by blast
  then show ?thesis using False by simp
next
  case cfg: True
  show ?thesis
  proof (cases "fetchedPromptRows env valuesGet")
    case None
    then obtain msg where
      "getPromptFromSheets env valuesGet fid accessToken = promptFailure msg"
      using getPromptFromSheets_fetch_failed[OF cfg] by blast
    then show ?thesis using None by (simp add: decidingRow_def)
  next
    case (Some rows)
    show ?thesis
    proof (cases "rows = []")
      case True
      then have "getPromptFromSheets env valuesGet fid accessToken
                   = promptFailure ''No data found in Prompts tab''"
        using getPromptFromSheets_no_rows[OF cfg] Some by simp
      then show ?thesis using Some True by (simp add: decidingRow_def)
    next
      case False
      have eq: "getPromptFromSheets env valuesGet fid accessToken
                  = searchPromptRows fid (Str mapped) (drop 1 rows)"
        using getPromptFromSheets_rows[OF cfg Some False] assms by simp
      have dec: "decidingRow env valuesGet mapped = find (eligibleRow mapped) (drop 1 rows)"
        using Some by (simp add: decidingRow_def)
      show ?thesis
      proof (cases "find (eligibleRow mapped) (drop 1 rows)")
        case None
        have "includesStr (''Field \"'' @ fid @ ''\" (mapped to \"'' @ mapped
                       @ ''\") not found in Prompts tab'') fid"
          by (rule includesStr_append)
        then show ?thesis
          using None cfg Some False
          by (simp add: eq dec searchPromptRows_find)
      next
        case (Some row)
        then show ?thesis
          using cfg \<open>fetchedPromptRows env valuesGet = Some rows\<close> False
          by (simp add: eq dec searchPromptRows_find)
      qed
    qed
  qed
qed

lemmas resolver_eval =
  getPromptFromSheets_def exampleEnv_def optTrim_def truthy_def mapFieldId_def
  lookupKey_def fieldNameMappings_def truthyValue_def cell_def promptFailure_def
  renderValue_def

text \<open>
  A key cell is compared trimmed, so a cell that ends with a no-break space matches.
\<close>

lemma resolver_no_break_space_example:
  "getPromptFromSheets exampleEnv
     (\<lambda>sheet range. Inr (Some [[''Field'', ''Prompt''],
                                  [''Cost'' @ [CHR 0xA0], ''Explain the cost'']]))
     ''cost'' (Some ''token'')
   = \<lparr>prompt = Some ''Explain the cost'', example = None, found = True, error = None\<rparr>"
  by (simp add: resolver_eval string_defs)

text \<open>
  Claim C8 as stated fails on two sheets. On the first, row 3 matches the field
  \<^verbatim>\<open>cost\<close> and has a prompt, yet the resolver returns \<^verbatim>\<open>found=false\<close>, because
  row 2 matches too and has none. On the second, the key cell of row 3 equals the mapped
  name and the row has no prompt cell, yet the message is the one for a field that is not
  found.
\<close>

theorem resolver_matching_row_counterexample:
  "found (getPromptFromSheets exampleEnv (\<lambda>sheet range. Inr (Some exampleShadowedRows))
            ''cost'' (Some ''token'')) = False
   \<and> trim (toLowerCase (cell (exampleShadowedRows ! 2) 0)) = toLowerCase ''Cost''
   \<and> cell (exampleShadowedRows ! 2) 1 \<noteq> []
   \<and> error (getPromptFromSheets exampleEnv (\<lambda>sheet range. Inr (Some exampleKeyOnlyRows))
            ''cost'' (Some ''token''))
       = Some ''Field \"cost\" (mapped to \"Cost\") not found in Prompts tab''
   \<and> trim (toLowerCase (cell (exampleKeyOnlyRows ! 2) 0)) = toLowerCase ''Cost''"
  by (simp add: exampleShadowedRows_def exampleKeyOnlyRows_def resolver_eval string_defs)

theorem resolver_first_eligible_row_decides_witness:
  "mapFieldId ''cost'' = Str ''Cost''
   \<and> getPromptFromSheets exampleEnv (\<lambda>sheet range. Inr (Some examplePromptRows))
         ''cost'' (Some ''token'')
       = \<lparr>prompt = Some ''Explain the cost of {{keyword}}'', example = None,
          found = True, error = None\<rparr>
   \<and> error (getPromptFromSheets exampleEnv (\<lambda>sheet range. Inr (Some exampleDuplicateRows))
         ''cost'' (Some ''token''))
       = Some ''Field \"cost\" (mapped to \"Cost\") not found in Prompts tab''"
proof -
  have m: "mapFieldId ''cost'' = Str ''Cost''"
    by (simp add: resolver_eval)
  have cfg: "resolverConfigured exampleEnv (Some ''token'')"
    by (simp add: resolverConfigured_def resolver_eval string_defs)
  have dec: "decidingRow exampleEnv (\<lambda>sheet range. Inr (Some examplePromptRows)) ''Cost''
               = Some [''Cost'', ''Explain the cost of {{keyword}}'']"
    by (simp add: decidingRow_def fetchedPromptRows_def examplePromptRows_def eligibleRow_def
          cell_def string_defs)
  have rows: "fetchedPromptRows exampleEnv (\<lambda>sheet range. Inr (Some exampleDuplicateRows))
                = Some exampleDuplicateRows"
    by (simp add: fetchedPromptRows_def)
  have none: "decidingRow exampleEnv (\<lambda>sheet range. Inr (Some exampleDuplicateRows)) ''Cost''
               = None"
    by (simp add: decidingRow_def fetchedPromptRows_def exampleDuplicateRows_def
          eligibleRow_def cell_def string_defs)
  have found: "getPromptFromSheets exampleEnv (\<lambda>sheet range. Inr (Some examplePromptRows))
         ''cost'' (Some ''token'')
       = \<lparr>prompt = Some ''Explain the cost of {{keyword}}'', example = None,
          found = True, error = None\<rparr>"
    using resolver_first_eligible_row_decides[OF m, of exampleEnv
            "\<lambda>sheet range. Inr (Some examplePromptRows)" "Some ''token''"] cfg dec
    by (simp add: cell_def)
  have missing: "error (getPromptFromSheets exampleEnv
                   (\<lambda>sheet range. Inr (Some exampleDuplicateRows)) ''cost'' (Some ''token''))
       = Some ''Field \"cost\" (mapped to \"Cost\") not found in Prompts tab''"
    using resolver_first_eligible_row_decides[OF m, of exampleEnv
            "\<lambda>sheet range. Inr (Some exampleDuplicateRows)" "Some ''token''"] cfg none rows
    by (simp add: exampleDuplicateRows_def)
  show ?thesis using m found missing by simp
qed

section \<open>Keyword placeholders: substituting twice\<close>

lemma getSubstitution_plain:
  "CHR ''$'' \<notin> set repl \<Longrightarrow> getSubstitution repl matched before after = repl"
  by (induction repl matched before after rule: getSubstitution.induct) auto

lemma includesStr_sublist: "includesStr s p = sublist p s"
proof (induction s)
  case Nil
  then show ?case by simp
next
  case (Cons c cs)
  have "startsWith (c # cs) p = prefix p (c # cs)"
    by (auto simp: startsWith_def prefix_def) (metis append_eq_conv_conj)
  then show ?case
    using Cons by (auto simp: sublist_Cons_right)
qed

lemma fragment_of_placeholder:
  assumes "sublist k ''{{keyword}}''" "CHR ''{'' \<notin> set k" "CHR ''}'' \<notin> set k"
  shows "includesStr ''keyword'' k"
proof -
  have "\<forall>k\<in>set (sublists ''{{keyword}}'').
          CHR ''{'' \<notin> set k \<and> CHR ''}'' \<notin> set k \<longrightarrow> includesStr ''keyword'' k"
    by (simp add: startsWith_def)
  moreover have "k \<in> set (sublists ''{{keyword}}'')"
    using assms(1) by (simp only: in_set_sublists)
  ultimately show ?thesis using assms(2,3) by blast
qed

lemma toLowerChar_brace:
  "toLowerChar c = CHR ''{'' \<Longrightarrow> c = CHR ''{''"
  "toLowerChar c = CHR ''}'' \<Longrightarrow> c = CHR ''}''"
  by (simp_all add: toLowerChar_def upperLetters_def lowerLetters_def upperLatin1_def
        lowerLatin1_def split: if_splits)

lemma toLowerCase_brace:
  "CHR ''{'' \<in> set (toLowerCase k) \<Longrightarrow> CHR ''{'' \<in> set k"
  "CHR ''}'' \<in> set (toLowerCase k) \<Longrightarrow> CHR ''}'' \<in> set k"
proof -
  assume "CHR ''{'' \<in> set (toLowerCase k)"
  then obtain x where "x \<in> set k" "toLowerChar x = CHR ''{''"
    by (auto simp: toLowerCase_def)
  then show "CHR ''{'' \<in> set k" using toLowerChar_brace(1) by blast
next
  assume "CHR ''}'' \<in> set (toLowerCase k)"
  then obtain x where "x \<in> set k" "toLowerChar x = CHR ''}''"
    by (auto simp: toLowerCase_def)
  then show "CHR ''}'' \<in> set k" using toLowerChar_brace(2) by blast
qed

lemma plainKeywordD:
  assumes "plainKeyword kw"
  shows "CHR ''$'' \<notin> set kw" "CHR ''{'' \<notin> set kw" "CHR ''}'' \<notin> set kw"
    "\<not> includesStr ''keyword'' (toLowerCase kw)" "\<not> includesStr kw ''KEYWORD''"
  using assms unfolding plainKeyword_def by blast+

text \<open>A match of the placeholder cannot begin before an inserted keyword and reach
  into it.\<close>

lemma no_match_across_keyword:
  assumes plain: "plainKeyword kw" and short: "length pre < 11"
  shows "\<not> matchesFixed True ''{{keyword}}'' (pre @ kw @ rest)"
proof
  assume m: "matchesFixed True ''{{keyword}}'' (pre @ kw @ rest)"
  have nb: "CHR ''{'' \<notin> set (toLowerCase kw)" "CHR ''}'' \<notin> set (toLowerCase kw)"
    using plainKeywordD(2,3)[OF plain] toLowerCase_brace by blast+
  have nofrag: "\<not> includesStr ''keyword'' (toLowerCase kw)"
    using plain by (rule plainKeywordD)
  have len: "length ''{{keyword}}'' = 11" by simp
  have low: "toLowerCase ''{{keyword}}'' = ''{{keyword}}''" by (simp add: string_defs)
  from m have "toLowerCase (take (length ''{{keyword}}'') (pre @ kw @ rest))
                 = toLowerCase ''{{keyword}}''"
    unfolding matchesFixed_def if_True by blast
  then have eq: "toLowerCase (take 11 (pre @ kw @ rest)) = ''{{keyword}}''"
    unfolding len low .
  define n where "n = 11 - length pre"
  have n: "0 < n" "length pre + n = 11" using short by (simp_all add: n_def)
  have "take 11 (pre @ kw @ rest) = pre @ take n (kw @ rest)"
    using short by (simp add: n_def)
  then have split: "''{{keyword}}'' = toLowerCase pre @ toLowerCase (take n (kw @ rest))"
    using eq by (simp only: toLowerCase_def map_append)
  show False
  proof (cases "n \<le> length kw")
    case True
    then have "take n (kw @ rest) = take n kw" by simp
    then have cut: "''{{keyword}}'' = toLowerCase pre @ toLowerCase (take n kw)"
      using split by (simp only:)
    have ne: "toLowerCase (take n kw) \<noteq> []"
      using True n(1) by (auto simp: toLowerCase_def)
    have "last ''{{keyword}}'' = last (toLowerCase (take n kw))"
      using cut ne by (metis last_appendR)
    then have "CHR ''}'' \<in> set (toLowerCase (take n kw))"
      using ne by (metis last.simps last_in_set list.discI)
    then have "CHR ''}'' \<in> set (toLowerCase kw)"
      by (auto simp: toLowerCase_def dest: in_set_takeD)
    then show False using nb by simp
  next
    case False
    then have "take n (kw @ rest) = kw @ take (n - length kw) rest"
      by simp
    then have "''{{keyword}}'' = toLowerCase pre @ toLowerCase kw
                 @ toLowerCase (take (n - length kw) rest)"
      using split by (simp only: toLowerCase_def map_append)
    then have "sublist (toLowerCase kw) ''{{keyword}}''"
      unfolding sublist_def by metis
    then have "includesStr ''keyword'' (toLowerCase kw)"
      using nb by (intro fragment_of_placeholder)
    then show False using nofrag by simp
  qed
qed

lemma matchesFixed_long_prefix:
  assumes "length pat \<le> length pre"
  shows "matchesFixed ci pat (pre @ x) = matchesFixed ci pat (pre @ y)"
  using assms by (simp add: matchesFixed_def)

lemma matchesFixed_first:
  assumes "matchesFixed True ''{{keyword}}'' v"
  shows "v \<noteq> [] \<and> hd v = CHR ''{''"
proof -
  have len: "length ''{{keyword}}'' = 11" by simp
  have low: "toLowerCase ''{{keyword}}'' = ''{{keyword}}''" by (simp add: string_defs)
  from assms have a: "length ''{{keyword}}'' \<le> length v"
    and b: "toLowerCase (take (length ''{{keyword}}'') v) = toLowerCase ''{{keyword}}''"
    unfolding matchesFixed_def if_True by blast+
  from a have ne: "v \<noteq> []" unfolding len by auto
  then obtain c cs where v: "v = c # cs" by (cases v) auto
  from b have "toLowerCase (take 11 (c # cs)) = ''{{keyword}}''"
    unfolding len low v .
  then have "toLowerChar c = CHR ''{''"
    by (simp add: toLowerCase_def numeral_eq_Suc)
  then have "c = CHR ''{''" by (rule toLowerChar_brace)
  then show ?thesis using v by simp
qed

lemma replaceAllFixed_no_match:
  assumes "\<forall>v. suffix v x \<longrightarrow> \<not> matchesFixed ci pat v"
  shows "replaceAllFixed ci pat repl before x = x"
  using assms
proof (induction x arbitrary: before)
  case Nil
  then show ?case by simp
next
  case (Cons c cs)
  have "\<not> matchesFixed ci pat (c # cs)"
    using Cons.prems by (simp add: suffix_order.refl)
  moreover have "\<forall>v. suffix v cs \<longrightarrow> \<not> matchesFixed ci pat v"
    using Cons.prems by (simp add: suffix_Cons)
  ultimately show ?case
    using Cons.IH by simp
qed

lemma placeholder_match_through_fixed:
  assumes "plainKeyword kw"
    and "matchesFixed True ''{{keyword}}'' (pre @ replaceAllFixed ci pat kw before s)"
  shows "matchesFixed True ''{{keyword}}'' (pre @ s)"
  using assms(2)
proof (induction s arbitrary: pre before)
  case Nil
  then show ?case by simp
next
  case (Cons c cs)
  show ?case
  proof (cases "matchesFixed ci pat (c # cs)")
    case True
    then have out: "replaceAllFixed ci pat kw before (c # cs)
                 = kw @ replaceAllFixed ci pat kw (before @ take (length pat) (c # cs))
                          (drop (length pat) (c # cs))"
      using plainKeywordD(1)[OF assms(1)] by (simp add: getSubstitution_plain)
    have "\<not> length pre < 11"
      using no_match_across_keyword[OF assms(1)] Cons.prems unfolding out by blast
    then have "length ''{{keyword}}'' \<le> length pre" by simp
    then show ?thesis
      using Cons.prems matchesFixed_long_prefix by blast
  next
    case False
    then have "replaceAllFixed ci pat kw before (c # cs)
                 = c # replaceAllFixed ci pat kw (before @ [c]) cs"
      by simp
    then have "matchesFixed True ''{{keyword}}''
                 ((pre @ [c]) @ replaceAllFixed ci pat kw (before @ [c]) cs)"
      using Cons.prems by simp
    then have "matchesFixed True ''{{keyword}}'' ((pre @ [c]) @ cs)"
      by (rule Cons.IH)
    then show ?thesis by simp
  qed
qed

lemma suffix_append_cases:
  assumes "suffix v (k @ x)"
  shows "suffix v x \<or> (\<exists>k'. suffix k' k \<and> k' \<noteq> [] \<and> v = k' @ x)"
proof -
  from assms obtain k' where "suffix v x \<or> (suffix k' k \<and> v = k' @ x)"
    unfolding suffix_append by blast
  then show ?thesis by (cases "k' = []") auto
qed

lemma no_placeholder_after_fixed_aux:
  assumes "plainKeyword kw" and "ci = True" and "pat = ''{{keyword}}''"
    and "suffix v (replaceAllFixed ci pat kw before s)"
  shows "\<not> matchesFixed ci pat v"
  using assms
proof (induction ci pat kw before s arbitrary: v rule: replaceAllFixed.induct)
  case (1 ci pat repl before)
  then have "v = []" by simp
  then show ?case by (simp add: matchesFixed_def)
next
  case (2 ci pat repl before c cs)
  note plain = "2.prems"(1) and ci = "2.prems"(2) and pat = "2.prems"(3)
  show ?case
  proof (cases "matchesFixed ci pat (c # cs)")
    case True
    define X where "X = replaceAllFixed ci pat repl
                (before @ take (length pat) (c # cs)) (drop (length pat) (c # cs))"
    have IH: "\<And>v. suffix v X \<Longrightarrow> \<not> matchesFixed ci pat v"
      unfolding X_def using "2.IH"(1)[OF True plain ci pat] by blast
    have "replaceAllFixed ci pat repl before (c # cs)
            = getSubstitution repl (take (length pat) (c # cs)) before
                (drop (length pat) (c # cs)) @ X"
      unfolding X_def using True by (simp only: replaceAllFixed.simps if_True)
    then have out: "replaceAllFixed ci pat repl before (c # cs) = repl @ X"
      unfolding getSubstitution_plain[OF plainKeywordD(1)[OF plain]] .
    from "2.prems"(4) have "suffix v (repl @ X)" unfolding out .
    then have "suffix v X \<or> (\<exists>k. suffix k repl \<and> k \<noteq> [] \<and> v = k @ X)"
      by (rule suffix_append_cases)
    then show ?thesis
    proof
      assume "suffix v X"
      then show ?thesis by (rule IH)
    next
      assume "\<exists>k. suffix k repl \<and> k \<noteq> [] \<and> v = k @ X"
      then obtain k where k: "suffix k repl" "k \<noteq> []" "v = k @ X" by blast
      have "hd v \<in> set repl"
        using k by (metis hd_append2 hd_in_set set_mono_suffix subsetD)
      moreover have "CHR ''{'' \<notin> set repl" using plain by (rule plainKeywordD)
      ultimately show ?thesis using matchesFixed_first unfolding ci pat by metis
    qed
  next
    case False
    define X where "X = replaceAllFixed ci pat repl (before @ [c]) cs"
    have IH: "\<And>v. suffix v X \<Longrightarrow> \<not> matchesFixed ci pat v"
      unfolding X_def using "2.IH"(2)[OF False plain ci pat] by blast
    have out: "replaceAllFixed ci pat repl before (c # cs) = c # X"
      unfolding X_def using False by (simp only: replaceAllFixed.simps if_False)
    from "2.prems"(4) have "v = c # X \<or> suffix v X"
      unfolding out by (simp add: suffix_Cons)
    then show ?thesis
    proof
      assume v: "v = c # X"
      show ?thesis
      proof
        assume "matchesFixed ci pat v"
        then have "matchesFixed True ''{{keyword}}'' ([c] @ X)" using v ci pat by simp
        then have "matchesFixed True ''{{keyword}}'' ([c] @ cs)"
          unfolding X_def using placeholder_match_through_fixed[OF plain] by blast
        then show False using False ci pat by simp
      qed
    next
      assume "suffix v X"
      then show ?thesis by (rule IH)
    qed
  qed
qed

lemma no_placeholder_after_fixed:
  assumes "plainKeyword kw"
    and "suffix v (replaceAllFixed True ''{{keyword}}'' kw before s)"
  shows "\<not> matchesFixed True ''{{keyword}}'' v"
  using no_placeholder_after_fixed_aux[OF assms(1) refl refl assms(2)] .

lemma placeholder_match_through_word:
  assumes "plainKeyword kw"
    and "matchesFixed True ''{{keyword}}'' (pre @ replaceAllWord kw before s)"
  shows "matchesFixed True ''{{keyword}}'' (pre @ s)"
  using assms(2)
proof (induction s arbitrary: pre before)
  case Nil
  then show ?case by simp
next
  case (Cons c cs)
  show ?case
  proof (cases "matchesWord before (c # cs)")
    case True
    have "replaceAllWord kw before (c # cs)
            = getSubstitution kw (take 7 (c # cs)) before (drop 7 (c # cs))
              @ replaceAllWord kw (before @ take 7 (c # cs)) (drop 7 (c # cs))"
      using True by (simp only: replaceAllWord.simps if_True)
    then have out: "replaceAllWord kw before (c # cs)
            = kw @ replaceAllWord kw (before @ take 7 (c # cs)) (drop 7 (c # cs))"
      unfolding getSubstitution_plain[OF plainKeywordD(1)[OF assms(1)]] .
    have "\<not> length pre < 11"
      using no_match_across_keyword[OF assms(1)] Cons.prems unfolding out by blast
    then have "length ''{{keyword}}'' \<le> length pre" by simp
    then show ?thesis
      using Cons.prems matchesFixed_long_prefix by blast
  next
    case False
    then have "replaceAllWord kw before (c # cs) = c # replaceAllWord kw (before @ [c]) cs"
      by (simp only: replaceAllWord.simps if_False)
    then have "matchesFixed True ''{{keyword}}''
                 ((pre @ [c]) @ replaceAllWord kw (before @ [c]) cs)"
      using Cons.prems by simp
    then have "matchesFixed True ''{{keyword}}'' ((pre @ [c]) @ cs)"
      by (rule Cons.IH)
    then show ?thesis by simp
  qed
qed

lemma no_placeholder_after_word:
  assumes "plainKeyword kw"
    and "\<forall>v. suffix v s \<longrightarrow> \<not> matchesFixed True ''{{keyword}}'' v"
    and "suffix v (replaceAllWord kw before s)"
  shows "\<not> matchesFixed True ''{{keyword}}'' v"
  using assms
proof (induction kw before s arbitrary: v rule: replaceAllWord.induct)
  case (1 repl before)
  then have "v = []" by simp
  then show ?case by (simp add: matchesFixed_def)
next
  case (2 repl before c cs)
  note plain = "2.prems"(1) and clean = "2.prems"(2)
  show ?case
  proof (cases "matchesWord before (c # cs)")
    case True
    define X where "X = replaceAllWord repl (before @ take 7 (c # cs)) (drop 7 (c # cs))"
    have "\<forall>v. suffix v (drop 7 (c # cs)) \<longrightarrow> \<not> matchesFixed True ''{{keyword}}'' v"
      using clean suffix_drop suffix_order.trans by blast
    then have IH: "\<And>v. suffix v X \<Longrightarrow> \<not> matchesFixed True ''{{keyword}}'' v"
      unfolding X_def using "2.IH"(1)[OF True plain] by blast
    have "replaceAllWord repl before (c # cs)
            = getSubstitution repl (take 7 (c # cs)) before (drop 7 (c # cs)) @ X"
      unfolding X_def using True by (simp only: replaceAllWord.simps if_True)
    then have out: "replaceAllWord repl before (c # cs) = repl @ X"
      unfolding getSubstitution_plain[OF plainKeywordD(1)[OF plain]] .
    from "2.prems"(3) have "suffix v (repl @ X)" unfolding out .
    then have "suffix v X \<or> (\<exists>k. suffix k repl \<and> k \<noteq> [] \<and> v = k @ X)"
      by (rule suffix_append_cases)
    then show ?thesis
    proof
      assume "suffix v X"
      then show ?thesis by (rule IH)
    next
      assume "\<exists>k. suffix k repl \<and> k \<noteq> [] \<and> v = k @ X"
      then obtain k where k: "suffix k repl" "k \<noteq> []" "v = k @ X" by blast
      have "hd v \<in> set repl"
        using k by (metis hd_append2 hd_in_set set_mono_suffix subsetD)
      moreover have "CHR ''{'' \<notin> set repl" using plain by (rule plainKeywordD)
      ultimately show ?thesis using matchesFixed_first by metis
    qed
  next
    case False
    define X where "X = replaceAllWord repl (before @ [c]) cs"
    have "\<forall>v. suffix v cs \<longrightarrow> \<not> matchesFixed True ''{{keyword}}'' v"
      using clean by (simp add: suffix_Cons)
    then have IH: "\<And>v. suffix v X \<Longrightarrow> \<not> matchesFixed True ''{{keyword}}'' v"
      unfolding X_def using "2.IH"(2)[OF False plain] by blast
    have out: "replaceAllWord repl before (c # cs) = c # X"
      unfolding X_def using False by (simp only: replaceAllWord.simps if_False)
    from "2.prems"(3) have "v = c # X \<or> suffix v X"
      unfolding out by (simp add: suffix_Cons)
    then show ?thesis
    proof
      assume v: "v = c # X"
      show ?thesis
      proof
        assume "matchesFixed True ''{{keyword}}'' v"
        then have "matchesFixed True ''{{keyword}}'' ([c] @ X)" using v by simp
        then have "matchesFixed True ''{{keyword}}'' ([c] @ cs)"
          unfolding X_def using placeholder_match_through_word[OF plain] by blast
        then show False using clean by (simp add: suffix_order.refl)
      qed
    next
      assume "suffix v X"
      then show ?thesis by (rule IH)
    qed
  qed
qed

lemma boundary_before_iff:
  "(case rev b of [] \<Rightarrow> True | p # ps \<Rightarrow> \<not> isWordChar p)
     = (b = [] \<or> \<not> isWordChar (last b))"
  by (cases b rule: rev_cases) simp_all

lemma boundary_after_iff:
  "(case r of [] \<Rightarrow> True | n # ns \<Rightarrow> \<not> isWordChar n) = (r = [] \<or> \<not> isWordChar (hd r))"
  by (cases r) simp_all

lemma startsWith_iff: "startsWith v p = (\<exists>rest. v = p @ rest)"
  unfolding startsWith_def by (metis append_eq_conv_conj append_take_drop_id)

lemma matchesWord_iff:
  "matchesWord b v =
     ((b = [] \<or> \<not> isWordChar (last b))
      \<and> (\<exists>rest. v = ''KEYWORD'' @ rest \<and> (rest = [] \<or> \<not> isWordChar (hd rest))))"
proof -
  have len: "length ''KEYWORD'' = 7" by simp
  have "(startsWith v ''KEYWORD'' \<and> (drop 7 v = [] \<or> \<not> isWordChar (hd (drop 7 v))))
          = (\<exists>rest. v = ''KEYWORD'' @ rest \<and> (rest = [] \<or> \<not> isWordChar (hd rest)))"
  proof
    assume a: "startsWith v ''KEYWORD'' \<and> (drop 7 v = [] \<or> \<not> isWordChar (hd (drop 7 v)))"
    then have "take (length ''KEYWORD'') v = ''KEYWORD''" by (simp only: startsWith_def)
    then have "v = ''KEYWORD'' @ drop 7 v"
      unfolding len by (metis append_take_drop_id)
    then show "\<exists>rest. v = ''KEYWORD'' @ rest \<and> (rest = [] \<or> \<not> isWordChar (hd rest))"
      using a by blast
  next
    assume "\<exists>rest. v = ''KEYWORD'' @ rest \<and> (rest = [] \<or> \<not> isWordChar (hd rest))"
    then obtain rest where r: "v = ''KEYWORD'' @ rest" "rest = [] \<or> \<not> isWordChar (hd rest)"
      by blast
    have "drop 7 v = rest" unfolding r(1) by simp
    moreover have "startsWith v ''KEYWORD''" unfolding r(1) startsWith_iff by blast
    ultimately show "startsWith v ''KEYWORD'' \<and> (drop 7 v = [] \<or> \<not> isWordChar (hd (drop 7 v)))"
      using r(2) by simp
  qed
  moreover have "(rev b = [] \<or> \<not> isWordChar (hd (rev b)))
                   = (b = [] \<or> \<not> isWordChar (last b))"
    by (simp add: hd_rev)
  ultimately show ?thesis
    unfolding matchesWord_def boundary_after_iff by blast
qed

lemma matchesWordI:
  assumes "b = [] \<or> \<not> isWordChar (last b)" "v = ''KEYWORD'' @ rest"
    "rest = [] \<or> \<not> isWordChar (hd rest)"
  shows "matchesWord b v"
  unfolding matchesWord_iff using assms by blast

lemma word_chars_of_KEYWORD: "c \<in> set ''KEYWORD'' \<Longrightarrow> isWordChar c"
  by (auto simp: isWordChar_def upperLetters_def lowerLetters_def)

text \<open>A match of the bare word is decided by the text up to the first character that
  is not a word character.\<close>

lemma matchesWord_cut:
  assumes "\<not> isWordChar c" "matchesWord b (x @ c # y)"
  shows "matchesWord b (x @ c # y')"
proof -
  from assms(2) obtain rest where b: "b = [] \<or> \<not> isWordChar (last b)"
    and v: "x @ c # y = ''KEYWORD'' @ rest" and r: "rest = [] \<or> \<not> isWordChar (hd rest)"
    unfolding matchesWord_iff by blast
  from v obtain us where
    "(x = ''KEYWORD'' @ us \<and> us @ c # y = rest) \<or> (x @ us = ''KEYWORD'' \<and> c # y = us @ rest)"
    unfolding append_eq_append_conv2 by blast
  then show ?thesis
  proof
    assume a: "x = ''KEYWORD'' @ us \<and> us @ c # y = rest"
    then have eq: "x @ c # y' = ''KEYWORD'' @ (us @ c # y')" by simp
    have "hd (us @ c # y') = hd rest" using a by (cases us) auto
    moreover have "rest \<noteq> []" using a by auto
    ultimately have "\<not> isWordChar (hd (us @ c # y'))" using r by simp
    then show ?thesis using b eq by (intro matchesWordI[of b _ "us @ c # y'"]) simp_all
  next
    assume a: "x @ us = ''KEYWORD'' \<and> c # y = us @ rest"
    show ?thesis
    proof (cases us)
      case Nil
      then have eq: "x @ c # y' = ''KEYWORD'' @ (c # y')" using a by simp
      show ?thesis using b eq assms(1) by (intro matchesWordI[of b _ "c # y'"]) simp_all
    next
      case (Cons u us')
      then have "c = u" using a by simp
      then have k: "x @ c # us' = ''KEYWORD''" using a Cons by simp
      have "c \<in> set (x @ c # us')" by simp
      then have "c \<in> set ''KEYWORD''" unfolding k .
      then show ?thesis using assms(1) word_chars_of_KEYWORD by blast
    qed
  qed
qed

lemma matchesWord_first:
  assumes "matchesWord b v"
  shows "v \<noteq> [] \<and> isWordChar (hd v)"
proof -
  from assms obtain rest where "v = ''KEYWORD'' @ rest"
    unfolding matchesWord_iff by blast
  then have "v \<noteq> []" "hd v \<in> set ''KEYWORD''" by simp_all
  then show ?thesis using word_chars_of_KEYWORD by blast
qed

lemma matchesWord_context:
  assumes "(b = [] \<or> \<not> isWordChar (last b)) = (b' = [] \<or> \<not> isWordChar (last b'))"
  shows "matchesWord b v = matchesWord b' v"
  unfolding matchesWord_iff using assms by blast

lemma replaceAllWord_no_match_step:
  "\<not> matchesWord before (c # cs) \<Longrightarrow>
     replaceAllWord repl before (c # cs) = c # replaceAllWord repl (before @ [c]) cs"
  by (simp only: replaceAllWord.simps if_False)

lemma replaceAllWord_match_step:
  assumes "matchesWord before (c # cs)" "CHR ''$'' \<notin> set repl"
  shows "replaceAllWord repl before (c # cs)
           = repl @ replaceAllWord repl (before @ take 7 (c # cs)) (drop 7 (c # cs))"
proof -
  have "replaceAllWord repl before (c # cs)
          = getSubstitution repl (take 7 (c # cs)) before (drop 7 (c # cs))
            @ replaceAllWord repl (before @ take 7 (c # cs)) (drop 7 (c # cs))"
    using assms(1) by (simp only: replaceAllWord.simps if_True)
  then show ?thesis unfolding getSubstitution_plain[OF assms(2)] .
qed

text \<open>The output begins like the input when the input begins with a character that is
  not a word character.\<close>

lemma replaceAllWord_head:
  assumes "s = [] \<or> \<not> isWordChar (hd s)"
  shows "replaceAllWord repl before s = [] \<or> \<not> isWordChar (hd (replaceAllWord repl before s))"
proof (cases s)
  case Nil
  then show ?thesis by simp
next
  case (Cons c cs)
  then have "\<not> isWordChar c" using assms by simp
  then have "\<not> matchesWord before (c # cs)"
    using matchesWord_first by fastforce
  then show ?thesis
    using Cons \<open>\<not> isWordChar c\<close> by (simp add: replaceAllWord_no_match_step)
qed

text \<open>A match of the bare word at the start of the output, after word characters that
  were copied, is a match in the input.\<close>

lemma word_match_through_word:
  assumes "\<forall>c\<in>set pre. isWordChar c" "pre \<noteq> []" "suffix pre before"
    and "matchesWord b (pre @ replaceAllWord repl before s)"
  shows "matchesWord b (pre @ s)"
  using assms
proof (induction s arbitrary: pre before)
  case Nil
  then show ?case by simp
next
  case (Cons c cs)
  have "last before = last pre" "before \<noteq> []"
    using Cons.prems(2,3) by (auto simp: suffix_def)
  then have "isWordChar (last before)" "before \<noteq> []"
    using Cons.prems(1,2) by simp_all
  then have nomatch: "\<not> matchesWord before (c # cs)"
    unfolding matchesWord_iff by blast
  have m: "matchesWord b (pre @ c # replaceAllWord repl (before @ [c]) cs)"
    using Cons.prems(4) unfolding replaceAllWord_no_match_step[OF nomatch] .
  show ?case
  proof (cases "isWordChar c")
    case True
    have "matchesWord b ((pre @ [c]) @ cs)"
    proof (rule Cons.IH)
      show "\<forall>c\<in>set (pre @ [c]). isWordChar c" using Cons.prems(1) True by simp
      show "pre @ [c] \<noteq> []" by simp
      show "suffix (pre @ [c]) (before @ [c])" using Cons.prems(3) by simp
      show "matchesWord b ((pre @ [c]) @ replaceAllWord repl (before @ [c]) cs)"
        using m by simp
    qed
    then show ?thesis by simp
  next
    case False
    then show ?thesis using m by (rule matchesWord_cut)
  qed
qed

lemma sublist_includesStr: "x = a @ p @ b \<Longrightarrow> includesStr x p"
  unfolding includesStr_sublist sublist_def by blast

text \<open>The output of the replacement of the bare word holds no match of the bare word.\<close>

lemma no_word_after_word:
  assumes "plainKeyword kw"
    and "((b = [] \<or> \<not> isWordChar (last b)) = (b' = [] \<or> \<not> isWordChar (last b')))
         \<or> s = [] \<or> \<not> isWordChar (hd s)"
    and "replaceAllWord kw b s = pre @ v"
  shows "\<not> matchesWord (b' @ pre) v"
  using assms
proof (induction kw b s arbitrary: b' pre v rule: replaceAllWord.induct)
  case (1 repl before)
  then have "v = []" by simp
  then show ?case using matchesWord_first by blast
next
  case (2 repl before c cs)
  note plain = "2.prems"(1) and ctx = "2.prems"(2)
  have dollar: "CHR ''$'' \<notin> set repl" using plain by (rule plainKeywordD)
  show ?case
  proof (cases "matchesWord before (c # cs)")
    case True
    define rest where "rest = drop 7 (c # cs)"
    define X where "X = replaceAllWord repl (before @ take 7 (c # cs)) rest"
    from True obtain r where "c # cs = ''KEYWORD'' @ r" "r = [] \<or> \<not> isWordChar (hd r)"
      unfolding matchesWord_iff by blast
    then have rest: "rest = [] \<or> \<not> isWordChar (hd rest)"
      unfolding rest_def by simp
    then have headX: "X = [] \<or> \<not> isWordChar (hd X)"
      unfolding X_def by (rule replaceAllWord_head)
    have IH: "\<not> matchesWord (b'' @ us) w" if "X = us @ w" for b'' us w
      using "2.IH"(1)[OF True plain _ that[unfolded X_def rest_def]] rest[unfolded rest_def]
      by blast
    have out: "replaceAllWord repl before (c # cs) = repl @ X"
      unfolding X_def rest_def using True dollar by (rule replaceAllWord_match_step)
    from "2.prems"(3) have "repl @ X = pre @ v" unfolding out .
    then obtain us where
      "(repl = pre @ us \<and> us @ X = v) \<or> (repl @ us = pre \<and> X = us @ v)"
      unfolding append_eq_append_conv2 by blast
    then show ?thesis
    proof
      assume a: "repl @ us = pre \<and> X = us @ v"
      then have "\<not> matchesWord ((b' @ repl) @ us) v" using IH by blast
      then show ?thesis using a by auto
    next
      assume a: "repl = pre @ us \<and> us @ X = v"
      show ?thesis
      proof
        assume "matchesWord (b' @ pre) v"
        then obtain r1 where r1: "us @ X = ''KEYWORD'' @ r1"
          using a unfolding matchesWord_iff by blast
        then obtain ws where
          "(us = ''KEYWORD'' @ ws \<and> ws @ X = r1) \<or> (us @ ws = ''KEYWORD'' \<and> X = ws @ r1)"
          unfolding append_eq_append_conv2 by blast
        then show False
        proof
          assume "us = ''KEYWORD'' @ ws \<and> ws @ X = r1"
          then have "repl = pre @ ''KEYWORD'' @ ws" using a by simp
          then have "includesStr repl ''KEYWORD''" by (rule sublist_includesStr)
          then show False using plainKeywordD(5)[OF plain] by blast
        next
          assume w: "us @ ws = ''KEYWORD'' \<and> X = ws @ r1"
          show False
          proof (cases ws)
            case Nil
            then have "repl = pre @ ''KEYWORD'' @ []" using a w by simp
            then have "includesStr repl ''KEYWORD''" by (rule sublist_includesStr)
            then show False using plainKeywordD(5)[OF plain] by blast
          next
            case (Cons x xs)
            then have k: "us @ x # xs = ''KEYWORD''" using w by simp
            have "x \<in> set (us @ x # xs)" by simp
            then have "x \<in> set ''KEYWORD''" unfolding k .
            then have "isWordChar x" by (rule word_chars_of_KEYWORD)
            moreover have "X \<noteq> []" "hd X = x" using w Cons by simp_all
            ultimately show False using headX by simp
          qed
        qed
      qed
    qed
  next
    case False
    define X where "X = replaceAllWord repl (before @ [c]) cs"
    have out: "replaceAllWord repl before (c # cs) = c # X"
      unfolding X_def using False by (rule replaceAllWord_no_match_step)
    have IH: "\<not> matchesWord ((b' @ [c]) @ us) w" if "X = us @ w" for us w
    proof (rule "2.IH"(2)[OF False plain _ that[unfolded X_def]])
      show "((before @ [c] = [] \<or> \<not> isWordChar (last (before @ [c])))
              = (b' @ [c] = [] \<or> \<not> isWordChar (last (b' @ [c]))))
            \<or> cs = [] \<or> \<not> isWordChar (hd cs)"
        by simp
    qed
    from "2.prems"(3) have "c # X = pre @ v" unfolding out .
    then have "(pre = [] \<and> v = c # X) \<or> (\<exists>us. pre = c # us \<and> X = us @ v)"
      by (cases pre) auto
    then show ?thesis
    proof
      assume "\<exists>us. pre = c # us \<and> X = us @ v"
      then obtain us where us: "pre = c # us" "X = us @ v" by blast
      then have "\<not> matchesWord ((b' @ [c]) @ us) v" using IH by blast
      then show ?thesis using us by simp
    next
      assume a: "pre = [] \<and> v = c # X"
      show ?thesis
      proof
        assume "matchesWord (b' @ pre) v"
        then have m: "matchesWord b' ([c] @ X)" using a by simp
        then have w: "isWordChar c" using matchesWord_first by fastforce
        have "matchesWord b' ([c] @ cs)"
        proof (rule word_match_through_word[of "[c]" "before @ [c]" b' repl cs])
          show "\<forall>c\<in>set [c]. isWordChar c" using w by simp
          show "[c] \<noteq> []" by simp
          show "suffix [c] (before @ [c])" by (simp add: suffix_def)
          show "matchesWord b' ([c] @ replaceAllWord repl (before @ [c]) cs)"
            using m unfolding X_def .
        qed
        moreover have "(before = [] \<or> \<not> isWordChar (last before))
                         = (b' = [] \<or> \<not> isWordChar (last b'))"
          using ctx w by simp
        ultimately have "matchesWord before (c # cs)"
          using matchesWord_context[of before b' "c # cs"] by simp
        then show False using False by simp
      qed
    qed
  qed
qed

lemma replaceAllWord_no_match:
  assumes "\<forall>pre v. x = pre @ v \<longrightarrow> \<not> matchesWord (b @ pre) v"
  shows "replaceAllWord repl b x = x"
  using assms
proof (induction x arbitrary: b)
  case Nil
  then show ?case by simp
next
  case (Cons c cs)
  have "\<not> matchesWord (b @ []) (c # cs)" using Cons.prems by blast
  then have step: "replaceAllWord repl b (c # cs) = c # replaceAllWord repl (b @ [c]) cs"
    by (simp add: replaceAllWord_no_match_step)
  have "\<forall>pre v. cs = pre @ v \<longrightarrow> \<not> matchesWord ((b @ [c]) @ pre) v"
  proof (intro allI impI)
    fix pre v
    assume "cs = pre @ v"
    then have "c # cs = (c # pre) @ v" by simp
    then have "\<not> matchesWord (b @ c # pre) v" using Cons.prems by blast
    then show "\<not> matchesWord ((b @ [c]) @ pre) v" by simp
  qed
  then show ?case using Cons.IH step by simp
qed

lemma upper_placeholder_is_placeholder:
  assumes "matchesFixed False ''{{KEYWORD}}'' v"
  shows "matchesFixed True ''{{keyword}}'' v"
proof -
  have len: "length ''{{KEYWORD}}'' = length ''{{keyword}}''" by simp
  have low: "toLowerCase ''{{KEYWORD}}'' = toLowerCase ''{{keyword}}''"
    by (simp add: string_defs)
  from assms have a: "length ''{{KEYWORD}}'' \<le> length v"
    and b: "take (length ''{{KEYWORD}}'') v = ''{{KEYWORD}}''"
    unfolding matchesFixed_def if_False by blast+
  have "toLowerCase (take (length ''{{keyword}}'') v) = toLowerCase ''{{keyword}}''"
    using b unfolding len[symmetric] low[symmetric] by (simp only:)
  moreover have "length ''{{keyword}}'' \<le> length v" using a unfolding len .
  moreover have "''{{keyword}}'' \<noteq> []" by simp
  ultimately show ?thesis unfolding matchesFixed_def if_True by blast
qed

text \<open>
  Claim C9, as amended. Take a keyword that contains none of the characters
  \<^verbatim>\<open>$\<close>, \<^verbatim>\<open>{\<close> and \<^verbatim>\<open>}\<close>, that is not, up to case, a fragment of the word
  \<^verbatim>\<open>keyword\<close> (so it is not empty), and that does not contain the text
  \<^verbatim>\<open>KEYWORD\<close>. Then for every template string, applying the substitution of the
  keyword placeholders twice yields the same string as applying it once.
\<close>

theorem substituteKeyword_idempotent:
  assumes "plainKeyword keyword"
  shows "substituteKeyword keyword (substituteKeyword keyword s) = substituteKeyword keyword s"
proof -
  define u1 where "u1 = replaceAllFixed True ''{{keyword}}'' keyword [] s"
  define u3 where "u3 = replaceAllWord keyword [] u1"
  have clean1: "\<forall>v. suffix v u1 \<longrightarrow> \<not> matchesFixed True ''{{keyword}}'' v"
    unfolding u1_def using no_placeholder_after_fixed[OF assms] by blast
  then have "\<forall>v. suffix v u1 \<longrightarrow> \<not> matchesFixed False ''{{KEYWORD}}'' v"
    using upper_placeholder_is_placeholder by blast
  then have second: "replaceAllFixed False ''{{KEYWORD}}'' keyword [] u1 = u1"
    by (rule replaceAllFixed_no_match)
  have once: "substituteKeyword keyword s = u3"
    unfolding substituteKeyword_def u3_def u1_def[symmetric] second ..
  have clean3: "\<forall>v. suffix v u3 \<longrightarrow> \<not> matchesFixed True ''{{keyword}}'' v"
    unfolding u3_def using no_placeholder_after_word[OF assms clean1] by blast
  then have first': "replaceAllFixed True ''{{keyword}}'' keyword [] u3 = u3"
    by (rule replaceAllFixed_no_match)
  have "\<forall>v. suffix v u3 \<longrightarrow> \<not> matchesFixed False ''{{KEYWORD}}'' v"
    using clean3 upper_placeholder_is_placeholder by blast
  then have second': "replaceAllFixed False ''{{KEYWORD}}'' keyword [] u3 = u3"
    by (rule replaceAllFixed_no_match)
  have "\<forall>pre v. u3 = pre @ v \<longrightarrow> \<not> matchesWord ([] @ pre) v"
  proof (intro allI impI)
    fix pre v
    assume "u3 = pre @ v"
    then have "replaceAllWord keyword [] u1 = pre @ v" unfolding u3_def .
    then show "\<not> matchesWord ([] @ pre) v"
      using no_word_after_word[OF assms, of "[]" "[]" u1 pre v] by simp
  qed
  then have third': "replaceAllWord keyword [] u3 = u3"
    by (rule replaceAllWord_no_match)
  have "substituteKeyword keyword u3 = u3"
    unfolding substituteKeyword_def first' second' third' ..
  then show ?thesis unfolding once .
qed

lemmas substitute_eval =
  substituteKeyword_def matchesFixed_def matchesWord_def isWordChar_def plainKeyword_def

theorem substituteKeyword_idempotent_witness:
  "plainKeyword ''mattress removal''
   \<and> substituteKeyword ''mattress removal'' ''Write about KEYWORD: {{Keyword}} tips''
       = ''Write about mattress removal: mattress removal tips''
   \<and> substituteKeyword ''mattress removal''
         (substituteKeyword ''mattress removal'' ''Write about KEYWORD: {{Keyword}} tips'')
       = ''Write about mattress removal: mattress removal tips''"
proof -
  have p: "plainKeyword ''mattress removal''"
    by (simp add: substitute_eval string_defs)
  have once: "substituteKeyword ''mattress removal'' ''Write about KEYWORD: {{Keyword}} tips''
       = ''Write about mattress removal: mattress removal tips''"
    by (simp add: substitute_eval string_defs)
  show ?thesis
    using p once substituteKeyword_idempotent[OF p, of "''Write about KEYWORD: {{Keyword}} tips''"]
    by simp
qed

text \<open>
  Claim C9 as stated fails: a keyword that contains the word \<^verbatim>\<open>KEYWORD\<close> is
  inserted again by the second application, and a keyword that is a fragment of the word
  \<^verbatim>\<open>keyword\<close> can complete a placeholder that the first application leaves behind.
\<close>

theorem substituteKeyword_twice_counterexample:
  "substituteKeyword ''KEYWORD RESEARCH''
      (substituteKeyword ''KEYWORD RESEARCH'' ''Write about KEYWORD'')
     \<noteq> substituteKeyword ''KEYWORD RESEARCH'' ''Write about KEYWORD''
   \<and> substituteKeyword ''key'' (substituteKeyword ''key'' ''{{{{keyword}}word}}'')
     \<noteq> substituteKeyword ''key'' ''{{{{keyword}}word}}''"
proof -
  have a: "substituteKeyword ''KEYWORD RESEARCH'' ''Write about KEYWORD''
             = ''Write about KEYWORD RESEARCH''"
    by (simp add: substitute_eval string_defs)
  have b: "substituteKeyword ''KEYWORD RESEARCH'' ''Write about KEYWORD RESEARCH''
             = ''Write about KEYWORD RESEARCH RESEARCH''"
    by (simp add: substitute_eval string_defs)
  have c: "substituteKeyword ''key'' ''{{{{keyword}}word}}'' = ''{{keyword}}''"
    by (simp add: substitute_eval string_defs)
  have d: "substituteKeyword ''key'' ''{{keyword}}'' = ''key''"
    by (simp add: substitute_eval string_defs)
  show ?thesis unfolding a b c d by simp
qed

section \<open>Title casing of the title field\<close>

text \<open>
  Claim C4. The title-casing step of the single-field generator is meant to lower-case
  every small word that is not the first word. On the title
  \<^verbatim>\<open>The Best Of The Best\<close> the fourth word is a small word and not the first
  word, yet the step leaves it capitalised: \<^verbatim>\<open>content.indexOf("The")\<close> is 0,
  because the title itself starts with the same word. The small word \<^verbatim>\<open>Of\<close> next
  to it is lower-cased as intended.
\<close>

theorem titleCase_field_repeated_small_word:
  "titleCase_field ''The Best Of The Best'' = Some ''The Best of The Best''"
  by (simp add: string_defs title_defs)

text \<open>
  First letters outside ASCII: U+00E9 is capitalised, U+00DF becomes \<^verbatim>\<open>SS\<close>, and
  the capital of U+00FF is not a code unit below 256.
\<close>

lemma capitalizeWord_latin1_examples:
  "capitalizeWord ([CHR 0xE9] @ ''LAN'') = Some ([CHR 0xC9] @ ''lan'')"
  "capitalizeWord ([CHR 0xDF] @ ''a'') = Some ''SSa''"
  "capitalizeWord [CHR 0xFF] = None"
  by (simp_all add: string_defs title_defs)

section \<open>The two title-casing steps\<close>

text \<open>
  Claim C10. The title-casing step of the single-field generator and the one of the
  picture-batch generator are meant to be the same rule. They differ on
  \<^verbatim>\<open>A Day At A Time\<close>: the picture-batch step lower-cases the second
  \<^verbatim>\<open>A\<close>, the single-field step does not.
\<close>

theorem titleCase_field_pictures_differ:
  "titleCase_field ''A Day At A Time'' = Some ''A Day at A Time''
   \<and> titleCase_pictures ''A Day At A Time'' = Some ''A Day at a Time''"
  by (simp add: string_defs title_defs)

end
